(* ===== verification/Prelude.thy ===== *)
theory Prelude
  imports Main "HOL-Library.AList" "HOL-Library.Word" "HOL-Library.Multiset"
begin

text \<open>
  Shared vocabulary of the development: the machine types of the Rust sources
  (\<open>u64\<close> and bytes as words), the model of \<open>std::collections::HashMap\<close> as an
  association list with distinct keys, the outcome of a Rust call as a sum type
  (a returned \<open>Err\<close> or a panic on the left), and the generic lemmas on these that
  the component theories use through the collection \<open>hash_map_simps\<close>.
\<close>

named_theorems hash_map_simps "facts on the association-list model of HashMap"

section \<open>Machine types\<close>

type_synonym u64 = "64 word"
type_synonym byte = "8 word"

text \<open>
  \<open>s.len() as u64\<close>: the byte length of a Rust \<open>String\<close> (an Isabelle \<open>string\<close> is a
  list of bytes, so \<open>length\<close> counts bytes as \<open>len()\<close> does) cast from \<open>usize\<close>.
\<close>

definition len_u64 :: "string \<Rightarrow> u64" where
  "len_u64 s = of_nat (length s)"

section \<open>Outcomes of Rust calls\<close>

text \<open>
  \<open>Err\<close> is a returned \<open>Result::Err\<close> with its message; \<open>Panic\<close> is an
  \<open>unwrap\<close>/\<open>expect\<close> on \<open>None\<close> (or an index out of range), with the message the
  source passes to \<open>expect\<close>.
\<close>

datatype error = Err string | Panic string

type_synonym 'a result = "error + 'a"

text \<open>\<open>Option::unwrap\<close>: a panic on \<open>None\<close>.\<close>

definition unwrap :: "'a option \<Rightarrow> 'a result" where
  "unwrap x = (case x of None \<Rightarrow> Inl (Panic ''called `Option::unwrap()` on a `None` value'')
                       | Some v \<Rightarrow> Inr v)"

text \<open>
  \<open>xs.iter().map(f).collect()\<close> where \<open>f\<close> may fail: the first failure, in list
  order, is the outcome.
\<close>

fun map_result :: "('a \<Rightarrow> 'b result) \<Rightarrow> 'a list \<Rightarrow> 'b list result" where
  "map_result f [] = Inr []"
| "map_result f (x # xs) =
     (case f x of
        Inl e \<Rightarrow> Inl e
      | Inr y \<Rightarrow> (case map_result f xs of Inl e \<Rightarrow> Inl e | Inr ys \<Rightarrow> Inr (y # ys)))"

section \<open>HashMap as an association list\<close>

text \<open>
  A \<open>HashMap<K, V>\<close> is an association list whose keys are distinct.
  \<open>insert\<close> is \<^const>\<open>AList.update\<close> (an existing key keeps its slot, a new key
  goes last), \<open>get\<close> is \<^const>\<open>map_of\<close>, \<open>values()\<close> is \<open>map snd\<close>. The order of
  the list stands for the hash map's iteration order, which Rust leaves unspecified:
  every theorem of the development about an iteration result is stated up to that
  order (through \<^const>\<open>mset\<close>, \<^const>\<open>set\<close>, a length or a lookup), so it holds
  whatever order the hasher picks.
\<close>

type_synonym ('k, 'v) hash_map = "('k \<times> 'v) list"

definition keys_distinct :: "('k, 'v) hash_map \<Rightarrow> bool" where
  "keys_distinct m \<longleftrightarrow> distinct (map fst m)"

lemma map_result_Inr_iff [hash_map_simps]:
  "map_result f xs = Inr ys \<longleftrightarrow> list_all2 (\<lambda>x y. f x = Inr y) xs ys"
proof (induction xs arbitrary: ys)
  case Nil
  then show ?case by auto
next
  case (Cons x xs)
  show ?case
  proof (cases "f x")
    case (Inl e)
    then show ?thesis by (auto simp: list_all2_Cons1)
  next
    case (Inr y)
    then show ?thesis
      by (auto simp: list_all2_Cons1 Cons.IH [symmetric] split: sum.splits)
  qed
qed

lemma keys_distinct_Nil [simp, hash_map_simps]: "keys_distinct []"
  by (simp add: keys_distinct_def)

lemma keys_distinct_update [hash_map_simps]:
  "keys_distinct m \<Longrightarrow> keys_distinct (AList.update k v m)"
  by (simp add: keys_distinct_def distinct_update)

lemma map_of_update_eq [simp, hash_map_simps]:
  "map_of (AList.update k v m) k' = (if k' = k then Some v else map_of m k')"
  by (simp add: update_conv')

lemma length_update [hash_map_simps]:
  "length (AList.update k v m) = (if map_of m k = None then Suc (length m) else length m)"
  by (induction m) auto

lemma length_update_le [hash_map_simps]: "length (AList.update k v m) \<le> Suc (length m)"
  by (simp add: length_update)

lemma update_single_key [hash_map_simps]:
  "AList.update k v [(k, w)] = [(k, v)]"
  by simp

lemma keys_update [hash_map_simps]:
  "fst ` set (AList.update k v m) = insert k (fst ` set m)"
  by (simp add: dom_update)

lemma map_of_None_keys: "map_of m k = None \<longleftrightarrow> k \<notin> fst ` set m"
  by (simp add: map_of_eq_None_iff)

text \<open>
  Values of a hash map built by inserting distinct keys one after the other, in the
  order of insertion (used for the rows that \<open>insert_values\<close> assembles).
\<close>

lemma update_new_append [hash_map_simps]:
  "map_of m k = None \<Longrightarrow> AList.update k v m = m @ [(k, v)]"
  by (induction m) (auto split: if_splits)

lemma map_snd_update_new [hash_map_simps]:
  "map_of m k = None \<Longrightarrow> map snd (AList.update k v m) = map snd m @ [v]"
  by (induction m) (auto split: if_splits)

section \<open>Casts\<close>

lemma unat_len_u64 [hash_map_simps]:
  "length s < 2 ^ 64 \<Longrightarrow> unat (len_u64 s) = length s"
  by (simp add: len_u64_def unat_of_nat)

text \<open>\<open>(s.len() as u64) <= n\<close> compares the true length as long as the cast is lossless.\<close>

lemma len_u64_le_iff [hash_map_simps]:
  "length s < 2 ^ 64 \<Longrightarrow> (len_u64 s \<le> n) = (length s \<le> unat n)"
  by (simp add: word_le_nat_alt unat_len_u64)

end
