(* ===== verification/SqlAst.thy ===== *)
theory SqlAst
  imports Prelude
begin

text \<open>
  The part of the \<open>sqlparser::ast\<close> types that the engine consumes: literal values,
  declared column types, column options, and the statement shapes that
  \<open>src/src/executor.rs\<close> matches on. The parser itself is an external library and is
  not modelled; these datatypes carry exactly the constructors the sources match,
  with one catch-all constructor where the sources have a wildcard arm. Unsigned
  64-bit sizes of the AST (\<open>u64\<close>) are words. Constructor names follow the Rust
  variants; the \<open>DataType\<close> variants carry the prefix \<open>DT_\<close>, the
  \<open>ExactNumberInfo\<close> variant \<open>None\<close> is \<open>ENI_None\<close>, and the column options carry
  the prefix \<open>CO_\<close>, so that they do not clash with each other or with HOL.
\<close>

section \<open>Literal values (\<open>sqlparser::ast::Value\<close>)\<close>

datatype (plugins only: code size extraction) sql_value =
    Number string bool
  | SingleQuotedString string
  | DollarQuotedString string "string option"
  | EscapedStringLiteral string
  | SingleQuotedByteStringLiteral string
  | DoubleQuotedByteStringLiteral string
  | RawStringLiteral string
  | NationalStringLiteral string
  | HexStringLiteral string
  | DoubleQuotedString string
  | Boolean bool
  | Null
  | Placeholder string
  | UnQuotedString string

section \<open>Declared types (\<open>sqlparser::ast::DataType\<close>)\<close>

datatype char_length_units = Characters | Octets

datatype character_length =
    IntegerLength u64 "char_length_units option"
  | Max

datatype exact_number_info =
    ENI_None
  | Precision u64
  | PrecisionAndScale u64 u64

datatype timezone_info = NoTimeZone | Tz | WithTimeZone | WithoutTimeZone

datatype (plugins only: code size extraction) data_type =
    DT_Character "character_length option"
  | DT_Char "character_length option"
  | DT_CharacterVarying "character_length option"
  | DT_CharVarying "character_length option"
  | DT_Varchar "character_length option"
  | DT_Nvarchar "u64 option"
  | DT_Uuid
  | DT_CharacterLargeObject "u64 option"
  | DT_CharLargeObject "u64 option"
  | DT_Clob "u64 option"
  | DT_Binary "u64 option"
  | DT_Varbinary "u64 option"
  | DT_Blob "u64 option"
  | DT_Bytes "u64 option"
  | DT_Numeric exact_number_info
  | DT_Decimal exact_number_info
  | DT_BigNumeric exact_number_info
  | DT_BigDecimal exact_number_info
  | DT_Dec exact_number_info
  | DT_Float "u64 option"
  | DT_TinyInt "u64 option"
  | DT_UnsignedTinyInt "u64 option"
  | DT_Int2 "u64 option"
  | DT_UnsignedInt2 "u64 option"
  | DT_SmallInt "u64 option"
  | DT_UnsignedSmallInt "u64 option"
  | DT_MediumInt "u64 option"
  | DT_UnsignedMediumInt "u64 option"
  | DT_Int "u64 option"
  | DT_Int4 "u64 option"
  | DT_Int64
  | DT_Integer "u64 option"
  | DT_UnsignedInt "u64 option"
  | DT_UnsignedInt4 "u64 option"
  | DT_UnsignedInteger "u64 option"
  | DT_BigInt "u64 option"
  | DT_UnsignedBigInt "u64 option"
  | DT_Int8 "u64 option"
  | DT_UnsignedInt8 "u64 option"
  | DT_Float4
  | DT_Float64
  | DT_Real
  | DT_Float8
  | DT_Double
  | DT_DoublePrecision
  | DT_Bool
  | DT_Boolean
  | DT_Date
  | DT_Time "u64 option" timezone_info
  | DT_Datetime "u64 option"
  | DT_Timestamp "u64 option" timezone_info
  | DT_JSON
  | DT_JSONB
  | DT_Text
  | DT_String "u64 option"
  | DT_Bytea
  | DT_Enum "string list"
  | DT_Set "string list"
  | DT_Other string

section \<open>Expressions, column options and statements\<close>

text \<open>
  The engine distinguishes only a literal (\<open>Expr::Value\<close>) from any other
  expression; \<open>OtherExpr\<close> stands for every other variant, with its SQL text.
\<close>

datatype expr = Value sql_value | OtherExpr string

datatype referential_action = Restrict | Cascade | SetNull | NoAction | SetDefault

datatype token = Word string | OtherToken string

text \<open>An \<open>ObjectName\<close> is the list of its identifiers (\<open>schema.table\<close> has two).\<close>

type_synonym object_name = "string list"

datatype column_option =
    CO_Null
  | CO_NotNull
  | CO_Default expr
  | CO_Unique bool
  | CO_ForeignKey object_name "string list" "referential_action option"
      "referential_action option"
  | CO_OnUpdate expr
  | CO_DialectSpecific "token list"
  | CO_Other string

record column_def =
  col_name :: string
  col_data_type :: data_type
  col_options :: "column_option list"

datatype table_factor = Table object_name | OtherFactor string

datatype select_item = Wildcard | UnnamedExpr expr | OtherItem string

text \<open>A \<open>SELECT\<close>: its projection and its \<open>FROM\<close> list (joins are not read).\<close>

record select =
  projection :: "select_item list"
  from_list :: "table_factor list"

datatype set_expr =
    Values "expr list list"
  | Select select
  | OtherSetExpr string

datatype statement =
    CreateTable object_name "column_def list"
  | Insert object_name "string list" "set_expr option"
  | Query set_expr
  | OtherStatement string

end
