(* ===== verification/RustNum.thy ===== *)
theory RustNum
  imports Prelude
begin

text \<open>
  The Rust standard-library parsers that \<open>src/src/validators.rs\<close> calls on the text
  of a numeric literal: \<open>str::parse::<u64>\<close>, \<open>str::parse::<i64>\<close> and
  \<open>str::parse::<f64>\<close>. They are library code, so they are modelled from their
  documented grammar (\<open>core::num\<close>): an integer is an optional sign followed by at
  least one ASCII digit, with overflow an error; a float is an optional sign followed
  by \<open>inf\<close>, \<open>infinity\<close>, \<open>nan\<close> (any case) or a decimal mantissa with an
  optional exponent. A signed 64-bit result is a \<^typ>\<open>u64\<close> word read with
  \<^const>\<open>sint\<close>.
\<close>

section \<open>Digits\<close>

definition is_digit :: "char \<Rightarrow> bool" where
  "is_digit c \<longleftrightarrow> (48::nat) \<le> of_char c \<and> of_char c \<le> (57::nat)"

definition digit_val :: "char \<Rightarrow> nat" where
  "digit_val c = of_char c - 48"

fun digits_acc :: "nat \<Rightarrow> string \<Rightarrow> nat option" where
  "digits_acc n [] = Some n"
| "digits_acc n (c # cs) = (if is_digit c then digits_acc (10 * n + digit_val c) cs else None)"

text \<open>The value of a non-empty string of ASCII digits; \<open>None\<close> for anything else.\<close>

definition digits_nat :: "string \<Rightarrow> nat option" where
  "digits_nat s = (if s = [] then None else digits_acc 0 s)"

section \<open>Integers\<close>

text \<open>
  \<open>u64::from_str\<close>: a leading \<open>+\<close> is dropped (a lone sign is an error), a \<open>-\<close>
  is an invalid digit, a value of \<open>2^64\<close> or more overflows.
\<close>

definition parse_u64 :: "string \<Rightarrow> u64 option" where
  "parse_u64 s =
     (case s of
        [] \<Rightarrow> None
      | c # r \<Rightarrow>
          (case digits_nat (if c = CHR ''+'' then r else s) of
             None \<Rightarrow> None
           | Some n \<Rightarrow> if n < 2 ^ 64 then Some (of_nat n) else None))"

text \<open>
  \<open>i64::from_str\<close>: an optional \<open>+\<close> or \<open>-\<close>; the value must lie in
  \<open>[-2^63, 2^63)\<close>. The result is the two's-complement word.
\<close>

definition parse_i64 :: "string \<Rightarrow> u64 option" where
  "parse_i64 s =
     (case s of
        [] \<Rightarrow> None
      | c # r \<Rightarrow>
          (if c = CHR ''-'' then
             (case digits_nat r of
                None \<Rightarrow> None
              | Some n \<Rightarrow> if n \<le> 2 ^ 63 then Some (word_of_int (- int n)) else None)
           else
             (case digits_nat (if c = CHR ''+'' then r else s) of
                None \<Rightarrow> None
              | Some n \<Rightarrow> if n < 2 ^ 63 then Some (of_nat n) else None)))"

section \<open>Floats\<close>

definition ascii_lower :: "char \<Rightarrow> char" where
  "ascii_lower c = (if (65::nat) \<le> of_char c \<and> of_char c \<le> (90::nat) then char_of (of_char c + (32::nat)) else c)"

definition strip_sign :: "string \<Rightarrow> string" where
  "strip_sign s = (case s of c # r \<Rightarrow> if c = CHR ''+'' \<or> c = CHR ''-'' then r else s | [] \<Rightarrow> [])"

definition is_exp_char :: "char \<Rightarrow> bool" where
  "is_exp_char c \<longleftrightarrow> c = CHR ''e'' \<or> c = CHR ''E''"

text \<open>\<open>Digit+ | Digit+ '.' Digit* | Digit* '.' Digit+\<close>\<close>

definition mantissa_ok :: "string \<Rightarrow> bool" where
  "mantissa_ok m =
     (let ip = takeWhile is_digit m; rest = dropWhile is_digit m in
      (rest = [] \<and> ip \<noteq> []) \<or>
      (rest \<noteq> [] \<and> hd rest = CHR ''.'' \<and> list_all is_digit (tl rest) \<and> (ip \<noteq> [] \<or> tl rest \<noteq> [])))"

text \<open>\<open>Exp ::= ('e' | 'E') Sign? Digit+\<close>, given what follows the \<open>e\<close>.\<close>

definition exponent_ok :: "string \<Rightarrow> bool" where
  "exponent_ok e = (strip_sign e \<noteq> [] \<and> list_all is_digit (strip_sign e))"

definition decimal_ok :: "string \<Rightarrow> bool" where
  "decimal_ok s =
     (let m = takeWhile (\<lambda>c. \<not> is_exp_char c) s; e = dropWhile (\<lambda>c. \<not> is_exp_char c) s in
      mantissa_ok m \<and> (e = [] \<or> exponent_ok (tl e)))"

text \<open>
  \<open>f64::from_str(s).is_ok()\<close>. An out-of-range decimal is not an error (it rounds
  to infinity), so success depends on the syntax alone.
\<close>

definition parse_f64_ok :: "string \<Rightarrow> bool" where
  "parse_f64_ok s =
     (let b = strip_sign s in
      map ascii_lower b \<in> {''inf'', ''infinity'', ''nan''} \<or> decimal_ok b)"

section \<open>Decimal rendering\<close>

text \<open>
  \<open>format!("{:0w$}", n)\<close>: the last \<open>w\<close> decimal digits of \<open>n\<close>, zero-padded. It
  describes inputs in the statements of theorems (canonical dates) and is not a
  translation of source code.
\<close>

fun dec_pad :: "nat \<Rightarrow> nat \<Rightarrow> string" where
  "dec_pad 0 n = []"
| "dec_pad (Suc w) n = dec_pad w (n div 10) @ [char_of (48 + n mod 10)]"

section \<open>Lemmas\<close>

lemma digits_acc_Some_all_digits:
  "digits_acc n s = Some v \<Longrightarrow> list_all is_digit s"
  by (induction n s rule: digits_acc.induct) (auto split: if_splits)

lemma digits_acc_all_digits:
  "list_all is_digit s \<Longrightarrow> \<exists>v. digits_acc n s = Some v"
  by (induction n s rule: digits_acc.induct) auto

lemma digits_nat_Some_iff:
  "(\<exists>v. digits_nat s = Some v) \<longleftrightarrow> s \<noteq> [] \<and> list_all is_digit s"
  by (auto simp: digits_nat_def dest: digits_acc_Some_all_digits digits_acc_all_digits)

lemma digits_acc_ge: "digits_acc n s = Some v \<Longrightarrow> n * 10 ^ length s \<le> v"
proof (induction n s arbitrary: v rule: digits_acc.induct)
  case (1 n)
  then show ?case by simp
next
  case (2 n c cs)
  then have "(10 * n + digit_val c) * 10 ^ length cs \<le> v"
    by (simp split: if_splits)
  moreover have "n * 10 ^ length (c # cs) \<le> (10 * n + digit_val c) * 10 ^ length cs"
    by (simp add: algebra_simps)
  ultimately show ?case by linarith
qed

text \<open>A string of \<open>k + 1\<close> digits that starts with a non-zero digit is at least \<open>10^k\<close>.\<close>

lemma digits_nat_lower:
  assumes "digits_nat (c # cs) = Some v" and "c \<noteq> CHR ''0''"
  shows "10 ^ length cs \<le> v"
proof -
  from assms(1) have d: "is_digit c" and r: "digits_acc (digit_val c) cs = Some v"
    by (simp_all add: digits_nat_def split: if_splits)
  have "of_char c \<noteq> (48::nat)"
  proof
    assume "of_char c = (48::nat)"
    moreover have "of_char CHR ''0'' = (48::nat)" by simp
    ultimately have "c = CHR ''0''" by (metis char_of_char)
    with assms(2) show False by simp
  qed
  with d have "48 < (of_char c :: nat)"
    by (simp add: is_digit_def)
  then have "1 \<le> digit_val c"
    by (simp add: digit_val_def)
  moreover from r have "digit_val c * 10 ^ length cs \<le> v"
    by (rule digits_acc_ge)
  ultimately show ?thesis
    by (metis dual_order.trans mult_1 mult_le_mono1)
qed


subsection \<open>Decimal rendering and scanning\<close>

lemma is_digit_char_of: "(k::nat) < 10 \<Longrightarrow> is_digit (char_of (48 + k))"
  by (simp add: is_digit_def of_char_of)

lemma digit_val_char_of: "(k::nat) < 10 \<Longrightarrow> digit_val (char_of (48 + k)) = k"
  by (simp add: digit_val_def of_char_of)

lemma digits_acc_snoc:
  "digits_acc k (xs @ [c]) =
     (if is_digit c then map_option (\<lambda>v. 10 * v + digit_val c) (digits_acc k xs) else
      (case digits_acc k xs of None \<Rightarrow> None | Some _ \<Rightarrow> None))"
  by (induction k xs rule: digits_acc.induct) auto

lemma digits_acc_dec_pad: "digits_acc k (dec_pad w n) = Some (k * 10 ^ w + n mod 10 ^ w)"
proof (induction w arbitrary: n)
  case 0
  then show ?case by simp
next
  case (Suc w)
  have "10 * (n div 10 mod 10 ^ w) + n mod 10 = n mod (10 * 10 ^ w)"
    by (simp add: mod_mult2_eq)
  with Suc show ?case
    by (simp add: digits_acc_snoc is_digit_char_of digit_val_char_of algebra_simps)
qed

lemma length_dec_pad [simp]: "length (dec_pad w n) = w"
  by (induction w arbitrary: n) auto

lemma dec_pad_digits: "list_all is_digit (dec_pad w n)"
  by (induction w arbitrary: n) (auto simp: is_digit_char_of)

lemma digits_nat_dec_pad: "0 < w \<Longrightarrow> n < 10 ^ w \<Longrightarrow> digits_nat (dec_pad w n) = Some n"
proof -
  assume "0 < w" and "n < 10 ^ w"
  moreover have "dec_pad w n \<noteq> []"
    using \<open>0 < w\<close> length_dec_pad [of w n] by (metis length_0_conv less_irrefl)
  ultimately show ?thesis by (simp add: digits_nat_def digits_acc_dec_pad)
qed


lemma dec_pad_numeral:
  "dec_pad (numeral k) n = dec_pad (pred_numeral k) (n div 10) @ [char_of (48 + n mod 10)]"
  by (simp only: numeral_eq_Suc dec_pad.simps)

text \<open>Evaluation of the rendering on numerals, for concrete inputs.\<close>

lemma char_of_eq_iff: "char_of (n::nat) = c \<longleftrightarrow> n mod 256 = of_char c"
proof
  assume "char_of n = c"
  then show "n mod 256 = of_char c" by (auto simp: of_char_of)
next
  assume "n mod 256 = of_char c"
  then have "char_of (n mod 256) = c" by simp
  moreover have "char_of (take_bit 8 n) = char_of n" by (rule char_of_take_bit_eq) simp
  ultimately show "char_of n = c" by (simp add: take_bit_eq_mod)
qed

end
