(* ===== verification/Chrono.thy ===== *)
theory Chrono
  imports RustNum
begin

text \<open>
  The part of the \<open>chrono\<close> crate that \<open>validate_value_for_date_string_general\<close>
  (\<open>src/src/validators.rs\<close>) calls: \<open>NaiveDate::parse_from_str\<close>,
  \<open>NaiveTime::parse_from_str\<close> and \<open>NaiveDateTime::parse_from_str\<close>. Each one
  turns its format string into items (\<open>StrftimeItems\<close>), runs the items over the
  input while filling a \<open>Parsed\<close> record, requires the whole input to be consumed,
  and then builds the date or time from the record, checking the calendar.
  chrono is library code, so this is modelled from its documentation and behaviour:
  \<^item> format specifiers \<open>%Y %m %d %H %M %S\<close>, \<open>%3f %6f %9f\<close> (fraction digits with no
    dot) and \<open>%%\<close>; any other specifier after \<open>%\<close> (for example \<open>%2f\<close>) is an
    \<open>Item::Error\<close>, and parsing with an error item fails (\<open>BAD_FORMAT\<close>). chrono has
    many more specifiers; the sources use none of them, so they are not modelled;
  \<^item> a numeric item skips leading ASCII whitespace, then reads one to \<open>width\<close>
    digits (4 for an unsigned year, 2 for the others); a year with an explicit sign
    reads any number of digits;
  \<^item> a whitespace character of the format skips any run of whitespace of the input;
    any other character must match literally;
  \<^item> a date needs year, month and day forming a valid proleptic Gregorian date with
    the year in chrono's range \<open>[-262144, 262143]\<close>; a time needs hour < 24 and
    minute < 60, with an optional second up to 60 (a leap second).
  Non-ASCII Unicode whitespace is not modelled.
\<close>

section \<open>Format items\<close>

datatype fmt_item =
    FLit char | FSpace | FYear | FMonth | FDay | FHour | FMinute | FSecond
  | FNanoNoDot nat | FError

definition is_ws :: "char \<Rightarrow> bool" where
  "is_ws c \<longleftrightarrow> of_char c \<in> {9, 10, 11, 12, 13, 32::nat}"

definition spec_item :: "char \<Rightarrow> fmt_item" where
  "spec_item d =
     (if d = CHR ''Y'' then FYear else if d = CHR ''m'' then FMonth
      else if d = CHR ''d'' then FDay else if d = CHR ''H'' then FHour
      else if d = CHR ''M'' then FMinute else if d = CHR ''S'' then FSecond
      else if d = CHR ''%'' then FLit CHR ''%'' else FError)"

definition frac_digits :: "char \<Rightarrow> nat option" where
  "frac_digits d =
     (if d = CHR ''3'' then Some 3 else if d = CHR ''6'' then Some 6
      else if d = CHR ''9'' then Some 9 else None)"

fun strftime_items :: "string \<Rightarrow> fmt_item list" where
  "strftime_items [] = []"
| "strftime_items [c] = (if c = CHR ''%'' then [FError] else if is_ws c then [FSpace] else [FLit c])"
| "strftime_items (c # d # cs) =
     (if c = CHR ''%'' then
        (case frac_digits d of
           Some n \<Rightarrow>
             (case cs of
                e # es \<Rightarrow> if e = CHR ''f'' then FNanoNoDot n # strftime_items es
                          else FError # strftime_items es
              | [] \<Rightarrow> [FError])
         | None \<Rightarrow> spec_item d # strftime_items cs)
      else if is_ws c then FSpace # strftime_items (d # cs)
      else FLit c # strftime_items (d # cs))"

section \<open>The \<open>Parsed\<close> record\<close>

record parsed =
  p_year :: "int option"
  p_month :: "int option"
  p_day :: "int option"
  p_hour :: "int option"
  p_minute :: "int option"
  p_second :: "int option"
  p_nanosecond :: "int option"

definition empty_parsed :: parsed where
  "empty_parsed = \<lparr>p_year = None, p_month = None, p_day = None, p_hour = None,
     p_minute = None, p_second = None, p_nanosecond = None\<rparr>"

text \<open>\<open>set_if_consistent\<close>: a field set twice must get the same value.\<close>

definition set_consistent :: "int option \<Rightarrow> int \<Rightarrow> int option option" where
  "set_consistent old v = (case old of None \<Rightarrow> Some (Some v) | Some w \<Rightarrow> if w = v then Some (Some v) else None)"

definition set_field :: "fmt_item \<Rightarrow> int \<Rightarrow> parsed \<Rightarrow> parsed option" where
  "set_field it v p =
     (case it of
        FYear \<Rightarrow> map_option (\<lambda>x. p\<lparr>p_year := x\<rparr>) (set_consistent (p_year p) v)
      | FMonth \<Rightarrow> map_option (\<lambda>x. p\<lparr>p_month := x\<rparr>) (set_consistent (p_month p) v)
      | FDay \<Rightarrow> map_option (\<lambda>x. p\<lparr>p_day := x\<rparr>) (set_consistent (p_day p) v)
      | FHour \<Rightarrow> map_option (\<lambda>x. p\<lparr>p_hour := x\<rparr>) (set_consistent (p_hour p) v)
      | FMinute \<Rightarrow> map_option (\<lambda>x. p\<lparr>p_minute := x\<rparr>) (set_consistent (p_minute p) v)
      | FSecond \<Rightarrow> map_option (\<lambda>x. p\<lparr>p_second := x\<rparr>) (set_consistent (p_second p) v)
      | FNanoNoDot _ \<Rightarrow> map_option (\<lambda>x. p\<lparr>p_nanosecond := x\<rparr>) (set_consistent (p_nanosecond p) v)
      | _ \<Rightarrow> None)"

section \<open>Scanning\<close>

text \<open>\<open>scan::number(s, 1, max)\<close>: between one and \<open>max\<close> ASCII digits.\<close>

definition scan_number :: "nat \<Rightarrow> string \<Rightarrow> (int \<times> string) option" where
  "scan_number w s =
     (let ds = take w (takeWhile is_digit s) in
      case digits_nat ds of
        None \<Rightarrow> None
      | Some n \<Rightarrow> Some (int n, drop (length ds) s))"

text \<open>A year: an explicit sign lifts the width limit.\<close>

definition scan_year :: "string \<Rightarrow> (int \<times> string) option" where
  "scan_year s =
     (case s of
        c # r \<Rightarrow>
          if c = CHR ''-'' then map_option (\<lambda>(v, t). (- v, t)) (scan_number (length r) r)
          else if c = CHR ''+'' then scan_number (length r) r
          else scan_number 4 s
      | [] \<Rightarrow> None)"

text \<open>\<open>scan::nanosecond_fixed(s, n)\<close>: exactly \<open>n\<close> digits, scaled to nanoseconds.\<close>

definition scan_nano :: "nat \<Rightarrow> string \<Rightarrow> (int \<times> string) option" where
  "scan_nano n s =
     (if length s < n then None
      else case digits_nat (take n s) of
        None \<Rightarrow> None
      | Some v \<Rightarrow> Some (int v * 10 ^ (9 - n), drop n s))"

definition scan_item :: "fmt_item \<Rightarrow> string \<Rightarrow> (int \<times> string) option" where
  "scan_item it s =
     (case it of
        FYear \<Rightarrow> scan_year (dropWhile is_ws s)
      | FNanoNoDot n \<Rightarrow> scan_nano n s
      | _ \<Rightarrow> scan_number 2 (dropWhile is_ws s))"

text \<open>\<open>format::parse\<close>: run the items over the input; the input must be used up.\<close>

fun parse_items :: "fmt_item list \<Rightarrow> string \<Rightarrow> parsed \<Rightarrow> parsed option" where
  "parse_items [] s p = (if s = [] then Some p else None)"
| "parse_items (FLit c # its) s p =
     (case s of d # r \<Rightarrow> if d = c then parse_items its r p else None | [] \<Rightarrow> None)"
| "parse_items (FSpace # its) s p = parse_items its (dropWhile is_ws s) p"
| "parse_items (FError # its) s p = None"
| "parse_items (it # its) s p =
     (case scan_item it s of
        None \<Rightarrow> None
      | Some (v, r) \<Rightarrow> (case set_field it v p of None \<Rightarrow> None | Some p' \<Rightarrow> parse_items its r p'))"

section \<open>Calendar checks\<close>

definition is_leap :: "int \<Rightarrow> bool" where
  "is_leap y \<longleftrightarrow> y mod 4 = 0 \<and> (y mod 100 \<noteq> 0 \<or> y mod 400 = 0)"

definition days_in_month :: "int \<Rightarrow> int \<Rightarrow> int" where
  "days_in_month y m =
     (if m = 2 then (if is_leap y then 29 else 28)
      else if m \<in> {4, 6, 9, 11} then 30 else 31)"

definition valid_ymd :: "int \<Rightarrow> int \<Rightarrow> int \<Rightarrow> bool" where
  "valid_ymd y m d \<longleftrightarrow>
     -262144 \<le> y \<and> y \<le> 262143 \<and> 1 \<le> m \<and> m \<le> 12 \<and> 1 \<le> d \<and> d \<le> days_in_month y m"

definition date_of_parsed :: "parsed \<Rightarrow> bool" where
  "date_of_parsed p =
     (case (p_year p, p_month p, p_day p) of
        (Some y, Some m, Some d) \<Rightarrow> valid_ymd y m d
      | _ \<Rightarrow> False)"

definition time_of_parsed :: "parsed \<Rightarrow> bool" where
  "time_of_parsed p =
     (case (p_hour p, p_minute p) of
        (Some h, Some mi) \<Rightarrow>
          0 \<le> h \<and> h < 24 \<and> 0 \<le> mi \<and> mi < 60 \<and>
          (case p_second p of None \<Rightarrow> True | Some sec \<Rightarrow> 0 \<le> sec \<and> sec \<le> 60)
      | _ \<Rightarrow> False)"

section \<open>The three entry points\<close>

definition run_format :: "string \<Rightarrow> string \<Rightarrow> parsed option" where
  "run_format s fmt = parse_items (strftime_items fmt) s empty_parsed"

definition naive_date_parse_ok :: "string \<Rightarrow> string \<Rightarrow> bool" where
  "naive_date_parse_ok s fmt = (case run_format s fmt of None \<Rightarrow> False | Some p \<Rightarrow> date_of_parsed p)"

definition naive_time_parse_ok :: "string \<Rightarrow> string \<Rightarrow> bool" where
  "naive_time_parse_ok s fmt = (case run_format s fmt of None \<Rightarrow> False | Some p \<Rightarrow> time_of_parsed p)"

definition naive_datetime_parse_ok :: "string \<Rightarrow> string \<Rightarrow> bool" where
  "naive_datetime_parse_ok s fmt =
     (case run_format s fmt of None \<Rightarrow> False | Some p \<Rightarrow> date_of_parsed p \<and> time_of_parsed p)"

section \<open>Lemmas\<close>

text \<open>An error item anywhere in the format makes every parse fail.\<close>

lemma parse_items_FError:
  "FError \<in> set its \<Longrightarrow> parse_items its s p = None"
  by (induction its s p rule: parse_items.induct)
     (auto split: option.splits list.splits if_splits prod.splits)

lemma run_format_FError:
  "FError \<in> set (strftime_items fmt) \<Longrightarrow> run_format s fmt = None"
  by (simp add: run_format_def parse_items_FError)


text \<open>Scanning the zero-padded decimal rendering of a number gives the number back.\<close>

lemma not_ws_digit: "is_digit c \<Longrightarrow> \<not> is_ws c"
  by (auto simp: is_digit_def is_ws_def)

lemma dec_pad_Suc_hd: "\<exists>k r. k < (10::nat) \<and> dec_pad (Suc w) n = char_of (48 + k) # r"
proof (induction w arbitrary: n)
  case 0
  show ?case by (rule exI [of _ "n mod 10"], rule exI [of _ "[]"]) simp
next
  case (Suc w)
  then obtain k r where "k < (10::nat)" "dec_pad (Suc w) (n div 10) = char_of (48 + k) # r" by blast
  then show ?case by auto
qed

lemma scan_number_dec_pad:
  assumes "0 < w" and "n < 10 ^ w" and "\<not> is_digit c"
  shows "scan_number w (dec_pad w n @ c # r) = Some (int n, c # r)"
proof -
  have tw: "takeWhile is_digit (dec_pad w n @ c # r) = dec_pad w n"
    using dec_pad_digits [of w n] assms(3) by (simp add: takeWhile_append2 list_all_iff)
  show ?thesis
    unfolding scan_number_def Let_def tw using assms(1,2) by (simp add: digits_nat_dec_pad)
qed

lemma scan_number_dec_pad_end:
  assumes "0 < w" and "n < 10 ^ w"
  shows "scan_number w (dec_pad w n) = Some (int n, [])"
proof -
  have tw: "takeWhile is_digit (dec_pad w n) = dec_pad w n"
    using dec_pad_digits [of w n] by (simp add: takeWhile_eq_all_conv list_all_iff)
  show ?thesis
    unfolding scan_number_def Let_def tw using assms by (simp add: digits_nat_dec_pad)
qed

lemma dropWhile_ws_dec_pad: "0 < w \<Longrightarrow> dropWhile is_ws (dec_pad w n @ r) = dec_pad w n @ r"
proof -
  assume "0 < w"
  then obtain k t where k: "k < (10::nat)" and h: "dec_pad w n = char_of (48 + k) # t"
    using dec_pad_Suc_hd [of "w - 1" n] by (cases w) auto
  then show ?thesis by (simp add: not_ws_digit is_digit_char_of)
qed

lemma dropWhile_ws_dec_pad_end: "0 < w \<Longrightarrow> dropWhile is_ws (dec_pad w n) = dec_pad w n"
  using dropWhile_ws_dec_pad [of w n "[]"] by simp

lemma scan_year_dec_pad:
  assumes "n < 10 ^ 4" and "\<not> is_digit c"
  shows "scan_year (dec_pad 4 n @ c # r) = Some (int n, c # r)"
proof -
  have four: "(4::nat) = Suc 3" by simp
  obtain k t where k: "k < (10::nat)" and h: "dec_pad 4 n = char_of (48 + k) # t"
    using dec_pad_Suc_hd [of 3 n] unfolding four by blast
  have "is_digit (char_of (48 + k))" using k by (rule is_digit_char_of)
  moreover have "\<not> is_digit CHR ''-''" and "\<not> is_digit CHR ''+''"
    by (simp_all add: is_digit_def)
  ultimately have "char_of (48 + k) \<noteq> CHR ''-''" and "char_of (48 + k) \<noteq> CHR ''+''"
    by auto
  then have "scan_year (dec_pad 4 n @ c # r) = scan_number 4 (dec_pad 4 n @ c # r)"
    by (simp add: scan_year_def h)
  with assms show ?thesis by (simp add: scan_number_dec_pad)
qed

end
