(* ===== verification/Json.thy ===== *)
theory Json
  imports RustNum
begin

text \<open>
  \<open>serde_json::from_str::<serde_json::Value>(s).is_ok()\<close>, which
  \<open>validate_value_for_json\<close> (\<open>src/src/validators.rs\<close>) calls. serde_json is
  library code; this is a recognizer of the JSON text it accepts, modelled from its
  parser: whitespace is space, tab, newline and carriage return; \<open>null\<close>, \<open>true\<close>,
  \<open>false\<close>; numbers \<open>-?(0|[1-9][0-9]*)(.[0-9]+)?([eE][+-]?[0-9]+)?\<close>; strings
  without raw control characters, with the escapes \<open>\" \\ \/ \b \f \n \r \t\<close> and
  \<open>\uXXXX\<close>, where a high surrogate must be followed by an escaped low surrogate and
  a lone low surrogate is an error; arrays and objects without trailing commas,
  object keys strings; nesting limited by serde_json's recursion counter (128, the
  counter may not reach 0, so at most 127 open brackets); and nothing but whitespace
  after the value. One rejection of serde_json is not modelled: a float literal
  whose magnitude overflows \<open>f64\<close> (such as \<open>1e400\<close>) is accepted here.

  The recursive descent carries fuel (one unit per call); \<open>json_ok\<close> gives it
  twice the input length plus two.
\<close>

section \<open>Lexical pieces\<close>

definition json_ws :: "char \<Rightarrow> bool" where
  "json_ws c \<longleftrightarrow> c \<in> {CHR '' '', CHR ''\<newline>'', char_of (9::nat), char_of (13::nat)}"

definition skip_ws :: "string \<Rightarrow> string" where
  "skip_ws s = dropWhile json_ws s"

definition is_hex :: "char \<Rightarrow> bool" where
  "is_hex c \<longleftrightarrow> is_digit c \<or> (97::nat) \<le> of_char c \<and> of_char c \<le> (102::nat) \<or>
                 (65::nat) \<le> of_char c \<and> of_char c \<le> (70::nat)"

definition hex_val :: "char \<Rightarrow> nat" where
  "hex_val c = (if is_digit c then digit_val c
                else if (97::nat) \<le> of_char c then of_char c - 87 else of_char c - 55)"

definition hex4 :: "string \<Rightarrow> nat option" where
  "hex4 s = (if 4 \<le> length s \<and> list_all is_hex (take 4 s)
             then Some (foldl (\<lambda>n c. 16 * n + hex_val c) 0 (take 4 s)) else None)"

definition simple_escape :: "char \<Rightarrow> bool" where
  "simple_escape e \<longleftrightarrow> e \<in> {CHR 0x22, CHR 0x5C, CHR ''/'', CHR ''b'', CHR ''f'',
                             CHR ''n'', CHR ''r'', CHR ''t''}"

text \<open>The body of a string after its opening quote; returns what follows the closing quote.\<close>

function json_str :: "string \<Rightarrow> string option" where
  "json_str [] = None"
| "json_str (c # r) =
     (if c = CHR 0x22 then Some r
      else if c = CHR 0x5C then
        (case r of
           [] \<Rightarrow> None
         | e # t \<Rightarrow>
             if simple_escape e then json_str t
             else if e = CHR ''u'' then
               (case hex4 t of
                  None \<Rightarrow> None
                | Some v \<Rightarrow>
                    if 55296 \<le> v \<and> v \<le> 56319 then
                      (case drop 4 t of
                         b # u # t2 \<Rightarrow>
                           if b = CHR 0x5C \<and> u = CHR ''u'' then
                             (case hex4 t2 of
                                Some w \<Rightarrow> if 56320 \<le> w \<and> w \<le> 57343 then json_str (drop 4 t2) else None
                              | None \<Rightarrow> None)
                           else None
                       | _ \<Rightarrow> None)
                    else if 56320 \<le> v \<and> v \<le> 57343 then None
                    else json_str (drop 4 t))
             else None)
      else if of_char c < (32::nat) then None
      else json_str r)"
  by pat_completeness auto
termination
  by (relation "measure length") (auto dest!: arg_cong [where f = length])

definition json_exp :: "string \<Rightarrow> string option" where
  "json_exp s =
     (case s of
        e # r \<Rightarrow>
          if is_exp_char e then
            (let r' = (case r of c # t \<Rightarrow> if c = CHR ''+'' \<or> c = CHR ''-'' then t else r | [] \<Rightarrow> [])
             in if takeWhile is_digit r' = [] then None else Some (dropWhile is_digit r'))
          else Some s
      | [] \<Rightarrow> Some [])"

definition json_frac :: "string \<Rightarrow> string option" where
  "json_frac s =
     (case s of
        c # r \<Rightarrow>
          if c = CHR ''.'' then
            (if takeWhile is_digit r = [] then None else json_exp (dropWhile is_digit r))
          else json_exp s
      | [] \<Rightarrow> Some [])"

definition json_number :: "string \<Rightarrow> string option" where
  "json_number s =
     (let s1 = (case s of c # r \<Rightarrow> if c = CHR ''-'' then r else s | [] \<Rightarrow> []) in
      case s1 of
        [] \<Rightarrow> None
      | c # r \<Rightarrow>
          if c = CHR ''0'' then (if r \<noteq> [] \<and> is_digit (hd r) then None else json_frac r)
          else if is_digit c then json_frac (dropWhile is_digit r)
          else None)"

definition json_keyword :: "string \<Rightarrow> string \<Rightarrow> string option" where
  "json_keyword k s = (if take (length k) s = k then Some (drop (length k) s) else None)"

section \<open>Values, arrays and objects\<close>

text \<open>
  \<open>fuel\<close>, then the remaining recursion depth \<open>d\<close> (serde_json's
  \<open>remaining_depth\<close>), then the input; the result is the input after the value.
\<close>

fun json_value :: "nat \<Rightarrow> nat \<Rightarrow> string \<Rightarrow> string option"
and json_elements :: "nat \<Rightarrow> nat \<Rightarrow> string \<Rightarrow> string option"
and json_members :: "nat \<Rightarrow> nat \<Rightarrow> string \<Rightarrow> string option" where
  "json_value 0 d s = None"
| "json_value (Suc f) d s =
     (case skip_ws s of
        [] \<Rightarrow> None
      | c # r \<Rightarrow>
          if c = CHR ''n'' then json_keyword ''ull'' r
          else if c = CHR ''t'' then json_keyword ''rue'' r
          else if c = CHR ''f'' then json_keyword ''alse'' r
          else if c = CHR 0x22 then json_str r
          else if c = CHR ''-'' \<or> is_digit c then json_number (c # r)
          else if c = CHR ''['' then
            (if d \<le> 1 then None
             else case skip_ws r of
                    b # t \<Rightarrow> if b = CHR '']'' then Some t else json_elements f (d - 1) (b # t)
                  | [] \<Rightarrow> None)
          else if c = CHR ''{'' then
            (if d \<le> 1 then None
             else case skip_ws r of
                    b # t \<Rightarrow> if b = CHR ''}'' then Some t else json_members f (d - 1) (b # t)
                  | [] \<Rightarrow> None)
          else None)"
| "json_elements 0 d s = None"
| "json_elements (Suc f) d s =
     (case json_value f d s of
        None \<Rightarrow> None
      | Some r \<Rightarrow>
          (case skip_ws r of
             b # t \<Rightarrow>
               if b = CHR '','' then
                 (case skip_ws t of
                    e # u \<Rightarrow> if e = CHR '']'' then None else json_elements f d (e # u)
                  | [] \<Rightarrow> None)
               else if b = CHR '']'' then Some t else None
           | [] \<Rightarrow> None))"
| "json_members 0 d s = None"
| "json_members (Suc f) d s =
     (case s of
        q # r \<Rightarrow>
          if q \<noteq> CHR 0x22 then None
          else
            (case json_str r of
               None \<Rightarrow> None
             | Some r1 \<Rightarrow>
                 (case skip_ws r1 of
                    col # r2 \<Rightarrow>
                      if col \<noteq> CHR '':'' then None
                      else
                        (case json_value f d r2 of
                           None \<Rightarrow> None
                         | Some r3 \<Rightarrow>
                             (case skip_ws r3 of
                                b # t \<Rightarrow>
                                  if b = CHR '','' then json_members f d (skip_ws t)
                                  else if b = CHR ''}'' then Some t else None
                              | [] \<Rightarrow> None))
                  | [] \<Rightarrow> None))
      | [] \<Rightarrow> None)"

text \<open>A whole document: one value, then only whitespace.\<close>

definition json_ok :: "string \<Rightarrow> bool" where
  "json_ok s = (case json_value (2 * length s + 2) 128 s of
                  None \<Rightarrow> False
                | Some r \<Rightarrow> skip_ws r = [])"


section \<open>Fuel\<close>

text \<open>
  Every successful call consumes input, so two units of fuel per character are
  enough: the recogniser's answer does not change once the fuel exceeds twice the
  length of the input, which is why \<^const>\<open>json_ok\<close> runs on \<open>2 * length s + 2\<close>.
\<close>

lemma length_skip_ws: "length (skip_ws s) \<le> length s"
  by (simp add: skip_ws_def length_dropWhile_le)

lemma length_drop_eq_le: "drop n t = xs \<Longrightarrow> length xs \<le> length t"
  by auto

text \<open>A string body either ends at once or continues on a strictly shorter suffix.\<close>

lemma json_str_step:
  assumes "json_str (c # r0) = Some r"
  shows "r = r0 \<or> (\<exists>ys. length ys < Suc (length r0) \<and> json_str ys = Some r)"
proof (cases "c = CHR 0x22 \<or> c \<noteq> CHR 0x5C")
  case True
  with assms show ?thesis by (auto split: if_splits)
next
  case False
  with assms obtain e t where r0: "r0 = e # t"
    by (cases r0) auto
  with assms False show ?thesis
    by (auto split: if_splits option.splits list.splits dest!: length_drop_eq_le)
qed

lemma json_str_shorter: "json_str s = Some r \<Longrightarrow> length r < length s"
proof (induction s arbitrary: r rule: length_induct)
  case (1 s)
  show ?case
  proof (cases s)
    case Nil
    with "1.prems" show ?thesis by simp
  next
    case (Cons c r0)
    with "1.prems" json_str_step [of c r0 r] "1.IH" show ?thesis
      by (auto dest: less_trans)
  qed
qed

lemma json_exp_le: "json_exp s = Some r \<Longrightarrow> length r \<le> length s"
  by (auto simp: json_exp_def Let_def split: list.splits if_splits
      intro: order_trans [OF length_dropWhile_le])

lemma json_frac_le: "json_frac s = Some r \<Longrightarrow> length r \<le> length s"
  by (auto simp: json_frac_def split: list.splits if_splits
      dest!: json_exp_le intro: order_trans [OF _ length_dropWhile_le] le_SucI)

lemma le_dropWhile_less: "length r \<le> length (dropWhile P xs) \<Longrightarrow> length r < Suc (length xs)"
  by (meson le_imp_less_Suc length_dropWhile_le order_trans)

lemma json_number_shorter: "json_number s = Some r \<Longrightarrow> length r < length s"
  by (auto simp: json_number_def Let_def split: list.splits if_splits dest!: json_frac_le
      intro: le_dropWhile_less less_SucI)

lemma json_keyword_le: "json_keyword k s = Some r \<Longrightarrow> length r \<le> length s"
  by (auto simp: json_keyword_def split: if_splits)


lemma skip_ws_Cons_shorter: "skip_ws s = c # r \<Longrightarrow> length r < length s"
  using length_skip_ws [of s] by simp

lemma less_skip_ws: "length r < length (skip_ws t) \<Longrightarrow> length r < length t"
  using length_skip_ws [of t] by simp

lemma json_shorter:
  "(json_value f d s = Some r \<longrightarrow> length r < length s) \<and>
   (json_elements f d s = Some r \<longrightarrow> length r < length s) \<and>
   (json_members f d s = Some r \<longrightarrow> length r < length s)"
proof (induction f arbitrary: d s r)
  case 0
  then show ?case by simp
next
  case (Suc f)
  note IH = Suc.IH [THEN conjunct1, rule_format] Suc.IH [THEN conjunct2, THEN conjunct1, rule_format]
            Suc.IH [THEN conjunct2, THEN conjunct2, rule_format]
  show ?case
  proof (intro conjI impI)
    assume "json_value (Suc f) d s = Some r"
    then show "length r < length s"
      by (auto split: list.splits if_splits dest!: skip_ws_Cons_shorter json_str_shorter
          json_number_shorter json_keyword_le IH)
  next
    assume "json_elements (Suc f) d s = Some r"
    then show "length r < length s"
      by (auto split: list.splits if_splits option.splits dest!: skip_ws_Cons_shorter IH)
  next
    assume "json_members (Suc f) d s = Some r"
    then show "length r < length s"
      by (auto split: list.splits if_splits option.splits dest!: skip_ws_Cons_shorter json_str_shorter IH
          less_skip_ws)
  qed
qed


lemma json_fuel_step:
  "(2 * length s < f \<longrightarrow> json_value (Suc f) d s = json_value f d s) \<and>
   (2 * length s + 1 < f \<longrightarrow> json_elements (Suc f) d s = json_elements f d s) \<and>
   (2 * length s + 1 < f \<longrightarrow> json_members (Suc f) d s = json_members f d s)"
proof (induction f arbitrary: d s)
  case 0
  then show ?case by simp
next
  case (Suc f)
  have IV: "json_value (Suc f) d' s' = json_value f d' s'" if "2 * length s' < f" for d' s'
    using Suc.IH that by blast
  have IE: "json_elements (Suc f) d' s' = json_elements f d' s'" if "2 * length s' + 1 < f" for d' s'
    using Suc.IH that by blast
  have IM: "json_members (Suc f) d' s' = json_members f d' s'" if "2 * length s' + 1 < f" for d' s'
    using Suc.IH that by blast
  show ?case
  proof (intro conjI impI)
    assume H: "2 * length s < Suc f"
    show "json_value (Suc (Suc f)) d s = json_value (Suc f) d s"
    proof (cases "skip_ws s")
      case Nil
      then show ?thesis by simp
    next
      case (Cons c r)
      then have lr: "length r < length s" by (rule skip_ws_Cons_shorter)
      have E: "json_elements (Suc f) d' (b # t) = json_elements f d' (b # t)"
        and M: "json_members (Suc f) d' (b # t) = json_members f d' (b # t)"
        if "skip_ws r = b # t" for b t d'
      proof -
        have "length (b # t) \<le> length r" using that length_skip_ws [of r] by simp
        with lr H have c: "2 * length (b # t) + 1 < f" by simp
        show "json_elements (Suc f) d' (b # t) = json_elements f d' (b # t)"
          using c by (rule IE)
        show "json_members (Suc f) d' (b # t) = json_members f d' (b # t)"
          using c by (rule IM)
      qed
      show ?thesis
        unfolding json_value.simps(2) [of "Suc f" d s] json_value.simps(2) [of f d s]
        using Cons by (simp add: E M del: json_value.simps json_elements.simps json_members.simps split: list.splits)
    qed
  next
    assume H: "2 * length s + 1 < Suc f"
    have V: "json_value (Suc f) d s = json_value f d s" using H by (intro IV) simp
    have E: "json_elements (Suc f) d (e # u) = json_elements f d (e # u)"
      if "json_value f d s = Some r1" and "skip_ws r1 = b # t" and "skip_ws t = e # u" for r1 b t e u
    proof -
      have "length r1 < length s" using that(1) json_shorter by blast
      moreover have "length t < length r1" using that(2) by (rule skip_ws_Cons_shorter)
      moreover have "length (e # u) \<le> length t" using that(3) length_skip_ws [of t] by simp
      ultimately have "2 * length (e # u) + 1 < f" using H by simp
      then show ?thesis by (rule IE)
    qed
    show "json_elements (Suc (Suc f)) d s = json_elements (Suc f) d s"
      unfolding json_elements.simps(2) [of "Suc f" d s] json_elements.simps(2) [of f d s]
      by (simp add: V E del: json_value.simps json_elements.simps json_members.simps split: option.splits list.splits)
  next
    assume H: "2 * length s + 1 < Suc f"
    show "json_members (Suc (Suc f)) d s = json_members (Suc f) d s"
    proof (cases s)
      case Nil
      then show ?thesis by simp
    next
      case (Cons q r)
      have V: "json_value (Suc f) d r2 = json_value f d r2"
        if "json_str r = Some r1" and "skip_ws r1 = col # r2" for r1 col r2
      proof -
        have "length r1 < length r" using that(1) by (rule json_str_shorter)
        moreover have "length r2 < length r1" using that(2) by (rule skip_ws_Cons_shorter)
        ultimately have "2 * length r2 < f" using H Cons by simp
        then show ?thesis by (rule IV)
      qed
      have M: "json_members (Suc f) d (skip_ws t) = json_members f d (skip_ws t)"
        if "json_str r = Some r1" and "skip_ws r1 = col # r2" and "json_value f d r2 = Some r3"
          and "skip_ws r3 = b # t" for r1 col r2 r3 b t
      proof -
        have "length r1 < length r" using that(1) by (rule json_str_shorter)
        moreover have "length r2 < length r1" using that(2) by (rule skip_ws_Cons_shorter)
        moreover have "length r3 < length r2" using that(3) json_shorter by blast
        moreover have "length t < length r3" using that(4) by (rule skip_ws_Cons_shorter)
        moreover have "length (skip_ws t) \<le> length t" by (rule length_skip_ws)
        ultimately have "2 * length (skip_ws t) + 1 < f" using H Cons by simp
        then show ?thesis by (rule IM)
      qed
      show ?thesis
        unfolding json_members.simps(2) [of "Suc f" d s] json_members.simps(2) [of f d s]
        using Cons by (simp add: V M del: json_value.simps json_elements.simps json_members.simps split: option.splits list.splits)
    qed
  qed
qed

lemma json_fuel_mono:
  assumes "2 * length s < f" and "f \<le> f'"
  shows "json_value f' d s = json_value f d s"
  using assms(2)
proof (induction f' rule: dec_induct)
  case base
  then show ?case by simp
next
  case (step f')
  have "2 * length s < f'" using assms(1) step.hyps(1) by simp
  then have "json_value (Suc f') d s = json_value f' d s" using json_fuel_step by blast
  with step.IH show ?case by simp
qed

text \<open>
  The fuel given by \<^const>\<open>json_ok\<close> is enough: any larger fuel gives the same
  result for every input and depth.
\<close>

lemma json_fuel_enough:
  assumes "2 * length s + 2 \<le> f"
  shows "json_value f d s = json_value (2 * length s + 2) d s"
  using assms by (intro json_fuel_mono) simp_all

end
