(* ===== verification/Validators.thy ===== *)
theory Validators
  imports SqlAst RustNum Chrono Json
begin

text \<open>
  The type validator of \<open>src/src/validators.rs\<close>: one definition per Rust function,
  in the order of the file, each with the source's name, arguments and match arms.
  \<open>validate_value_for_col\<close> is the entry point: it decides whether a literal
  (\<^typ>\<open>sql_value\<close>) may be stored in a column of a declared type
  (\<^typ>\<open>data_type\<close>), given whether the column is nullable. All sizes are
  \<^typ>\<open>u64\<close> words, as in the source; \<open>s.len() as u64\<close> is \<^const>\<open>len_u64\<close>.
\<close>

definition ABSOLUTE_CHAR_MAX :: u64 where
  "ABSOLUTE_CHAR_MAX = 536870912"

section \<open>Character and binary types\<close>

definition validate_value_for_char ::
  "character_length option \<Rightarrow> sql_value \<Rightarrow> u64 \<Rightarrow> u64 \<Rightarrow> bool" where
  "validate_value_for_char length_p v def_size max_size =
     (let length = (case length_p of
                      Some (IntegerLength l _) \<Rightarrow> l
                    | Some Max \<Rightarrow> max_size
                    | None \<Rightarrow> def_size)
      in case v of
           SingleQuotedString s \<Rightarrow> len_u64 s \<le> length
         | EscapedStringLiteral s \<Rightarrow> len_u64 s \<le> length
         | DoubleQuotedString s \<Rightarrow> len_u64 s \<le> length
         | _ \<Rightarrow> False)"

definition validate_value_for_clob :: "u64 option \<Rightarrow> sql_value \<Rightarrow> u64 \<Rightarrow> bool" where
  "validate_value_for_clob len_p_u64 v max_size =
     (case len_p_u64 of
        Some len \<Rightarrow> validate_value_for_char None v len ABSOLUTE_CHAR_MAX
      | None \<Rightarrow> validate_value_for_char None v 60 ABSOLUTE_CHAR_MAX)"

definition validate_value_for_binary :: "u64 option \<Rightarrow> sql_value \<Rightarrow> u64 \<Rightarrow> bool" where
  "validate_value_for_binary len_p_u64 v def_size =
     (let length = (case len_p_u64 of Some len \<Rightarrow> len | None \<Rightarrow> def_size)
      in case v of
           Number s _ \<Rightarrow> len_u64 s \<le> length
         | SingleQuotedString s \<Rightarrow> len_u64 s \<le> length
         | EscapedStringLiteral s \<Rightarrow> len_u64 s \<le> length
         | SingleQuotedByteStringLiteral s \<Rightarrow> len_u64 s \<le> length
         | DoubleQuotedByteStringLiteral s \<Rightarrow> len_u64 s \<le> length
         | RawStringLiteral s \<Rightarrow> len_u64 s \<le> length
         | HexStringLiteral s \<Rightarrow> len_u64 s \<le> length
         | DoubleQuotedString s \<Rightarrow> len_u64 s \<le> length
         | UnQuotedString s \<Rightarrow> len_u64 s \<le> length
         | _ \<Rightarrow> False)"

definition validate_value_for_bytes :: "u64 option \<Rightarrow> sql_value \<Rightarrow> u64 \<Rightarrow> bool" where
  "validate_value_for_bytes len_p_u64 v def_size =
     (let length = (case len_p_u64 of Some len \<Rightarrow> len | None \<Rightarrow> def_size)
      in case v of
           Number s _ \<Rightarrow> len_u64 s \<le> length
         | SingleQuotedByteStringLiteral s \<Rightarrow> len_u64 s \<le> length
         | DoubleQuotedByteStringLiteral s \<Rightarrow> len_u64 s \<le> length
         | HexStringLiteral s \<Rightarrow> len_u64 s \<le> length
         | UnQuotedString s \<Rightarrow> len_u64 s \<le> length
         | _ \<Rightarrow> False)"

section \<open>Numeric types\<close>

text \<open>\<open>str::split(".")\<close>: the pieces between the dots (one more than the dots).\<close>

fun split_dot :: "string \<Rightarrow> string list" where
  "split_dot [] = [[]]"
| "split_dot (c # cs) =
     (if c = CHR ''.'' then [] # split_dot cs
      else (case split_dot cs of p # ps \<Rightarrow> (c # p) # ps | [] \<Rightarrow> [[c]]))"

text \<open>
  \<open>value_precizion\<close> is \<open>(inner_value.len()-1) as u64\<close>; the subtraction cannot
  underflow, since the empty string has already failed the \<open>f64\<close> parse.
\<close>

definition validate_value_for_decimal :: "exact_number_info \<Rightarrow> sql_value \<Rightarrow> u64 \<Rightarrow> bool" where
  "validate_value_for_decimal dec_info v def_precizion =
     (case v of
        Number s _ \<Rightarrow>
          (if \<not> parse_f64_ok s then False
           else
             (let parts = split_dot s;
                  value_precizion = (of_nat (length s - 1) :: u64)
              in if length parts \<noteq> 2 then False
                 else
                   (let value_scale = len_u64 (parts ! 1)
                    in case dec_info of
                         ENI_None \<Rightarrow> value_precizion \<le> def_precizion
                       | Precision precizion \<Rightarrow> value_precizion \<le> precizion
                       | PrecisionAndScale precizion scale \<Rightarrow>
                           value_precizion \<le> precizion \<and> value_scale \<le> scale)))
      | _ \<Rightarrow> False)"

definition validate_value_for_float :: "u64 option \<Rightarrow> sql_value \<Rightarrow> u64 \<Rightarrow> bool" where
  "validate_value_for_float len_p_u64 v def_precizion =
     (case len_p_u64 of
        Some len \<Rightarrow> validate_value_for_decimal ENI_None v len
      | None \<Rightarrow> validate_value_for_decimal ENI_None v def_precizion)"

text \<open>
  The declared width (\<open>length\<close>) is computed and then never used: the digit count
  is compared with the type's default \<open>def_precizion\<close>.
\<close>

definition validate_value_for_integer :: "u64 option \<Rightarrow> sql_value \<Rightarrow> u64 \<Rightarrow> bool \<Rightarrow> bool" where
  "validate_value_for_integer len_p_u64 v def_precizion sign =
     (let length = (case len_p_u64 of Some len \<Rightarrow> len | None \<Rightarrow> def_precizion)
      in case v of
           Number s _ \<Rightarrow>
             (let value_len = len_u64 s;
                  can_parse = (if sign then parse_i64 s \<noteq> None else parse_u64 s \<noteq> None)
              in if \<not> can_parse then False
                 else if value_len > def_precizion then False
                 else True)
         | _ \<Rightarrow> False)"

definition validate_value_for_bool :: "sql_value \<Rightarrow> bool" where
  "validate_value_for_bool v =
     (case v of
        Number s _ \<Rightarrow> s = ''1'' \<or> s = ''0''
      | Boolean _ \<Rightarrow> True
      | _ \<Rightarrow> False)"

section \<open>Dates, JSON and enumerations\<close>

datatype date_types = Date | Time | DateTime | Timestamp

definition validate_value_for_date_string_general :: "string \<Rightarrow> date_types \<Rightarrow> bool" where
  "validate_value_for_date_string_general value_str date_type =
     (case date_type of
        Date \<Rightarrow> naive_date_parse_ok value_str ''%Y-%m-%d''
      | Time \<Rightarrow> naive_time_parse_ok value_str ''%H:%M:%S''
      | DateTime \<Rightarrow> naive_datetime_parse_ok value_str ''%Y-%m-%d %H:%M:%S''
      | Timestamp \<Rightarrow> naive_datetime_parse_ok value_str ''%Y-%m-%d %H:%M:%S.%2f'')"

definition validate_value_for_dates_general :: "sql_value \<Rightarrow> date_types \<Rightarrow> bool" where
  "validate_value_for_dates_general v date_type =
     (case v of
        SingleQuotedString s \<Rightarrow> validate_value_for_date_string_general s date_type
      | EscapedStringLiteral s \<Rightarrow> validate_value_for_date_string_general s date_type
      | DoubleQuotedString s \<Rightarrow> validate_value_for_date_string_general s date_type
      | _ \<Rightarrow> False)"

definition validate_value_for_json :: "sql_value \<Rightarrow> bool" where
  "validate_value_for_json v =
     (case v of
        SingleQuotedString s \<Rightarrow> json_ok s
      | EscapedStringLiteral s \<Rightarrow> json_ok s
      | DoubleQuotedString s \<Rightarrow> json_ok s
      | _ \<Rightarrow> False)"

definition validate_value_for_enum :: "string list \<Rightarrow> sql_value \<Rightarrow> bool" where
  "validate_value_for_enum set_l v =
     (case v of
        SingleQuotedString s \<Rightarrow> s \<in> set set_l
      | UnQuotedString s \<Rightarrow> s \<in> set set_l
      | DoubleQuotedString s \<Rightarrow> s \<in> set set_l
      | _ \<Rightarrow> False)"

section \<open>The entry point\<close>

definition validate_value_for_col :: "data_type \<Rightarrow> sql_value \<Rightarrow> bool \<Rightarrow> bool" where
  "validate_value_for_col type_name v nullable =
     (if v = Null then nullable
      else case type_name of
        DT_Character length_p \<Rightarrow> validate_value_for_char length_p v 1 ABSOLUTE_CHAR_MAX
      | DT_Char length_p \<Rightarrow> validate_value_for_char length_p v 1 ABSOLUTE_CHAR_MAX
      | DT_CharacterVarying length_p \<Rightarrow> validate_value_for_char length_p v 30 ABSOLUTE_CHAR_MAX
      | DT_CharVarying length_p \<Rightarrow> validate_value_for_char length_p v 30 ABSOLUTE_CHAR_MAX
      | DT_Varchar length_p \<Rightarrow> validate_value_for_char length_p v 30 ABSOLUTE_CHAR_MAX
      | DT_Nvarchar l \<Rightarrow> validate_value_for_clob l v ABSOLUTE_CHAR_MAX
      | DT_Uuid \<Rightarrow> validate_value_for_char None v 30 ABSOLUTE_CHAR_MAX
      | DT_CharacterLargeObject l \<Rightarrow> validate_value_for_clob l v ABSOLUTE_CHAR_MAX
      | DT_CharLargeObject l \<Rightarrow> validate_value_for_clob l v ABSOLUTE_CHAR_MAX
      | DT_Clob l \<Rightarrow> validate_value_for_clob l v ABSOLUTE_CHAR_MAX
      | DT_Binary l \<Rightarrow> validate_value_for_binary l v 30
      | DT_Varbinary l \<Rightarrow> validate_value_for_binary l v 30
      | DT_Blob l \<Rightarrow> validate_value_for_binary l v 30
      | DT_Bytes l \<Rightarrow> validate_value_for_bytes l v 30
      | DT_Numeric i \<Rightarrow> validate_value_for_decimal i v 18
      | DT_Decimal i \<Rightarrow> validate_value_for_decimal i v 18
      | DT_BigNumeric i \<Rightarrow> validate_value_for_decimal i v 18
      | DT_BigDecimal i \<Rightarrow> validate_value_for_decimal i v 18
      | DT_Dec i \<Rightarrow> validate_value_for_decimal i v 18
      | DT_Float l \<Rightarrow> validate_value_for_float l v 18
      | DT_TinyInt l \<Rightarrow> validate_value_for_integer l v 4 True
      | DT_UnsignedTinyInt l \<Rightarrow> validate_value_for_integer l v 3 False
      | DT_Int2 l \<Rightarrow> validate_value_for_integer l v 6 False
      | DT_UnsignedInt2 l \<Rightarrow> validate_value_for_integer l v 5 False
      | DT_SmallInt l \<Rightarrow> validate_value_for_integer l v 6 False
      | DT_UnsignedSmallInt l \<Rightarrow> validate_value_for_integer l v 5 False
      | DT_MediumInt l \<Rightarrow> validate_value_for_integer l v 8 False
      | DT_UnsignedMediumInt l \<Rightarrow> validate_value_for_integer l v 8 False
      | DT_Int l \<Rightarrow> validate_value_for_integer l v 11 False
      | DT_Int4 l \<Rightarrow> validate_value_for_integer l v 11 False
      | DT_Int64 \<Rightarrow> validate_value_for_integer None v 21 False
      | DT_Integer l \<Rightarrow> validate_value_for_integer l v 11 False
      | DT_UnsignedInt l \<Rightarrow> validate_value_for_integer l v 11 False
      | DT_UnsignedInt4 l \<Rightarrow> validate_value_for_integer l v 11 False
      | DT_UnsignedInteger l \<Rightarrow> validate_value_for_integer l v 11 False
      | DT_BigInt l \<Rightarrow> validate_value_for_integer l v 21 False
      | DT_UnsignedBigInt l \<Rightarrow> validate_value_for_integer l v 20 False
      | DT_Int8 l \<Rightarrow> validate_value_for_integer l v 11 False
      | DT_UnsignedInt8 l \<Rightarrow> validate_value_for_integer l v 11 False
      | DT_Float4 \<Rightarrow> validate_value_for_float None v 11
      | DT_Float64 \<Rightarrow> validate_value_for_float None v 21
      | DT_Real \<Rightarrow> validate_value_for_float None v 21
      | DT_Float8 \<Rightarrow> validate_value_for_float None v 11
      | DT_Double \<Rightarrow> validate_value_for_float None v 21
      | DT_DoublePrecision \<Rightarrow> validate_value_for_float None v 21
      | DT_Bool \<Rightarrow> validate_value_for_bool v
      | DT_Boolean \<Rightarrow> validate_value_for_bool v
      | DT_Date \<Rightarrow> validate_value_for_dates_general v Date
      | DT_Time _ _ \<Rightarrow> validate_value_for_dates_general v Time
      | DT_Datetime _ \<Rightarrow> validate_value_for_dates_general v DateTime
      | DT_Timestamp _ _ \<Rightarrow> validate_value_for_dates_general v Timestamp
      | DT_JSON \<Rightarrow> validate_value_for_json v
      | DT_JSONB \<Rightarrow> validate_value_for_json v
      | DT_Text \<Rightarrow> validate_value_for_char None v 60 ABSOLUTE_CHAR_MAX
      | DT_String l \<Rightarrow> validate_value_for_clob l v ABSOLUTE_CHAR_MAX
      | DT_Bytea \<Rightarrow> validate_value_for_binary None v 30
      | DT_Enum set_l \<Rightarrow> validate_value_for_enum set_l v
      | DT_Set set_l \<Rightarrow> validate_value_for_enum set_l v
      | DT_Other _ \<Rightarrow> False)"

section \<open>Properties of the validator\<close>

subsection \<open>Helper lemmas\<close>

lemma split_dot_no_dot: "CHR ''.'' \<notin> set b \<Longrightarrow> split_dot b = [b]"
  by (induction b) auto

lemma split_dot_append:
  "CHR ''.'' \<notin> set a \<Longrightarrow> split_dot (a @ CHR ''.'' # b) = a # split_dot b"
  by (induction a) auto

lemma split_dot_single:
  "CHR ''.'' \<notin> set a \<Longrightarrow> CHR ''.'' \<notin> set b \<Longrightarrow> split_dot (a @ CHR ''.'' # b) = [a, b]"
  by (simp add: split_dot_append split_dot_no_dot)

lemma length_split_dot: "length (split_dot s) = Suc (count_list s CHR ''.'')"
  by (induction s) (auto split: list.splits)

lemma word_of_nat_le_iff:
  "k < 2 ^ 64 \<Longrightarrow> ((of_nat k :: u64) \<le> p) = (k \<le> unat p)"
  by (simp add: word_le_nat_alt unat_of_nat)

lemma char_string_iff:
  assumes "length s < 2 ^ 64"
    and "v \<in> {SingleQuotedString s, EscapedStringLiteral s, DoubleQuotedString s}"
  shows "validate_value_for_char lp v d m \<longleftrightarrow>
           length s \<le> unat (case lp of Some (IntegerLength l _) \<Rightarrow> l | Some Max \<Rightarrow> m | None \<Rightarrow> d)"
  using assms by (auto simp: validate_value_for_char_def len_u64_le_iff)

lemma strftime_timestamp_error: "FError \<in> set (strftime_items ''%Y-%m-%d %H:%M:%S.%2f'')"
  by (simp add: frac_digits_def spec_item_def is_ws_def)

lemmas f64_syntax_defs = parse_f64_ok_def strip_sign_def decimal_ok_def mantissa_ok_def
  is_exp_char_def is_digit_def ascii_lower_def

subsection \<open>Exact numerics\<close>

text \<open>
  C11: a \<open>DECIMAL(p, s)\<close> column accepts a numeric literal \<open>a.b\<close> (with one point
  and a valid \<open>f64\<close> syntax) exactly when \<open>|a| + |b| \<le> p\<close> and \<open>|b| \<le> s\<close>: the
  precision counts every character but the point (a sign included), the scale the
  characters after it.
\<close>

theorem decimal_precision_scale:
  assumes "parse_f64_ok (a @ CHR ''.'' # b)"
    and "CHR ''.'' \<notin> set a" and "CHR ''.'' \<notin> set b"
    and "length a + length b < 2 ^ 63"
  shows "validate_value_for_col (DT_Decimal (PrecisionAndScale p sc)) (Number (a @ CHR ''.'' # b) l) n
           \<longleftrightarrow> length a + length b \<le> unat p \<and> length b \<le> unat sc"
proof -
  have "length b < 2 ^ 64" and "length a + length b < 2 ^ 64"
    using assms(4) by simp_all
  moreover from this(2) have "((of_nat (length a) + of_nat (length b) :: u64) \<le> p) =
                               (length a + length b \<le> unat p)"
    using word_of_nat_le_iff [of "length a + length b" p] by simp
  ultimately show ?thesis
    using assms(1-3)
    by (simp add: validate_value_for_col_def validate_value_for_decimal_def split_dot_single
        len_u64_le_iff)
qed

theorem decimal_precision_scale_witness:
  "validate_value_for_col (DT_Decimal (PrecisionAndScale 5 2)) (Number ''123.45'' False) False \<and>
   \<not> validate_value_for_col (DT_Decimal (PrecisionAndScale 5 2)) (Number ''123.456'' False) False"
  using decimal_precision_scale [of "''123''" "''45''" 5 2 False False]
        decimal_precision_scale [of "''123''" "''456''" 5 2 False False]
  by (simp add: f64_syntax_defs)

text \<open>
  An exact-numeric column rejects every numeric literal that does not contain
  exactly one decimal point, so an integer literal such as \<open>42\<close> is not a valid
  \<open>DECIMAL\<close>.
\<close>

lemma decimal_needs_one_point:
  "count_list s CHR ''.'' \<noteq> 1 \<Longrightarrow> \<not> validate_value_for_col (DT_Decimal i) (Number s l) n"
  by (simp add: validate_value_for_col_def validate_value_for_decimal_def length_split_dot Let_def)

theorem decimal_needs_one_point_witness:
  "\<not> validate_value_for_col (DT_Decimal ENI_None) (Number ''42'' False) False"
  by (rule decimal_needs_one_point) simp

subsection \<open>Integers\<close>

text \<open>
  C12: a \<open>BIGINT\<close> column accepts a numeric literal exactly when it parses as a
  \<open>u64\<close> and has at most 21 characters: its value is below \<open>2^64\<close>.
\<close>

theorem bigint_accepts_iff:
  assumes "length s < 2 ^ 64"
  shows "validate_value_for_col (DT_BigInt lp) (Number s b) n \<longleftrightarrow> parse_u64 s \<noteq> None \<and> length s \<le> 21"
  using assms by (auto simp: validate_value_for_col_def validate_value_for_integer_def
      word_less_nat_alt unat_len_u64 not_less)

theorem bigint_accepts_iff_witness:
  "\<not> validate_value_for_col (DT_BigInt None) (Number ''99999999999999999999'' False) False \<and>
   validate_value_for_col (DT_BigInt None) (Number ''42'' False) False"
  using bigint_accepts_iff [of "''99999999999999999999''" None False False]
        bigint_accepts_iff [of "''42''" None False False]
  by (simp add: parse_u64_def digits_nat_def is_digit_def digit_val_def)

text \<open>
  C18: the width declared for an \<open>INT\<close> column is ignored: \<open>INT(w)\<close> accepts exactly
  what \<open>INT\<close> accepts, whatever \<open>w\<close> is.
\<close>

theorem integer_width_ignored:
  "validate_value_for_col (DT_Int (Some w)) v n = validate_value_for_col (DT_Int None) v n"
  by (simp add: validate_value_for_col_def validate_value_for_integer_def)

theorem integer_width_ignored_witness:
  "validate_value_for_col (DT_Int (Some 2)) (Number ''12345'' False) False"
  using integer_width_ignored [of 2 "Number ''12345'' False" False]
  by (simp add: validate_value_for_col_def validate_value_for_integer_def parse_u64_def
      digits_nat_def is_digit_def digit_val_def len_u64_def)

text \<open>
  An \<open>INT\<close> column is validated as unsigned: it rejects every negative numeric
  literal.
\<close>

lemma int_rejects_negative:
  "\<not> validate_value_for_col (DT_Int lp) (Number (CHR ''-'' # r) b) n"
  by (simp add: validate_value_for_col_def validate_value_for_integer_def parse_u64_def
      digits_nat_def is_digit_def)

theorem int_rejects_negative_witness:
  "\<not> validate_value_for_col (DT_Int None) (Number ''-1'' False) False"
  using int_rejects_negative [of None "''1''" False False] by simp

subsection \<open>Strings\<close>

text \<open>
  C14: a \<open>VARCHAR\<close> column accepts a single-quoted, escaped or double-quoted string
  exactly when its byte length is at most the declared length (30 when none is
  declared, \<open>2^29\<close> for \<open>MAX\<close>).
\<close>

theorem varchar_accepts_iff:
  assumes "length s < 2 ^ 64"
    and "v \<in> {SingleQuotedString s, EscapedStringLiteral s, DoubleQuotedString s}"
  shows "validate_value_for_col (DT_Varchar lp) v n \<longleftrightarrow>
           length s \<le> unat (case lp of Some (IntegerLength l _) \<Rightarrow> l
                                   | Some Max \<Rightarrow> ABSOLUTE_CHAR_MAX | None \<Rightarrow> 30)"
proof -
  from assms(2) have "v \<noteq> Null" by auto
  then have "validate_value_for_col (DT_Varchar lp) v n = validate_value_for_char lp v 30 ABSOLUTE_CHAR_MAX"
    by (simp add: validate_value_for_col_def)
  with char_string_iff [OF assms] show ?thesis by simp
qed

theorem varchar_accepts_iff_witness:
  "validate_value_for_col (DT_Varchar (Some (IntegerLength 5 None))) (SingleQuotedString ''admin'') False \<and>
   \<not> validate_value_for_col (DT_Varchar (Some (IntegerLength 4 None))) (DoubleQuotedString ''admin'') False"
  using varchar_accepts_iff [of "''admin''" "SingleQuotedString ''admin''" "Some (IntegerLength 5 None)" False]
        varchar_accepts_iff [of "''admin''" "DoubleQuotedString ''admin''" "Some (IntegerLength 4 None)" False]
  by simp

text \<open>
  C17: a \<open>UUID\<close> column rejects every string longer than 30 bytes, so the canonical
  36-character text form of a UUID is never accepted.
\<close>

theorem uuid_rejects_long:
  assumes "30 < length s" and "length s < 2 ^ 64"
  shows "\<not> validate_value_for_col DT_Uuid (SingleQuotedString s) n"
  using assms char_string_iff [of s "SingleQuotedString s" None 30 ABSOLUTE_CHAR_MAX]
  by (simp add: validate_value_for_col_def)

theorem uuid_rejects_long_witness:
  "\<not> validate_value_for_col DT_Uuid (SingleQuotedString ''123e4567-e89b-12d3-a456-426614174000'') False"
  by (rule uuid_rejects_long) simp_all

text \<open>
  C16: an \<open>ENUM\<close> column accepts a non-null literal exactly when it is a
  single-quoted, unquoted or double-quoted string equal to one of the members.
\<close>

theorem enum_accepts_iff:
  "validate_value_for_col (DT_Enum xs) v n \<longleftrightarrow>
     (v = Null \<and> n) \<or>
     (\<exists>s \<in> set xs. v = SingleQuotedString s \<or> v = UnQuotedString s \<or> v = DoubleQuotedString s)"
  by (cases v) (auto simp: validate_value_for_col_def validate_value_for_enum_def)

theorem enum_accepts_iff_witness:
  "\<not> validate_value_for_col (DT_Enum [''red'', ''green'']) (EscapedStringLiteral ''red'') False \<and>
   validate_value_for_col (DT_Enum [''red'', ''green'']) (UnQuotedString ''green'') False"
  using enum_accepts_iff [of "[''red'', ''green'']" "EscapedStringLiteral ''red''" False]
        enum_accepts_iff [of "[''red'', ''green'']" "UnQuotedString ''green''" False]
  by simp

subsection \<open>Dates and times\<close>

text \<open>
  C13: a \<open>TIMESTAMP\<close> column accepts no literal but \<open>NULL\<close> (and that only when the
  column is nullable): the format \<open>%Y-%m-%d %H:%M:%S.%2f\<close> the source passes to
  chrono contains \<open>%2f\<close>, which is not a chrono specifier, so every parse fails.
\<close>

theorem timestamp_never_valid:
  "validate_value_for_col (DT_Timestamp p tz) v n \<longleftrightarrow> v = Null \<and> n"
  by (cases v) (simp_all add: validate_value_for_col_def validate_value_for_dates_general_def
      validate_value_for_date_string_general_def naive_datetime_parse_ok_def
      run_format_FError [OF strftime_timestamp_error])

theorem timestamp_never_valid_witness:
  "\<not> validate_value_for_col (DT_Timestamp None NoTimeZone) (SingleQuotedString ''2024-01-15 10:00:00.12'') True"
  using timestamp_never_valid [of None NoTimeZone "SingleQuotedString ''2024-01-15 10:00:00.12''" True]
  by simp

text \<open>
  C28: on the canonical text \<open>YYYY-MM-DD\<close> of a year below 10000 and a two-digit
  month and day, a \<open>DATE\<close> column accepts exactly the valid proleptic Gregorian
  dates: the month lies in 1..12 and the day in 1..days of that month, leap years
  included.
\<close>

theorem date_canonical_iff:
  assumes "y < 10000" and "m < 100" and "d < 100"
  shows "validate_value_for_col DT_Date
           (SingleQuotedString (dec_pad 4 y @ ''-'' @ dec_pad 2 m @ ''-'' @ dec_pad 2 d)) nl \<longleftrightarrow>
         valid_ymd (int y) (int m) (int d)"
proof -
  have dash: "\<not> is_digit CHR ''-''" by (simp add: is_digit_def)
  have "run_format (dec_pad 4 y @ ''-'' @ dec_pad 2 m @ ''-'' @ dec_pad 2 d) ''%Y-%m-%d'' =
          Some (empty_parsed\<lparr>p_year := Some (int y), p_month := Some (int m), p_day := Some (int d)\<rparr>)"
    using assms dash
    by (simp add: run_format_def spec_item_def frac_digits_def is_ws_def scan_item_def
        dropWhile_ws_dec_pad dropWhile_ws_dec_pad_end scan_year_dec_pad scan_number_dec_pad scan_number_dec_pad_end
        set_field_def set_consistent_def empty_parsed_def)
  then show ?thesis
    by (simp add: validate_value_for_col_def validate_value_for_dates_general_def
        validate_value_for_date_string_general_def naive_date_parse_ok_def date_of_parsed_def
        empty_parsed_def)
qed

theorem date_canonical_iff_witness:
  "validate_value_for_col DT_Date (SingleQuotedString ''2024-01-15'') False \<and>
   validate_value_for_col DT_Date (SingleQuotedString ''2024-02-29'') False \<and>
   \<not> validate_value_for_col DT_Date (SingleQuotedString ''2023-02-29'') False \<and>
   \<not> validate_value_for_col DT_Date (SingleQuotedString ''2024-13-40'') False"
proof -
  have r: "dec_pad 4 2024 = ''2024''" "dec_pad 4 2023 = ''2023''" "dec_pad 2 1 = ''01''"
    "dec_pad 2 15 = ''15''" "dec_pad 2 2 = ''02''" "dec_pad 2 29 = ''29''"
    "dec_pad 2 13 = ''13''" "dec_pad 2 40 = ''40''"
    by (simp_all add: dec_pad_numeral char_of_eq_iff)
  show ?thesis
    using date_canonical_iff [of 2024 1 15 False, unfolded r]
          date_canonical_iff [of 2024 2 29 False, unfolded r]
          date_canonical_iff [of 2023 2 29 False, unfolded r]
          date_canonical_iff [of 2024 13 40 False, unfolded r]
    by (simp add: valid_ymd_def days_in_month_def is_leap_def)
qed

end
