(* ===== verification/RawValue.thy ===== *)
theory RawValue
  imports SqlAst
begin

text \<open>
  \<open>InnerRawValue::get_inner_raw_str\<close> (\<open>src/src/raw_inner_value.rs\<close>): the text
  that a row stores for a literal. Numbers and strings keep their text, booleans become
  \<open>true\<close>/\<open>false\<close>, and \<open>NULL\<close> (and a placeholder) is absent.
\<close>

definition get_inner_raw_str :: "sql_value \<Rightarrow> string option" where
  "get_inner_raw_str v =
     (case v of
        Number s _ \<Rightarrow> Some s
      | DoubleQuotedString s \<Rightarrow> Some s
      | SingleQuotedString s \<Rightarrow> Some s
      | DollarQuotedString s _ \<Rightarrow> Some s
      | EscapedStringLiteral s \<Rightarrow> Some s
      | NationalStringLiteral s \<Rightarrow> Some s
      | HexStringLiteral s \<Rightarrow> Some s
      | Boolean b \<Rightarrow> (if b then Some ''true'' else Some ''false'')
      | SingleQuotedByteStringLiteral s \<Rightarrow> Some s
      | DoubleQuotedByteStringLiteral s \<Rightarrow> Some s
      | RawStringLiteral s \<Rightarrow> Some s
      | Null \<Rightarrow> None
      | UnQuotedString s \<Rightarrow> Some s
      | _ \<Rightarrow> None)"

end
