(* ===== verification/DataDescriptor.thy ===== *)
theory DataDescriptor
  imports Validators RawValue
begin

text \<open>
  The catalog and the row store of \<open>src/src/data_descriptor.rs\<close>. Each struct is a
  record and each \<open>HashMap\<close> an association list (see \<open>Prelude\<close>). A method that
  takes \<open>&mut self\<close> takes the record and returns it updated; a method that returns
  a \<open>Result\<close> returns the outcome beside the updated record, because the Rust code
  keeps the mutations it made before an early \<open>return Err\<close>.
  \<open>Arc<Mutex<TableInfo>>\<close> is the table itself: statements run one at a time on one
  thread, so the lock adds no behaviour (a poisoned lock needs an earlier panic while
  it is held, and the proofs below show \<open>insert_values\<close> cannot panic).
\<close>

section \<open>Column metadata\<close>

datatype select_fields = WildCard | NamedFields "string list"

datatype column_properties =
    CP_AutoIncrement
  | CP_PriamryKey
  | CP_Null
  | CP_NotNull
  | CP_Unique
  | CP_Default expr
  | CP_OnUpdate expr
  | CP_ForeignKey string "string list" "referential_action option" "referential_action option"

record column_info =
  type_name :: data_type
  properties :: "column_properties list"

text \<open>The closure passed to \<open>find\<close> in \<open>ColumnInfo::validate_value\<close>.\<close>

definition makes_nullable :: "column_properties \<Rightarrow> bool" where
  "makes_nullable prop =
     (case prop of CP_Null \<Rightarrow> True | CP_AutoIncrement \<Rightarrow> True | CP_Default _ \<Rightarrow> True | _ \<Rightarrow> False)"

definition validate_value :: "column_info \<Rightarrow> sql_value \<Rightarrow> bool" where
  "validate_value ci v =
     (let is_nullable = (find makes_nullable (properties ci) \<noteq> None)
      in validate_value_for_col (type_name ci) v is_nullable)"

section \<open>Rows, tables and the database\<close>

record table_row_data =
  column_data :: "(string, string option) hash_map"

record table_data =
  row_data :: "(string, table_row_data) hash_map"
  indexed_data :: "(string, table_row_data) hash_map"

record table_info =
  table_name :: string
  primary_keys :: "string list"
  indexes :: "string list"
  column_properies :: "(string, column_info) hash_map"
  data :: table_data

record data_base =
  tables :: "(string, table_info) hash_map"

definition new_row :: table_row_data where
  "new_row = \<lparr>column_data = []\<rparr>"

definition get_wild_card :: "table_row_data \<Rightarrow> string option list" where
  "get_wild_card r = map snd (column_data r)"

definition get_named_fields :: "table_row_data \<Rightarrow> string list \<Rightarrow> string option list result" where
  "get_named_fields r field_names = map_result (\<lambda>f. unwrap (map_of (column_data r) f)) field_names"

definition new_table_data :: table_data where
  "new_table_data = \<lparr>row_data = [], indexed_data = []\<rparr>"

definition find_all_data :: "table_data \<Rightarrow> select_fields \<Rightarrow> string option list list result" where
  "find_all_data td selection =
     (case selection of
        WildCard \<Rightarrow> Inr (map (\<lambda>(_, r). get_wild_card r) (row_data td))
      | NamedFields field_names \<Rightarrow> map_result (\<lambda>(_, r). get_named_fields r field_names) (row_data td))"

definition new_table_info ::
  "string \<Rightarrow> string list \<Rightarrow> string list \<Rightarrow> (string, column_info) hash_map \<Rightarrow> table_info" where
  "new_table_info name pks idx cols =
     \<lparr>table_name = name, primary_keys = pks, indexes = idx, column_properies = cols,
      data = new_table_data\<rparr>"

section \<open>Insertion\<close>

text \<open>
  The loop \<open>for (c_name, c_props) in &self.column_properies\<close> that counts the schema
  columns named in the statement's column list.
\<close>

definition count_found :: "(string, column_info) hash_map \<Rightarrow> string list \<Rightarrow> nat" where
  "count_found cps columns =
     foldl (\<lambda>found (c_name, c_props). if find (\<lambda>c_name_i. c_name_i = c_name) columns \<noteq> None
                                     then found + 1 else found) 0 cps"

text \<open>
  The composite primary key: \<open>_\<close> before a part when the key so far is non-empty,
  then the raw text, or \<open>|\<close> for \<open>NULL\<close>.
\<close>

definition push_pk :: "string \<Rightarrow> string option \<Rightarrow> string" where
  "push_pk pk value_raw =
     (if length pk > 0 then pk @ ''_'' else pk) @ (case value_raw of Some v \<Rightarrow> v | None \<Rightarrow> ''|'')"

text \<open>
  The inner loop \<open>for (c_name, value_expr) in columns.iter().zip(val_row.iter())\<close>:
  it threads the key under construction and the row under construction. A value that
  fails validation is not stored, and the loop goes on.
\<close>

fun insert_row_cols ::
  "table_info \<Rightarrow> (string \<times> expr) list \<Rightarrow> string \<Rightarrow> table_row_data \<Rightarrow> (string \<times> table_row_data) result"
where
  "insert_row_cols ti [] pk rd = Inr (pk, rd)"
| "insert_row_cols ti ((c_name, value_expr) # rest) pk rd =
     (case unwrap (map_of (column_properies ti) c_name) of
        Inl e \<Rightarrow> Inl e
      | Inr col_prop \<Rightarrow>
          (case value_expr of
             Value v \<Rightarrow>
               (let value_raw = get_inner_raw_str v;
                    pk' = (if c_name \<in> set (primary_keys ti) then push_pk pk value_raw else pk);
                    rd' = (if validate_value col_prop v
                           then rd\<lparr>column_data := AList.update c_name value_raw (column_data rd)\<rparr>
                           else rd)
                in insert_row_cols ti rest pk' rd')
           | OtherExpr _ \<Rightarrow> Inl (Err ''only raw values are supported for insert'')))"

definition store_row :: "string \<Rightarrow> table_row_data \<Rightarrow> table_info \<Rightarrow> table_info" where
  "store_row pk rd ti = ti\<lparr>data := (data ti)\<lparr>row_data := AList.update pk rd (row_data (data ti))\<rparr>\<rparr>"

text \<open>The outer loop \<open>for val_row in values\<close>; rows stored before an error stay stored.\<close>

fun insert_rows :: "string list \<Rightarrow> expr list list \<Rightarrow> table_info \<Rightarrow> unit result \<times> table_info" where
  "insert_rows columns [] ti = (Inr (), ti)"
| "insert_rows columns (val_row # rest) ti =
     (if length columns \<noteq> length val_row then (Inl (Err ''wrong number of columns''), ti)
      else
        (case insert_row_cols ti (zip columns val_row) [] new_row of
           Inl e \<Rightarrow> (Inl e, ti)
         | Inr (pk_string, row) \<Rightarrow> insert_rows columns rest (store_row pk_string row ti)))"

definition insert_values :: "string list \<Rightarrow> expr list list \<Rightarrow> table_info \<Rightarrow> unit result \<times> table_info" where
  "insert_values columns values ti =
     (if length columns = 0 \<or> length columns > length (column_properies ti)
      then (Inl (Err ''wrong number of columns''), ti)
      else
        (let found = count_found (column_properies ti) columns
         in if length columns \<noteq> found
            then (Inl (Err ''the colummn list does not exist for table''), ti)
            else insert_rows columns values ti))"

definition find_all :: "table_info \<Rightarrow> select_fields \<Rightarrow> string option list list result" where
  "find_all ti selection = find_all_data (data ti) selection"

section \<open>The database\<close>

definition new_data_base :: data_base where
  "new_data_base = \<lparr>tables = []\<rparr>"

definition create_table ::
  "string \<Rightarrow> string list \<Rightarrow> string list \<Rightarrow> (string, column_info) hash_map \<Rightarrow> data_base \<Rightarrow> data_base"
where
  "create_table name pks idx cols db =
     db\<lparr>tables := AList.update name (new_table_info name pks idx cols) (tables db)\<rparr>"

definition table_exists :: "data_base \<Rightarrow> string \<Rightarrow> bool" where
  "table_exists db name = (map_of (tables db) name \<noteq> None)"

definition get_table_ref :: "data_base \<Rightarrow> string \<Rightarrow> table_info option" where
  "get_table_ref db name = map_of (tables db) name"

text \<open>
  Writing back through the shared handle: the table the handle points to is replaced
  by its mutated version (the map entry itself, the \<open>Arc\<close>, is unchanged in Rust).
\<close>

definition put_table :: "string \<Rightarrow> table_info \<Rightarrow> data_base \<Rightarrow> data_base" where
  "put_table name ti db = db\<lparr>tables := AList.update name ti (tables db)\<rparr>"

section \<open>Specification of the insert path\<close>

text \<open>
  What \<open>insert_values\<close> does on a row of literals, stated without its loops: the
  stored row keeps, in statement order, the raw text of each value that passes
  validation (\<^term>\<open>expected_row\<close>); its key folds \<^const>\<open>push_pk\<close> over the
  primary-key values in statement order (\<^term>\<open>expected_key\<close>); a batch upserts its
  rows one after the other (\<^term>\<open>upsert_literal_rows\<close>). \<^term>\<open>table_inv\<close> is the
  well-formedness of a table: distinct column names, distinct row keys, and rows whose
  columns are distinct columns of the schema.
\<close>

definition literal_row :: "(string \<times> sql_value) list \<Rightarrow> (string \<times> expr) list" where
  "literal_row ps = map (\<lambda>(c, v). (c, Value v)) ps"

definition expected_row :: "table_info \<Rightarrow> (string \<times> sql_value) list \<Rightarrow> (string, string option) hash_map" where
  "expected_row ti ps =
     map (\<lambda>(c, v). (c, get_inner_raw_str v))
       (filter (\<lambda>(c, v). validate_value (the (map_of (column_properies ti) c)) v) ps)"

fun composite_key :: "string \<Rightarrow> string option list \<Rightarrow> string" where
  "composite_key pk [] = pk"
| "composite_key pk (x # xs) = composite_key (push_pk pk x) xs"

definition expected_key :: "table_info \<Rightarrow> (string \<times> sql_value) list \<Rightarrow> string" where
  "expected_key ti ps =
     composite_key [] (map (\<lambda>(c, v). get_inner_raw_str v) (filter (\<lambda>(c, v). c \<in> set (primary_keys ti)) ps))"

definition row_inv :: "table_info \<Rightarrow> table_row_data \<Rightarrow> bool" where
  "row_inv ti r \<longleftrightarrow> keys_distinct (column_data r) \<and> fst ` set (column_data r) \<subseteq> fst ` set (column_properies ti)"

definition table_inv :: "table_info \<Rightarrow> bool" where
  "table_inv ti \<longleftrightarrow> keys_distinct (column_properies ti) \<and> keys_distinct (row_data (data ti)) \<and>
     list_all (\<lambda>kr. row_inv ti (snd kr)) (row_data (data ti))"

definition upsert_literal_rows :: "string list \<Rightarrow> sql_value list list \<Rightarrow> table_info \<Rightarrow> table_info" where
  "upsert_literal_rows cols vss ti =
     foldl (\<lambda>t vs. store_row (expected_key t (zip cols vs)) \<lparr>column_data = expected_row t (zip cols vs)\<rparr> t) ti vss"

definition users_schema :: "(string, column_info) hash_map" where
  "users_schema =
     [(''id'', \<lparr>type_name = DT_BigInt (Some 20), properties = [CP_PriamryKey, CP_Unique, CP_AutoIncrement]\<rparr>),
      (''name'', \<lparr>type_name = DT_Varchar (Some (IntegerLength 255 None)), properties = [CP_NotNull]\<rparr>)]"

definition users_table :: table_info where
  "users_table = new_table_info ''users'' [''id''] [''id''] users_schema"

section \<open>Properties of the row store\<close>

lemma insert_row_cols_literals:
  assumes "distinct (map fst ps)"
    and "fst ` set ps \<subseteq> fst ` set (column_properies ti)"
    and "fst ` set ps \<inter> fst ` set (column_data rd) = {}"
  shows "insert_row_cols ti (literal_row ps) pk rd =
           Inr (composite_key pk (map (\<lambda>(c, v). get_inner_raw_str v)
                                     (filter (\<lambda>(c, v). c \<in> set (primary_keys ti)) ps)),
                rd\<lparr>column_data := column_data rd @ expected_row ti ps\<rparr>)"
  using assms
proof (induction ps arbitrary: pk rd)
  case Nil
  then show ?case by (simp add: literal_row_def expected_row_def)
next
  case (Cons p ps)
  obtain c v where p: "p = (c, v)" by (cases p)
  from Cons.prems p have "c \<in> fst ` set (column_properies ti)" by auto
  then obtain ci where ci: "map_of (column_properies ti) c = Some ci"
    by (cases "map_of (column_properies ti) c") (auto simp: map_of_None_keys)
  from Cons.prems p have fresh: "map_of (column_data rd) c = None"
    by (auto simp: map_of_None_keys)
  let ?rd' = "if validate_value ci v
              then rd\<lparr>column_data := AList.update c (get_inner_raw_str v) (column_data rd)\<rparr> else rd"
  have ih: "insert_row_cols ti (literal_row ps) pk' ?rd' =
           Inr (composite_key pk' (map (\<lambda>(c, v). get_inner_raw_str v)
                                     (filter (\<lambda>(c, v). c \<in> set (primary_keys ti)) ps)),
                ?rd'\<lparr>column_data := column_data ?rd' @ expected_row ti ps\<rparr>)" for pk'
    using Cons.prems p by (intro Cons.IH) (auto simp: keys_update)
  show ?case
    using ih ci fresh p by (simp add: literal_row_def expected_row_def unwrap_def update_new_append Let_def)
qed

lemma store_row_schema [simp]:
  "column_properies (store_row k r t) = column_properies t"
  "primary_keys (store_row k r t) = primary_keys t"
  by (simp_all add: store_row_def)

text \<open>The loop counts the schema entries whose name is listed.\<close>

lemma count_found_filter:
  "foldl (\<lambda>found (c_name, c_props). if find (\<lambda>c_name_i. c_name_i = c_name) columns \<noteq> None
                                   then found + 1 else found) n cps =
   n + length (filter (\<lambda>(c, _). c \<in> set columns) cps)"
  by (induction cps arbitrary: n) (auto simp: find_None_iff)

lemma count_found_card:
  assumes "keys_distinct cps"
  shows "count_found cps columns = card (set columns \<inter> fst ` set cps)"
proof -
  let ?f = "filter (\<lambda>(c, _). c \<in> set columns) cps"
  from assms have "distinct (map fst ?f)"
    by (simp add: keys_distinct_def distinct_map_filter)
  then have "card (set (map fst ?f)) = length (map fst ?f)"
    by (rule distinct_card)
  moreover have "set (map fst ?f) = set columns \<inter> fst ` set cps"
    by force
  ultimately show ?thesis unfolding count_found_def count_found_filter by simp
qed

text \<open>
  C34: the source's column-count loop (over the schema entries, each looked up in the
  statement's column list with \<open>find\<close>) is equivalent, on a schema with distinct
  column names, to the reference count: the number of distinct listed names that are
  schema columns.
\<close>

theorem count_found_equiv:
  assumes "keys_distinct cps"
  shows "count_found cps columns = card (set columns \<inter> fst ` set cps)"
  using assms by (rule count_found_card)

lemma length_eq_card_inter:
  "length xs = card (set xs \<inter> K) \<longleftrightarrow> distinct xs \<and> set xs \<subseteq> K"
proof
  assume eq: "length xs = card (set xs \<inter> K)"
  have le1: "card (set xs \<inter> K) \<le> card (set xs)" by (simp add: card_mono)
  have le2: "card (set xs) \<le> length xs" by (rule card_length)
  from eq le1 le2 have "card (set xs) = length xs" by simp
  then have "distinct xs" by (simp add: card_distinct)
  moreover from eq le1 le2 have "card (set xs \<inter> K) = card (set xs)" by simp
  then have "set xs \<inter> K = set xs" by (simp add: card_subset_eq)
  ultimately show "distinct xs \<and> set xs \<subseteq> K" by blast
next
  assume "distinct xs \<and> set xs \<subseteq> K"
  then show "length xs = card (set xs \<inter> K)"
    by (simp add: Int_absorb2 distinct_card)
qed

lemma insert_values_check_eq:
  assumes "keys_distinct (column_properies ti)"
  shows "insert_values columns values ti =
    (if columns \<noteq> [] \<and> distinct columns \<and> set columns \<subseteq> fst ` set (column_properies ti)
     then insert_rows columns values ti
     else (Inl (Err (if columns = [] \<or> length (column_properies ti) < length columns
                      then ''wrong number of columns''
                      else ''the colummn list does not exist for table'')), ti))"
proof -
  let ?K = "fst ` set (column_properies ti)"
  have found: "count_found (column_properies ti) columns = card (set columns \<inter> ?K)"
    using assms by (rule count_found_card)
  have "card ?K \<le> length (column_properies ti)"
    by (metis card_image_le card_length finite_set le_trans)
  moreover have "card (set columns \<inter> ?K) \<le> card ?K"
    by (simp add: card_mono)
  moreover have "distinct columns \<Longrightarrow> set columns \<subseteq> ?K \<Longrightarrow> length columns \<le> card ?K"
    by (metis card_mono distinct_card finite_imageI finite_set)
  ultimately show ?thesis
    by (auto simp: insert_values_def found length_eq_card_inter [symmetric] Let_def)
qed

text \<open>
  C3: on a table whose column names are distinct, \<open>insert_values\<close> accepts the
  statement's column list exactly when it is a non-empty list of distinct schema
  columns (a strict subset of the schema included) and then runs the row loop;
  otherwise it returns the source's error message and leaves the table unchanged.
\<close>

theorem insert_values_column_check:
  assumes "keys_distinct (column_properies ti)"
  shows "insert_values columns values ti =
    (if columns \<noteq> [] \<and> distinct columns \<and> set columns \<subseteq> fst ` set (column_properies ti)
     then insert_rows columns values ti
     else (Inl (Err (if columns = [] \<or> length (column_properies ti) < length columns
                      then ''wrong number of columns''
                      else ''the colummn list does not exist for table'')), ti))"
  using assms by (rule insert_values_check_eq)

lemma zip_values_literal_row: "zip cols (map Value vs) = literal_row (zip cols vs)"
  by (simp add: literal_row_def zip_map2)

lemma insert_row_cols_fresh:
  assumes "distinct cols" and "set cols \<subseteq> fst ` set (column_properies ti)"
    and "length vs = length cols"
  shows "insert_row_cols ti (zip cols (map Value vs)) [] new_row =
           Inr (expected_key ti (zip cols vs), \<lparr>column_data = expected_row ti (zip cols vs)\<rparr>)"
proof -
  have "distinct (map fst (zip cols vs))" and "fst ` set (zip cols vs) \<subseteq> fst ` set (column_properies ti)"
    using assms by (simp_all add: set_map [symmetric] del: set_map)
  then show ?thesis
    by (simp add: zip_values_literal_row insert_row_cols_literals new_row_def expected_key_def)
qed

lemma insert_rows_literals:
  assumes "distinct cols" and "set cols \<subseteq> fst ` set (column_properies ti)"
    and "list_all (\<lambda>vs. length vs = length cols) vss"
  shows "insert_rows cols (map (map Value) vss) ti = (Inr (), upsert_literal_rows cols vss ti)"
  using assms
proof (induction vss arbitrary: ti)
  case Nil
  then show ?case by (simp add: upsert_literal_rows_def)
next
  case (Cons vs vss)
  then have "insert_rows cols (map (map Value) vss) (store_row (expected_key ti (zip cols vs))
               \<lparr>column_data = expected_row ti (zip cols vs)\<rparr> ti) =
             (Inr (), upsert_literal_rows cols vss (store_row (expected_key ti (zip cols vs))
               \<lparr>column_data = expected_row ti (zip cols vs)\<rparr> ti))"
    by simp
  with Cons.prems show ?case
    by (simp add: insert_row_cols_fresh upsert_literal_rows_def)
qed

lemma insert_values_literals:
  assumes "keys_distinct (column_properies ti)" and "cols \<noteq> []" and "distinct cols"
    and "set cols \<subseteq> fst ` set (column_properies ti)"
    and "list_all (\<lambda>vs. length vs = length cols) vss"
  shows "insert_values cols (map (map Value) vss) ti = (Inr (), upsert_literal_rows cols vss ti)"
  using assms by (simp add: insert_values_check_eq insert_rows_literals)

text \<open>
  C2: on a table with distinct column names, inserting a batch of literal rows over a
  non-empty list of distinct schema columns, each row of the list's length, succeeds
  and upserts the rows in order: each row is stored under its composite key with the
  raw text of the values that pass validation.
\<close>

theorem insert_values_literal_rows:
  assumes "keys_distinct (column_properies ti)" and "cols \<noteq> []" and "distinct cols"
    and "set cols \<subseteq> fst ` set (column_properies ti)"
    and "list_all (\<lambda>vs. length vs = length cols) vss"
  shows "insert_values cols (map (map Value) vss) ti = (Inr (), upsert_literal_rows cols vss ti)"
  using assms by (rule insert_values_literals)

text \<open>
  C6: last write wins: inserting two literal rows with the same composite key in one
  statement leaves the table as inserting the second row alone would.
\<close>

theorem last_write_wins:
  assumes "keys_distinct (column_properies ti)" and "cols \<noteq> []" and "distinct cols"
    and "set cols \<subseteq> fst ` set (column_properies ti)"
    and "length vs1 = length cols" and "length vs2 = length cols"
    and "expected_key ti (zip cols vs1) = expected_key ti (zip cols vs2)"
  shows "insert_values cols [map Value vs1, map Value vs2] ti = insert_values cols [map Value vs2] ti"
proof -
  have "insert_values cols (map (map Value) [vs1, vs2]) ti = (Inr (), upsert_literal_rows cols [vs1, vs2] ti)"
    and "insert_values cols (map (map Value) [vs2]) ti = (Inr (), upsert_literal_rows cols [vs2] ti)"
    using assms insert_values_literals [of ti cols "[vs1, vs2]"]
      insert_values_literals [of ti cols "[vs2]"] by simp_all
  moreover have "expected_key (store_row k r ti) ps = expected_key ti ps" 
    and "expected_row (store_row k r ti) ps = expected_row ti ps" for k r ps
    by (simp_all add: expected_key_def expected_row_def)
  ultimately show ?thesis
    using assms(7) by (simp add: upsert_literal_rows_def store_row_def)
qed

lemma insert_row_cols_no_panic:
  "fst ` set xs \<subseteq> fst ` set (column_properies ti) \<Longrightarrow> insert_row_cols ti xs pk rd \<noteq> Inl (Panic m)"
proof (induction ti xs pk rd rule: insert_row_cols.induct)
  case (1 ti pk rd)
  then show ?case by simp
next
  case (2 ti c_name value_expr rest pk rd)
  then have "c_name \<in> fst ` set (column_properies ti)" by simp
  then obtain ci where "map_of (column_properies ti) c_name = Some ci"
    by (cases "map_of (column_properies ti) c_name") (auto simp: map_of_None_keys)
  with 2 show ?case
    by (auto simp: unwrap_def Let_def split: expr.splits)
qed

lemma insert_rows_no_panic:
  "set cols \<subseteq> fst ` set (column_properies ti) \<Longrightarrow> fst (insert_rows cols rows ti) \<noteq> Inl (Panic m)"
proof (induction cols rows ti rule: insert_rows.induct)
  case (1 cols ti)
  then show ?case by simp
next
  case (2 cols val_row rest ti)
  have "fst ` set (zip cols val_row) \<subseteq> set cols"
    by (auto dest: set_zip_leftD)
  with "2.prems" have "fst ` set (zip cols val_row) \<subseteq> fst ` set (column_properies ti)"
    by blast
  then have "insert_row_cols ti (zip cols val_row) [] new_row \<noteq> Inl (Panic m)"
    by (rule insert_row_cols_no_panic)
  with 2 show ?case
    by (auto split: sum.splits)
qed

lemma insert_values_never_panics:
  assumes "keys_distinct (column_properies ti)"
  shows "fst (insert_values cols rows ti) \<noteq> Inl (Panic m)"
  using assms by (simp add: insert_values_check_eq insert_rows_no_panic)

text \<open>
  C5: on a table with distinct column names, \<open>insert_values\<close> never panics (the
  \<open>unwrap\<close> of the schema lookup always finds the column), whatever the statement.
\<close>

theorem insert_values_no_panic:
  assumes "keys_distinct (column_properies ti)"
  shows "fst (insert_values cols rows ti) \<noteq> Inl (Panic m)"
  using assms by (rule insert_values_never_panics)

text \<open>Any property of the row under construction that survives storing a validated value
  survives the whole loop.\<close>

lemma insert_row_cols_preserves:
  assumes step: "\<And>rd c ci v. P rd \<Longrightarrow> map_of (column_properies ti) c = Some ci \<Longrightarrow> validate_value ci v \<Longrightarrow>
                   P (rd\<lparr>column_data := AList.update c (get_inner_raw_str v) (column_data rd)\<rparr>)"
  shows "insert_row_cols ti xs pk rd = Inr (pk', rd') \<Longrightarrow> P rd \<Longrightarrow> P rd'"
proof (induction xs arbitrary: pk rd)
  case Nil
  then show ?case by simp
next
  case (Cons x rest)
  obtain c_name value_expr where x: "x = (c_name, value_expr)" by (cases x)
  with Cons.prems obtain ci v where ci: "map_of (column_properies ti) c_name = Some ci"
    and v: "value_expr = Value v"
    by (auto simp: unwrap_def split: option.splits expr.splits)
  with Cons x show ?case
    by (auto simp: unwrap_def Let_def split: if_splits intro: step)
qed

lemma insert_row_cols_row_inv:
  "insert_row_cols ti xs pk rd = Inr (pk', rd') \<Longrightarrow> row_inv ti rd \<Longrightarrow> row_inv ti rd'"
proof (rule insert_row_cols_preserves [where P = "row_inv ti"])
  fix r c ci v
  assume "row_inv ti r" and "map_of (column_properies ti) c = Some ci"
  then show "row_inv ti (r\<lparr>column_data := AList.update c (get_inner_raw_str v) (column_data r)\<rparr>)"
    by (auto simp: row_inv_def keys_distinct_update keys_update dest: map_of_SomeD intro: rev_image_eqI)
qed

lemma set_update_subset: "set (AList.update k v m) \<subseteq> insert (k, v) (set m)"
  by (induction m) auto

lemma row_inv_store_row [simp]: "row_inv (store_row k r ti) x = row_inv ti x"
  by (simp add: row_inv_def)

lemma row_data_store_row [simp]:
  "row_data (data (store_row k r ti)) = AList.update k r (row_data (data ti))"
  by (simp add: store_row_def)

lemma store_row_table_inv:
  assumes "table_inv ti" and "row_inv ti r"
  shows "table_inv (store_row k r ti)"
proof -
  have "\<forall>kr \<in> set (AList.update k r (row_data (data ti))). row_inv ti (snd kr)"
  proof
    fix kr
    assume "kr \<in> set (AList.update k r (row_data (data ti)))"
    then have "kr = (k, r) \<or> kr \<in> set (row_data (data ti))"
      using set_update_subset [of k r "row_data (data ti)"] by blast
    then show "row_inv ti (snd kr)"
    proof
      assume "kr = (k, r)"
      then show ?thesis using assms(2) by simp
    next
      assume "kr \<in> set (row_data (data ti))"
      then show ?thesis using assms(1) by (simp add: table_inv_def list_all_iff)
    qed
  qed
  with assms(1) show ?thesis
    unfolding table_inv_def list_all_iff by (simp add: keys_distinct_update)
qed

lemma insert_rows_table_inv:
  "table_inv ti \<Longrightarrow> table_inv (snd (insert_rows cols rows ti))"
proof (induction cols rows ti rule: insert_rows.induct)
  case (1 cols ti)
  then show ?case by simp
next
  case (2 cols val_row rest ti)
  have new: "row_inv ti new_row" by (simp add: row_inv_def new_row_def)
  show ?case
  proof (cases "length cols = length val_row")
    case False
    with "2.prems" show ?thesis by simp
  next
    case True
    show ?thesis
    proof (cases "insert_row_cols ti (zip cols val_row) [] new_row")
      case (Inl e)
      with True "2.prems" show ?thesis by simp
    next
      case (Inr res)
      obtain pk r where res: "res = (pk, r)" by (cases res)
      with Inr new have "row_inv ti r"
        using insert_row_cols_row_inv by blast
      with "2.prems" have "table_inv (store_row pk r ti)"
        by (rule store_row_table_inv)
      with "2.IH" True Inr res show ?thesis by simp
    qed
  qed
qed

lemma insert_values_keeps_inv:
  "table_inv ti \<Longrightarrow> table_inv (snd (insert_values cols rows ti))"
  by (simp add: insert_values_def Let_def insert_rows_table_inv)

text \<open>
  C9: rows are not inserted atomically: when a row of the batch has the wrong arity,
  the statement fails with \<open>wrong number of columns\<close> and every row before it
  stays stored.
\<close>

theorem insert_rows_partial_commit:
  assumes "fst (insert_rows cols good ti) = Inr ()" and "length bad \<noteq> length cols"
  shows "insert_rows cols (good @ bad # rest) ti =
           (Inl (Err ''wrong number of columns''), snd (insert_rows cols good ti))"
  using assms
proof (induction good arbitrary: ti)
  case Nil
  then show ?case by simp
next
  case (Cons r good)
  then show ?case
    by (auto split: if_splits sum.splits prod.splits)
qed

lemma insert_row_cols_no_pk:
  "primary_keys ti = [] \<Longrightarrow> insert_row_cols ti xs pk rd = Inr (pk', rd') \<Longrightarrow> pk' = pk"
  by (induction ti xs pk rd rule: insert_row_cols.induct)
     (auto simp: unwrap_def Let_def split: option.splits expr.splits)

lemma insert_rows_no_pk_keys:
  "primary_keys ti = [] \<Longrightarrow> keys_distinct (row_data (data ti)) \<Longrightarrow> fst ` set (row_data (data ti)) \<subseteq> {[]} \<Longrightarrow>
   keys_distinct (row_data (data (snd (insert_rows cols rows ti)))) \<and>
   fst ` set (row_data (data (snd (insert_rows cols rows ti)))) \<subseteq> {[]}"
proof (induction cols rows ti rule: insert_rows.induct)
  case (1 cols ti)
  then show ?case by simp
next
  case (2 cols val_row rest ti)
  show ?case
  proof (cases "length cols = length val_row")
    case False
    with "2.prems" show ?thesis by simp
  next
    case True
    show ?thesis
    proof (cases "insert_row_cols ti (zip cols val_row) [] new_row")
      case (Inl e)
      with True "2.prems" show ?thesis by simp
    next
      case (Inr res)
      obtain pk r where res: "res = (pk, r)" by (cases res)
      with Inr "2.prems"(1) have "pk = []"
        using insert_row_cols_no_pk by blast
      with "2.prems" have "keys_distinct (row_data (data (store_row pk r ti)))"
        and "fst ` set (row_data (data (store_row pk r ti))) \<subseteq> {[]}"
        by (simp_all add: keys_distinct_update keys_update)
      with "2.IH" True Inr res "2.prems"(1) show ?thesis by simp
    qed
  qed
qed

text \<open>
  C19: a table without a primary key stores at most one row: every row gets the empty
  composite key, so each insert replaces the previous row.
\<close>

theorem no_primary_key_single_row:
  assumes "primary_keys ti = []" and "row_data (data ti) = []"
  shows "length (row_data (data (snd (insert_values cols rows ti)))) \<le> 1"
proof -
  let ?rs = "row_data (data (snd (insert_values cols rows ti)))"
  have "keys_distinct ?rs \<and> fst ` set ?rs \<subseteq> {[]}"
    using assms insert_rows_no_pk_keys [of ti cols rows]
    by (simp add: insert_values_def Let_def)
  then have "distinct (map fst ?rs)" and "set (map fst ?rs) \<subseteq> {[]}"
    by (simp_all add: keys_distinct_def)
  then have "length (map fst ?rs) \<le> card {[] :: string}"
    by (metis card_mono distinct_card finite.emptyI finite_insert)
  then show ?thesis by simp
qed

text \<open>
  C15: a column accepts \<open>NULL\<close> exactly when its properties contain \<open>NULL\<close>,
  \<open>AUTO_INCREMENT\<close> or a \<open>DEFAULT\<close>; \<open>NOT NULL\<close> plays no part.
\<close>

theorem validate_value_null:
  "validate_value ci Null \<longleftrightarrow>
     (\<exists>p \<in> set (properties ci). p = CP_Null \<or> p = CP_AutoIncrement \<or> (\<exists>e. p = CP_Default e))"
proof -
  have "makes_nullable p \<longleftrightarrow> p = CP_Null \<or> p = CP_AutoIncrement \<or> (\<exists>e. p = CP_Default e)" for p
    by (cases p) (simp_all add: makes_nullable_def)
  then show ?thesis
    by (simp add: validate_value_def validate_value_for_col_def find_None_iff Bex_def)
qed

text \<open>
  C24: the composite key is not injective: on a table whose primary key is two
  columns, the rows \<open>('a_b', 'c')\<close> and \<open>('a', 'b_c')\<close> get the same key, so
  inserting both into an empty table leaves one row.
\<close>

theorem composite_key_collision:
  assumes "keys_distinct (column_properies t)" and "c1 \<noteq> c2"
    and "{c1, c2} \<subseteq> fst ` set (column_properies t)" and "primary_keys t = [c1, c2]"
    and "row_data (data t) = []" and "a \<noteq> []"
  shows "length (row_data (data (snd (insert_values [c1, c2]
           [[Value (SingleQuotedString (a @ ''_'' @ b)), Value (SingleQuotedString c)],
            [Value (SingleQuotedString a), Value (SingleQuotedString (b @ ''_'' @ c))]] t)))) = 1"
proof -
  have "insert_values [c1, c2] (map (map Value)
          [[SingleQuotedString (a @ ''_'' @ b), SingleQuotedString c],
           [SingleQuotedString a, SingleQuotedString (b @ ''_'' @ c)]]) t =
        (Inr (), upsert_literal_rows [c1, c2]
          [[SingleQuotedString (a @ ''_'' @ b), SingleQuotedString c],
           [SingleQuotedString a, SingleQuotedString (b @ ''_'' @ c)]] t)"
    by (rule insert_values_literals) (use assms in auto)
  then show ?thesis
    using assms(2,4,5,6)
    by (simp add: upsert_literal_rows_def expected_key_def store_row_def push_pk_def get_inner_raw_str_def)
qed

subsection \<open>Witnesses\<close>

lemmas users_defs = users_table_def new_table_info_def users_schema_def new_table_data_def

theorem insert_values_column_check_witness:
  "insert_values [''id'', ''id''] [] users_table =
     (Inl (Err ''the colummn list does not exist for table''), users_table)"
  using insert_values_column_check [of users_table "[''id'', ''id'']" "[]"]
  by (simp add: users_defs keys_distinct_def)

theorem insert_values_literal_rows_witness:
  "insert_values [''id'', ''name''] (map (map Value) [[Number ''1'' False, SingleQuotedString ''admin'']]) users_table =
     (Inr (), upsert_literal_rows [''id'', ''name''] [[Number ''1'' False, SingleQuotedString ''admin'']] users_table)"
  by (rule insert_values_literal_rows) (simp_all add: users_defs keys_distinct_def)

theorem last_write_wins_witness:
  "insert_values [''id'', ''name''] [map Value [Number ''1'' False, SingleQuotedString ''admin''],
                                     map Value [Number ''1'' False, SingleQuotedString ''root'']] users_table =
   insert_values [''id'', ''name''] [map Value [Number ''1'' False, SingleQuotedString ''root'']] users_table"
  by (rule last_write_wins)
     (simp_all add: users_defs keys_distinct_def expected_key_def push_pk_def get_inner_raw_str_def)

theorem insert_values_no_panic_witness:
  "fst (insert_values [''id''] [[OtherExpr ''now()'']] users_table) \<noteq>
     Inl (Panic ''called `Option::unwrap()` on a `None` value'')"
  by (rule insert_values_no_panic) (simp add: users_defs keys_distinct_def)

theorem insert_rows_partial_commit_witness:
  "insert_rows [''id''] ([[Value Null]] @ [] # [[Value Null]]) users_table =
     (Inl (Err ''wrong number of columns''), snd (insert_rows [''id''] [[Value Null]] users_table))"
proof (rule insert_rows_partial_commit)
  show "fst (insert_rows [''id''] [[Value Null]] users_table) = Inr ()"
    by (simp add: users_defs unwrap_def validate_value_def validate_value_for_col_def
        get_inner_raw_str_def push_pk_def new_row_def store_row_def)
qed simp

theorem no_primary_key_single_row_witness:
  "length (row_data (data (snd (insert_values [''name''] [[Value Null], [Value Null]]
     (users_table\<lparr>primary_keys := []\<rparr>))))) \<le> 1"
  by (rule no_primary_key_single_row) (simp_all add: users_defs)

theorem validate_value_null_witness:
  "validate_value \<lparr>type_name = DT_Text, properties = [CP_NotNull, CP_AutoIncrement]\<rparr> Null \<and>
   \<not> validate_value \<lparr>type_name = DT_Text, properties = [CP_NotNull]\<rparr> Null"
  using validate_value_null [of "\<lparr>type_name = DT_Text, properties = [CP_NotNull, CP_AutoIncrement]\<rparr>"]
        validate_value_null [of "\<lparr>type_name = DT_Text, properties = [CP_NotNull]\<rparr>"]
  by simp

theorem composite_key_collision_witness:
  "length (row_data (data (snd (insert_values [''id'', ''name'']
     [[Value (SingleQuotedString (''a'' @ ''_'' @ ''b'')), Value (SingleQuotedString ''c'')],
      [Value (SingleQuotedString ''a''), Value (SingleQuotedString (''b'' @ ''_'' @ ''c''))]]
     (users_table\<lparr>primary_keys := [''id'', ''name'']\<rparr>))))) = 1"
  by (rule composite_key_collision) (simp_all add: users_defs keys_distinct_def)

theorem count_found_equiv_witness:
  "count_found users_schema [''id'', ''id'', ''nick''] = card (set [''id'', ''id'', ''nick''] \<inter> fst ` set users_schema)"
  by (rule count_found_equiv) (simp add: users_schema_def keys_distinct_def)

end
