(* ===== verification/Codec.thy ===== *)
theory Codec
  imports Prelude
begin

text \<open>
  The payload of \<open>DataFetched\<close>. The source hands the rows
  (\<open>Vec<Vec<&Option<String>>>\<close>) to \<open>bitcode::encode\<close>, an external crate; the spec
  (section 6) fixes only the logical shape of the payload: a row count, then for each
  row a column count, then for each value a presence flag followed, when present, by
  the byte length and the bytes. This theory models that shape with counts and
  lengths as 8-byte little-endian \<open>u64\<close>, gives the matching decoder and proves the
  round trip. A character of an Isabelle \<^typ>\<open>string\<close> is one byte (the UTF-8
  encoding of the Rust string), written as an 8-bit word.
\<close>

section \<open>Fixed-width little-endian integers\<close>

fun le_bytes :: "nat \<Rightarrow> nat \<Rightarrow> byte list" where
  "le_bytes 0 n = []"
| "le_bytes (Suc w) n = of_nat (n mod 256) # le_bytes w (n div 256)"

fun from_le :: "byte list \<Rightarrow> nat" where
  "from_le [] = 0"
| "from_le (b # bs) = unat b + 256 * from_le bs"

definition byte_of_char :: "char \<Rightarrow> byte" where
  "byte_of_char c = of_nat (of_char c)"

definition char_of_byte :: "byte \<Rightarrow> char" where
  "char_of_byte b = char_of (unat b)"

section \<open>Encoder\<close>

definition encode_len :: "nat \<Rightarrow> byte list" where
  "encode_len n = le_bytes 8 n"

fun encode_value :: "string option \<Rightarrow> byte list" where
  "encode_value None = [0]"
| "encode_value (Some s) = 1 # encode_len (length s) @ map byte_of_char s"

definition encode_row :: "string option list \<Rightarrow> byte list" where
  "encode_row r = encode_len (length r) @ concat (map encode_value r)"

definition encode_rows :: "string option list list \<Rightarrow> byte list" where
  "encode_rows rs = encode_len (length rs) @ concat (map encode_row rs)"

section \<open>Decoder\<close>

definition decode_len :: "byte list \<Rightarrow> (nat \<times> byte list) option" where
  "decode_len bs = (if 8 \<le> length bs then Some (from_le (take 8 bs), drop 8 bs) else None)"

definition decode_value :: "byte list \<Rightarrow> (string option \<times> byte list) option" where
  "decode_value bs =
     (case bs of
        [] \<Rightarrow> None
      | f # r \<Rightarrow>
          if f = 0 then Some (None, r)
          else if f = 1 then
            (case decode_len r of
               None \<Rightarrow> None
             | Some (n, t) \<Rightarrow>
                 if n \<le> length t then Some (Some (map char_of_byte (take n t)), drop n t) else None)
          else None)"

text \<open>Decode \<open>n\<close> items one after the other with the item decoder \<open>dec\<close>.\<close>

fun decode_many :: "(byte list \<Rightarrow> ('a \<times> byte list) option) \<Rightarrow> nat \<Rightarrow> byte list \<Rightarrow> ('a list \<times> byte list) option" where
  "decode_many dec 0 bs = Some ([], bs)"
| "decode_many dec (Suc n) bs =
     (case dec bs of
        None \<Rightarrow> None
      | Some (x, r) \<Rightarrow> (case decode_many dec n r of None \<Rightarrow> None | Some (xs, t) \<Rightarrow> Some (x # xs, t)))"

definition decode_row :: "byte list \<Rightarrow> (string option list \<times> byte list) option" where
  "decode_row bs = (case decode_len bs of None \<Rightarrow> None | Some (n, r) \<Rightarrow> decode_many decode_value n r)"

definition decode_rows :: "byte list \<Rightarrow> string option list list option" where
  "decode_rows bs =
     (case decode_len bs of
        None \<Rightarrow> None
      | Some (n, r) \<Rightarrow>
          (case decode_many decode_row n r of Some (rs, []) \<Rightarrow> Some rs | _ \<Rightarrow> None))"

text \<open>Every length and count that the encoder writes fits in a \<open>u64\<close>.\<close>

definition encodable :: "string option list list \<Rightarrow> bool" where
  "encodable rs \<longleftrightarrow> length rs < 2 ^ 64 \<and>
     list_all (\<lambda>r. length r < 2 ^ 64 \<and>
                  list_all (\<lambda>v. case v of None \<Rightarrow> True | Some s \<Rightarrow> length s < 2 ^ 64) r) rs"

section \<open>Round trip\<close>

lemma length_le_bytes [simp]: "length (le_bytes w n) = w"
  by (induction w arbitrary: n) auto

lemma from_le_bytes: "n < 256 ^ w \<Longrightarrow> from_le (le_bytes w n) = n"
proof (induction w arbitrary: n)
  case 0
  then show ?case by simp
next
  case (Suc w)
  from Suc.prems have "n div 256 < 256 ^ w"
    by (simp add: less_mult_imp_div_less mult.commute)
  then have "from_le (le_bytes w (n div 256)) = n div 256"
    by (rule Suc.IH)
  then show ?case
    by (simp add: unat_of_nat)
qed

lemma decode_encode_len:
  "n < 2 ^ 64 \<Longrightarrow> decode_len (encode_len n @ rest) = Some (n, rest)"
  by (simp add: decode_len_def encode_len_def from_le_bytes)

lemma char_of_byte_of_char [simp]: "char_of_byte (byte_of_char c) = c"
  by (simp add: char_of_byte_def byte_of_char_def unat_of_nat)

lemma map_char_of_byte_of_char [simp]: "map (char_of_byte \<circ> byte_of_char) s = s"
  by (induction s) auto

lemma decode_encode_value:
  assumes "case v of None \<Rightarrow> True | Some s \<Rightarrow> length s < 2 ^ 64"
  shows "decode_value (encode_value v @ rest) = Some (v, rest)"
proof (cases v)
  case None
  then show ?thesis by (simp add: decode_value_def)
next
  case (Some s)
  with assms have "length s < 2 ^ 64" by simp
  then have "decode_len (encode_len (length s) @ map byte_of_char s @ rest)
               = Some (length s, map byte_of_char s @ rest)"
    by (rule decode_encode_len)
  with Some show ?thesis by (simp add: decode_value_def)
qed

lemma decode_many_concat:
  assumes "\<And>x rest. x \<in> set xs \<Longrightarrow> dec (enc x @ rest) = Some (x, rest)"
  shows "decode_many dec (length xs) (concat (map enc xs) @ rest) = Some (xs, rest)"
  using assms by (induction xs) auto

lemma decode_encode_row:
  assumes "length r < 2 ^ 64"
    and "list_all (\<lambda>v. case v of None \<Rightarrow> True | Some s \<Rightarrow> length s < 2 ^ 64) r"
  shows "decode_row (encode_row r @ rest) = Some (r, rest)"
proof -
  have "decode_many decode_value (length r) (concat (map encode_value r) @ rest) = Some (r, rest)"
    by (rule decode_many_concat) (use assms(2) in \<open>auto simp: list_all_iff intro: decode_encode_value\<close>)
  with assms(1) show ?thesis
    by (simp add: decode_row_def encode_row_def decode_encode_len)
qed

text \<open>
  The round trip of a whole payload: decoding an encoded row batch gives the batch
  back, whenever every count and length fits the \<open>u64\<close> that carries it.
\<close>

lemma decode_rows_encode_rows:
  assumes "encodable rs"
  shows "decode_rows (encode_rows rs) = Some rs"
proof -
  have "decode_many decode_row (length rs) (concat (map encode_row rs) @ []) = Some (rs, [])"
    by (rule decode_many_concat)
       (use assms in \<open>auto simp: encodable_def list_all_iff intro: decode_encode_row\<close>)
  moreover from assms have "length rs < 2 ^ 64"
    by (simp add: encodable_def)
  ultimately show ?thesis
    by (simp add: decode_rows_def encode_rows_def decode_encode_len)
qed

end
