(* ===== verification/Executor.thy ===== *)
theory Executor
  imports DataDescriptor Codec
begin

text \<open>
  \<open>Execute::execute\<close> for \<open>Statement\<close> (\<open>src/src/executor.rs\<close>): one parsed
  statement against the database. The result is the Rust \<open>Result<SuccessStatus,
  String>\<close> (a returned \<open>Err\<close> is \<^term>\<open>Inl (Err m)\<close>; a panic of an \<open>expect\<close>
  or \<open>unwrap\<close> is \<^term>\<open>Inl (Panic m)\<close>), paired with the database after the
  statement. The loops of the source are the recursive functions below, in the
  source's order: column options, then columns (\<open>CREATE TABLE\<close>), then the
  \<open>FROM\<close> list and the projection (\<open>SELECT\<close>).
\<close>

datatype success_status = TableCreated string | DataInserted | DataFetched "byte list"

text \<open>\<open>name_idents.get(0).expect("A valid table name must be provided")\<close>\<close>

definition first_ident :: "object_name \<Rightarrow> string result" where
  "first_ident n = (case n of [] \<Rightarrow> Inl (Panic ''A valid table name must be provided'')
                             | x # _ \<Rightarrow> Inr x)"

section \<open>CREATE TABLE\<close>

text \<open>
  The loop \<open>for option_def in column.options\<close>: it appends to the column's property
  list and to the table's primary-key and index lists.
\<close>

fun translate_options ::
  "string \<Rightarrow> column_option list \<Rightarrow> column_properties list \<Rightarrow> string list \<Rightarrow> string list
   \<Rightarrow> (column_properties list \<times> string list \<times> string list) result"
where
  "translate_options col [] props pks idx = Inr (props, pks, idx)"
| "translate_options col (opt # opts) props pks idx =
     (case opt of
        CO_Null \<Rightarrow> translate_options col opts (props @ [CP_Null]) pks idx
      | CO_NotNull \<Rightarrow> translate_options col opts (props @ [CP_NotNull]) pks idx
      | CO_Default e \<Rightarrow> translate_options col opts (props @ [CP_Default e]) pks idx
      | CO_Unique is_primary \<Rightarrow>
          (let props' = (if is_primary then props @ [CP_PriamryKey] else props);
               pks' = (if is_primary then pks @ [col] else pks)
           in translate_options col opts (props' @ [CP_Unique]) pks' (idx @ [col]))
      | CO_ForeignKey ft rc od ou \<Rightarrow>
          (case first_ident ft of
             Inl e \<Rightarrow> Inl e
           | Inr f \<Rightarrow> translate_options col opts (props @ [CP_ForeignKey f rc od ou]) pks idx)
      | CO_OnUpdate e \<Rightarrow> translate_options col opts (props @ [CP_OnUpdate e]) pks idx
      | CO_DialectSpecific tokens \<Rightarrow>
          (case unwrap (if tokens = [] then None else Some (hd tokens)) of
             Inl e \<Rightarrow> Inl e
           | Inr (Word _) \<Rightarrow> translate_options col opts (props @ [CP_AutoIncrement]) pks idx
           | Inr (OtherToken _) \<Rightarrow> translate_options col opts props pks idx)
      | CO_Other _ \<Rightarrow> translate_options col opts props pks idx)"

text \<open>The loop \<open>for column in columns\<close>, building \<open>column_properies\<close>.\<close>

fun translate_columns ::
  "column_def list \<Rightarrow> string list \<Rightarrow> string list \<Rightarrow> (string, column_info) hash_map
   \<Rightarrow> (string list \<times> string list \<times> (string, column_info) hash_map) result"
where
  "translate_columns [] pks idx cps = Inr (pks, idx, cps)"
| "translate_columns (column # rest) pks idx cps =
     (case translate_options (col_name column) (col_options column) [] pks idx of
        Inl e \<Rightarrow> Inl e
      | Inr (props, pks', idx') \<Rightarrow>
          translate_columns rest pks' idx'
            (AList.update (col_name column)
               \<lparr>type_name = col_data_type column, properties = props\<rparr> cps))"

section \<open>SELECT\<close>

text \<open>
  The loop \<open>for projection in &select_q.projection\<close> over one table: each wildcard
  appends the encoded rows, any other item is unsupported.
\<close>

fun project_items :: "select_item list \<Rightarrow> table_info \<Rightarrow> byte list \<Rightarrow> byte list result" where
  "project_items [] t acc = Inr acc"
| "project_items (Wildcard # rest) t acc =
     (case find_all t WildCard of
        Inl e \<Rightarrow> Inl e
      | Inr rows \<Rightarrow> project_items rest t (acc @ encode_rows rows))"
| "project_items (_ # rest) t acc = Inl (Err ''not yet implemented'')"

text \<open>The loop \<open>for data_from in &*select_q.from\<close>.\<close>

fun select_from ::
  "table_factor list \<Rightarrow> select_item list \<Rightarrow> data_base \<Rightarrow> byte list \<Rightarrow> success_status result"
where
  "select_from [] items db acc = Inr (DataFetched acc)"
| "select_from (Table name # rest) items db acc =
     (case first_ident name of
        Inl e \<Rightarrow> Inl e
      | Inr table_name_str \<Rightarrow>
          (case get_table_ref db table_name_str of
             Some t \<Rightarrow>
               (case project_items items t acc of
                  Inl e \<Rightarrow> Inl e
                | Inr acc' \<Rightarrow> select_from rest items db acc')
           | None \<Rightarrow> Inl (Err (''No table named '' @ table_name_str @ '' exists''))))"
| "select_from (OtherFactor _ # rest) items db acc = Inl (Err ''not yet implemented'')"

section \<open>The statement executor\<close>

text \<open>
  \<open>INSERT\<close>: the outcome of \<open>insert_values\<close> is dropped by the source (the
  statement answers \<open>DataInserted\<close> whatever it was), but a panic inside it would
  unwind through \<open>execute\<close>, so a panic is passed on.
\<close>

fun execute :: "statement \<Rightarrow> data_base \<Rightarrow> success_status result \<times> data_base" where
  "execute (CreateTable name columns) db =
     (case first_ident name of
        Inl e \<Rightarrow> (Inl e, db)
      | Inr table_name_str \<Rightarrow>
          (case translate_columns columns [] [] [] of
             Inl e \<Rightarrow> (Inl e, db)
           | Inr (pks, idx, cps) \<Rightarrow>
               (Inr (TableCreated table_name_str), create_table table_name_str pks idx cps db)))"
| "execute (Insert tname columns source) db =
     (case first_ident tname of
        Inl e \<Rightarrow> (Inl e, db)
      | Inr table_name_str \<Rightarrow>
          (case source of
             None \<Rightarrow> (Inl (Panic ''No values to insert provided''), db)
           | Some body \<Rightarrow>
               (let values = (case body of Values rows \<Rightarrow> rows | _ \<Rightarrow> [])
                in case get_table_ref db table_name_str of
                     Some table \<Rightarrow>
                       (case insert_values columns values table of
                          (Inl (Panic m), table') \<Rightarrow> (Inl (Panic m), put_table table_name_str table' db)
                        | (_, table') \<Rightarrow> (Inr DataInserted, put_table table_name_str table' db))
                   | None \<Rightarrow> (Inl (Err (''No table named '' @ table_name_str @ '' exists'')), db))))"
| "execute (Query body) db =
     (case body of
        Select select_q \<Rightarrow> (select_from (from_list select_q) (projection select_q) db [], db)
      | _ \<Rightarrow> (Inl (Err ''not yet implemented''), db))"
| "execute (OtherStatement _) db = (Inl (Err ''not yet implemented''), db)"

text \<open>A sequence of statements, as \<open>main\<close> runs them, each on the state the previous left.\<close>

fun execute_all :: "statement list \<Rightarrow> data_base \<Rightarrow> success_status result list \<times> data_base" where
  "execute_all [] db = ([], db)"
| "execute_all (st # sts) db =
     (let (r, db') = execute st db; (rs, db'') = execute_all sts db' in (r # rs, db''))"

section \<open>Invariant and example\<close>

text \<open>
  \<^term>\<open>db_inv\<close> is the well-formedness of the catalog; \<^term>\<open>reachable\<close> is the
  set of databases that \<open>main\<close> can build from \<open>Database::new\<close> one statement
  at a time. \<^term>\<open>users_columns\<close> is the column list of
  \<open>CREATE TABLE users (id BIGINT(20) PRIMARY KEY AUTO_INCREMENT, name VARCHAR(255) NOT NULL)\<close>
  as the parser delivers it.
\<close>

definition db_inv :: "data_base \<Rightarrow> bool" where
  "db_inv db \<longleftrightarrow> keys_distinct (tables db) \<and> list_all (\<lambda>nt. table_inv (snd nt)) (tables db)"

inductive reachable :: "data_base \<Rightarrow> bool" where
  start: "reachable new_data_base"
| step: "reachable db \<Longrightarrow> reachable (snd (execute st db))"

text \<open>The rows of the \<open>VALUES\<close> body of an \<open>INSERT\<close>, as \<open>execute\<close> extracts them.\<close>

definition insert_rows_of :: "set_expr \<Rightarrow> expr list list" where
  "insert_rows_of body = (case body of Values rows \<Rightarrow> rows | _ \<Rightarrow> [])"

definition users_columns :: "column_def list" where
  "users_columns =
     [\<lparr>col_name = ''id'', col_data_type = DT_BigInt (Some 20),
       col_options = [CO_Unique True, CO_DialectSpecific [Word ''AUTO_INCREMENT'']]\<rparr>,
      \<lparr>col_name = ''name'', col_data_type = DT_Varchar (Some (IntegerLength 255 None)),
       col_options = [CO_NotNull]\<rparr>]"

definition users_db :: data_base where
  "users_db = snd (execute (CreateTable [''users''] users_columns) new_data_base)"

text \<open>\<^term>\<open>main_columns\<close>: the column list of the \<open>CREATE TABLE\<close> of \<open>main.rs\<close>.\<close>

definition main_columns :: "column_def list" where
  "main_columns = users_columns @
     [\<lparr>col_name = ''password'', col_data_type = DT_Varchar (Some (IntegerLength 255 None)),
       col_options = [CO_NotNull]\<rparr>]"

section \<open>Properties of the executor\<close>

lemma translate_columns_keys_distinct:
  "translate_columns cols pks idx cps = Inr (pks', idx', cps') \<Longrightarrow> keys_distinct cps \<Longrightarrow> keys_distinct cps'"
proof (induction cols arbitrary: pks idx cps)
  case Nil
  then show ?case by simp
next
  case (Cons column rest)
  from Cons.prems(1) obtain props pks1 idx1 where
    "translate_columns rest pks1 idx1
       (AList.update (col_name column) \<lparr>type_name = col_data_type column, properties = props\<rparr> cps) =
     Inr (pks', idx', cps')"
    by (auto split: sum.splits prod.splits)
  then show ?case
    by (rule Cons.IH) (rule keys_distinct_update [OF Cons.prems(2)])
qed

lemma table_inv_new_table_info:
  "keys_distinct cps \<Longrightarrow> table_inv (new_table_info n pks idx cps)"
  by (simp add: table_inv_def new_table_info_def new_table_data_def)

lemma db_inv_update:
  assumes "db_inv db" and "table_inv t"
  shows "db_inv (db\<lparr>tables := AList.update n t (tables db)\<rparr>)"
  using assms set_update_subset [of n t "tables db"]
  by (auto simp: db_inv_def list_all_iff keys_distinct_update)

lemma get_table_ref_inv:
  "db_inv db \<Longrightarrow> get_table_ref db n = Some t \<Longrightarrow> table_inv t"
  unfolding db_inv_def get_table_ref_def list_all_iff by (metis map_of_SomeD snd_conv)

lemma execute_insert:
  "execute (Insert (n # rest) cols (Some body)) db =
     (case get_table_ref db n of
        Some t \<Rightarrow>
          (case fst (insert_values cols (insert_rows_of body) t) of
             Inl (Panic m) \<Rightarrow> Inl (Panic m) | _ \<Rightarrow> Inr DataInserted,
           put_table n (snd (insert_values cols (insert_rows_of body) t)) db)
      | None \<Rightarrow> (Inl (Err (''No table named '' @ n @ '' exists'')), db))"
  by (auto simp: first_ident_def insert_rows_of_def Let_def split: option.splits prod.splits sum.splits error.splits)

text \<open>
  Every statement leaves the database as it was, replaces a table by a fresh one built
  from a successful translation of its columns, or writes back an existing table after
  \<open>insert_values\<close>: the invariants of the catalog are proved once per case.
\<close>

lemma execute_shape:
  "snd (execute st db) = db \<or>
   (\<exists>n columns pks idx cps. translate_columns columns [] [] [] = Inr (pks, idx, cps) \<and>
      snd (execute st db) = create_table n pks idx cps db) \<or>
   (\<exists>n t cols rows. get_table_ref db n = Some t \<and>
      snd (execute st db) = put_table n (snd (insert_values cols rows t)) db)"
proof (cases st)
  case (CreateTable name columns)
  show ?thesis
  proof (cases "name \<noteq> [] \<and> (\<exists>pks idx cps. translate_columns columns [] [] [] = Inr (pks, idx, cps))")
    case True
    then obtain n rest pks idx cps where "name = n # rest"
      and tr: "translate_columns columns [] [] [] = Inr (pks, idx, cps)"
      by (auto simp: neq_Nil_conv)
    with CreateTable have "snd (execute st db) = create_table n pks idx cps db"
      by (simp add: first_ident_def)
    with tr show ?thesis by blast
  next
    case False
    with CreateTable show ?thesis
      by (auto simp: first_ident_def split: list.splits sum.splits)
  qed
next
  case (Insert tname cols source)
  show ?thesis
  proof (cases "tname \<noteq> [] \<and> source \<noteq> None")
    case True
    then obtain n rest body where st: "st = Insert (n # rest) cols (Some body)"
      using Insert by (auto simp: neq_Nil_conv)
    show ?thesis
    proof (cases "get_table_ref db n")
      case None
      then show ?thesis unfolding st execute_insert by simp
    next
      case (Some t)
      then have "snd (execute st db) = put_table n (snd (insert_values cols (insert_rows_of body) t)) db"
        unfolding st execute_insert by simp
      with Some show ?thesis by blast
    qed
  next
    case False
    with Insert show ?thesis
      by (auto simp: first_ident_def split: list.splits)
  qed
qed (auto split: set_expr.splits)

lemma execute_keeps_inv:
  assumes "db_inv db"
  shows "db_inv (snd (execute st db))"
  using execute_shape [of st db] assms
  by (auto simp: create_table_def put_table_def
      intro!: db_inv_update table_inv_new_table_info insert_values_keeps_inv
      dest: translate_columns_keys_distinct get_table_ref_inv)

lemma reachable_inv: "reachable db \<Longrightarrow> db_inv db"
proof (induction rule: reachable.induct)
  case start
  then show ?case by (simp add: db_inv_def new_data_base_def)
next
  case (step db st)
  from step.IH show ?case by (rule execute_keeps_inv)
qed

lemma insert_existing_table:
  assumes "get_table_ref db n = Some t" and "keys_distinct (column_properies t)"
  shows "execute (Insert (n # rest) cols (Some (Values rows))) db =
           (Inr DataInserted, put_table n (snd (insert_values cols rows t)) db)"
proof -
  have "fst (insert_values cols rows t) \<noteq> Inl (Panic m)" for m
    using assms(2) by (rule insert_values_never_panics)
  then show ?thesis
    using assms(1) unfolding execute_insert
    by (simp add: insert_rows_of_def split: sum.splits error.splits)
qed

text \<open>
  C8: an \<open>INSERT\<close> into an existing table (with distinct column names) always
  answers \<open>DataInserted\<close>, whatever \<open>insert_values\<close> returned: a column-list
  error, an arity error or an unsupported expression is not reported, and the table
  is written back as \<open>insert_values\<close> left it.
\<close>

theorem insert_outcome_ignored:
  assumes "get_table_ref db n = Some t" and "keys_distinct (column_properies t)"
  shows "execute (Insert (n # rest) cols (Some (Values rows))) db =
           (Inr DataInserted, put_table n (snd (insert_values cols rows t)) db)"
  using assms by (rule insert_existing_table)

text \<open>
  C20: on a reachable database an \<open>INSERT ... VALUES\<close> naming a table never
  panics: it answers \<open>DataInserted\<close> or the missing-table error.
\<close>

theorem reachable_insert_no_panic:
  assumes "reachable db"
  shows "fst (execute (Insert (n # rest) cols (Some body)) db) \<in>
           {Inr DataInserted, Inl (Err (''No table named '' @ n @ '' exists''))}"
proof (cases "get_table_ref db n")
  case None
  then show ?thesis unfolding execute_insert by simp
next
  case (Some t)
  have "keys_distinct (column_properies t)"
    using reachable_inv [OF assms] Some by (auto simp: table_inv_def dest: get_table_ref_inv)
  then have "fst (insert_values cols (insert_rows_of body) t) \<noteq> Inl (Panic m)" for m
    by (rule insert_values_never_panics)
  with Some show ?thesis
    unfolding execute_insert by (simp split: sum.splits error.splits)
qed

text \<open>
  C23: a \<open>SELECT\<close> whose first \<open>FROM\<close> table does not exist fails with
  \<open>No table named ... exists\<close> and leaves the database unchanged.
\<close>

theorem select_missing_table:
  assumes "get_table_ref db n = None"
  shows "execute (Query (Select \<lparr>projection = items, from_list = Table (n # r) # fs\<rparr>)) db =
           (Inl (Err (''No table named '' @ n @ '' exists'')), db)"
  using assms by (simp add: first_ident_def)

lemma select_wildcard_rows:
  assumes "get_table_ref db n = Some t"
  shows "execute (Query (Select \<lparr>projection = [Wildcard], from_list = [Table (n # r)]\<rparr>)) db =
           (Inr (DataFetched (encode_rows (map (\<lambda>(_, row). map snd (column_data row)) (row_data (data t))))), db)"
  using assms by (simp add: first_ident_def find_all_def find_all_data_def get_wild_card_def [abs_def])

text \<open>
  C22: \<open>SELECT * FROM t\<close> on an existing table answers \<open>DataFetched\<close> with the
  encoding of every stored row, each as the values of its column map, in the row
  map's order, and does not change the database.
\<close>

theorem select_wildcard:
  assumes "get_table_ref db n = Some t"
  shows "execute (Query (Select \<lparr>projection = [Wildcard], from_list = [Table (n # r)]\<rparr>)) db =
           (Inr (DataFetched (encode_rows (map (\<lambda>(_, row). map snd (column_data row)) (row_data (data t))))), db)"
  using assms by (rule select_wildcard_rows)

lemma translate_options_pks:
  "translate_options col opts props pks idx = Inr (props', pks', idx') \<Longrightarrow>
     pks' = pks @ replicate (count_list opts (CO_Unique True)) col"
proof (induction col opts props pks idx rule: translate_options.induct)
  case (1 col props pks idx)
  then show ?case by simp
next
  case (2 col opt opts props pks idx)
  then show ?case
    by (cases opt) (auto simp: Let_def split: sum.splits token.splits if_splits)
qed

text \<open>
  C25: the primary-key list that \<open>CREATE TABLE\<close> registers is the name of each
  column once per \<open>PRIMARY KEY\<close> option it carries, in declaration order.
\<close>

theorem create_table_primary_keys:
  "translate_columns cols pks idx cps = Inr (pks', idx', cps') \<Longrightarrow>
     pks' = pks @ concat (map (\<lambda>c. replicate (count_list (col_options c) (CO_Unique True)) (col_name c)) cols)"
proof (induction cols arbitrary: pks idx cps)
  case Nil
  then show ?case by simp
next
  case (Cons column rest)
  from Cons.prems obtain props pks1 idx1 where
    o: "translate_options (col_name column) (col_options column) [] pks idx = Inr (props, pks1, idx1)" and
    r: "translate_columns rest pks1 idx1
          (AList.update (col_name column) \<lparr>type_name = col_data_type column, properties = props\<rparr> cps) =
        Inr (pks', idx', cps')"
    by (auto split: sum.splits prod.splits)
  from r have "pks' = pks1 @ concat (map (\<lambda>c. replicate (count_list (col_options c) (CO_Unique True)) (col_name c)) rest)"
    by (rule Cons.IH)
  with translate_options_pks [OF o] show ?case by simp
qed

text \<open>
  C26: a \<open>SELECT\<close> whose first projection item is not \<open>*\<close> is rejected as not yet
  implemented and leaves the database unchanged.
\<close>

theorem named_projection_rejected:
  assumes "get_table_ref db n = Some t" and "item \<noteq> Wildcard"
  shows "execute (Query (Select \<lparr>projection = item # items, from_list = [Table (n # r)]\<rparr>)) db =
           (Inl (Err ''not yet implemented''), db)"
  using assms by (cases item) (simp_all add: first_ident_def)

lemma execute_all_reachable:
  "reachable db \<Longrightarrow> reachable (snd (execute_all sts db))"
proof (induction sts arbitrary: db)
  case Nil
  then show ?case by simp
next
  case (Cons st sts)
  have "reachable (snd (execute st db))" using Cons.prems by (rule reachable.step)
  then have "reachable (snd (execute_all sts (snd (execute st db))))" by (rule Cons.IH)
  then show ?case by (simp add: split_def Let_def)
qed

lemmas script_defs = main_columns_def users_columns_def first_ident_def unwrap_def
  create_table_def new_data_base_def get_table_ref_def put_table_def new_table_info_def new_table_data_def
  insert_values_def count_found_def new_row_def store_row_def push_pk_def get_inner_raw_str_def
  validate_value_def makes_nullable_def validate_value_for_col_def validate_value_for_integer_def
  validate_value_for_char_def parse_u64_def digits_nat_def is_digit_def digit_val_def len_u64_def
  ABSOLUTE_CHAR_MAX_def find_all_def find_all_data_def get_wild_card_def

subsection \<open>Witnesses\<close>

lemma users_db_table: "get_table_ref users_db ''users'' = Some users_table"
  by (simp add: users_db_def users_columns_def first_ident_def unwrap_def create_table_def
      new_data_base_def get_table_ref_def users_table_def new_table_info_def users_schema_def)

lemma reachable_users_db: "reachable users_db"
  unfolding users_db_def by (rule reachable.step [OF reachable.start])

theorem insert_outcome_ignored_witness:
  "fst (insert_values [''id'', ''name''] [[Value (Number ''1'' False)]] users_table) =
     Inl (Err ''wrong number of columns'') \<and>
   execute (Insert [''users''] [''id'', ''name''] (Some (Values [[Value (Number ''1'' False)]]))) users_db =
     (Inr DataInserted, put_table ''users'' users_table users_db)"
proof -
  have t: "insert_values [''id'', ''name''] [[Value (Number ''1'' False)]] users_table =
             (Inl (Err ''wrong number of columns''), users_table)"
    by (simp add: insert_values_def count_found_def users_defs)
  have "keys_distinct (column_properies users_table)"
    by (simp add: users_defs keys_distinct_def)
  with insert_outcome_ignored [OF users_db_table, of "[]" "[''id'', ''name'']" "[[Value (Number ''1'' False)]]"] t
  show ?thesis by simp
qed

theorem reachable_insert_no_panic_witness:
  "reachable users_db \<and>
   fst (execute (Insert [''users''] [''id''] (Some (Values [[OtherExpr ''now()'']]))) users_db) \<in>
     {Inr DataInserted, Inl (Err (''No table named '' @ ''users'' @ '' exists''))}"
  using reachable_insert_no_panic [OF reachable_users_db, of "''users''" "[]" "[''id'']"] reachable_users_db
  by simp

theorem select_missing_table_witness:
  "get_table_ref new_data_base ''t'' = None \<and>
   execute (Query (Select \<lparr>projection = [Wildcard], from_list = [Table [''t'']]\<rparr>)) new_data_base =
     (Inl (Err (''No table named '' @ ''t'' @ '' exists'')), new_data_base)"
  using select_missing_table [of new_data_base "''t''" "[Wildcard]" "[]" "[]"]
  by (simp add: get_table_ref_def new_data_base_def)

theorem select_wildcard_witness:
  "execute (Query (Select \<lparr>projection = [Wildcard], from_list = [Table [''users'']]\<rparr>)) users_db =
     (Inr (DataFetched (encode_rows [])), users_db)"
  using select_wildcard [OF users_db_table, of "[]"]
  by (simp add: users_defs)

theorem create_table_primary_keys_witness:
  "\<exists>idx cps. translate_columns main_columns [] [] [] = Inr ([''id''], idx, cps) \<and>
     [''id''] = [] @ concat (map (\<lambda>c. replicate (count_list (col_options c) (CO_Unique True)) (col_name c))
                          main_columns)"
proof -
  obtain idx cps where t: "translate_columns main_columns [] [] [] = Inr ([''id''], idx, cps)"
    by (simp add: main_columns_def users_columns_def unwrap_def)
  show ?thesis
    using t create_table_primary_keys [OF t] by blast
qed

theorem named_projection_rejected_witness:
  "execute (Query (Select \<lparr>projection = [UnnamedExpr (Value (Number ''1'' False))],
                            from_list = [Table [''users'']]\<rparr>)) users_db =
     (Inl (Err ''not yet implemented''), users_db)"
  by (rule named_projection_rejected [OF users_db_table]) simp

end
