(* ===== verification/CatalogSpec.thy ===== *)
theory CatalogSpec
  imports Executor
begin

text \<open>
  The contract of the catalog (spec, section 4.4) as an abstract state, and the proofs
  that the executor implements it. A table is abstracted to its schema as a map from
  column names, its primary-key list, and its rows as a map from composite key to a
  map from column name to raw value, so the hash-map orders of the implementation are
  forgotten. \<^term>\<open>a_create\<close> and \<^term>\<open>a_insert\<close> are the abstract operations;
  \<^term>\<open>abs_db\<close> is the abstraction function, and the refinement theorems state
  \<open>abs_db (execute st db) = a_op (abs_db db)\<close>. The second part is a typing
  invariant of the stored data over all reachable databases.
\<close>

section \<open>Abstract catalog\<close>

record a_table =
  a_schema :: "string \<rightharpoonup> column_info"
  a_pks :: "string list"
  a_rows :: "string \<rightharpoonup> (string \<rightharpoonup> string option)"

type_synonym a_catalog = "string \<rightharpoonup> a_table"

definition abs_table :: "table_info \<Rightarrow> a_table" where
  "abs_table t =
     \<lparr>a_schema = map_of (column_properies t), a_pks = primary_keys t,
      a_rows = (\<lambda>k. map_option (\<lambda>r. map_of (column_data r)) (map_of (row_data (data t)) k))\<rparr>"

definition abs_db :: "data_base \<Rightarrow> a_catalog" where
  "abs_db db = (\<lambda>n. map_option abs_table (map_of (tables db) n))"

definition a_create :: "string \<Rightarrow> (string \<rightharpoonup> column_info) \<Rightarrow> string list \<Rightarrow> a_catalog \<Rightarrow> a_catalog" where
  "a_create n schema pks C = C(n \<mapsto> \<lparr>a_schema = schema, a_pks = pks, a_rows = Map.empty\<rparr>)"

definition a_key :: "a_table \<Rightarrow> (string \<times> sql_value) list \<Rightarrow> string" where
  "a_key A ps = composite_key [] (map (\<lambda>(c, v). get_inner_raw_str v) (filter (\<lambda>(c, v). c \<in> set (a_pks A)) ps))"

definition a_row :: "a_table \<Rightarrow> (string \<times> sql_value) list \<Rightarrow> (string \<rightharpoonup> string option)" where
  "a_row A ps =
     map_of (map (\<lambda>(c, v). (c, get_inner_raw_str v))
       (filter (\<lambda>(c, v). validate_value (the (a_schema A c)) v) ps))"

definition a_insert :: "string list \<Rightarrow> sql_value list list \<Rightarrow> a_table \<Rightarrow> a_table" where
  "a_insert cols vss A =
     foldl (\<lambda>A vs. A\<lparr>a_rows := (a_rows A)(a_key A (zip cols vs) \<mapsto> a_row A (zip cols vs))\<rparr>) A vss"

section \<open>Typing of stored values\<close>

text \<open>The raw text a \<open>BIGINT\<close> column may hold.\<close>

definition bigint_raw_ok :: "string option \<Rightarrow> bool" where
  "bigint_raw_ok raw = (case raw of None \<Rightarrow> True | Some s \<Rightarrow> parse_u64 s \<noteq> None)"

text \<open>
  A stored row is valid when each of its entries belongs to a schema column and holds
  the raw text of a literal that column's validation accepts.
\<close>

definition row_valid :: "table_info \<Rightarrow> table_row_data \<Rightarrow> bool" where
  "row_valid t r =
     list_all (\<lambda>(c, raw). \<exists>ci. map_of (column_properies t) c = Some ci \<and>
                               (\<exists>v. validate_value ci v \<and> raw = get_inner_raw_str v)) (column_data r)"

definition table_valid :: "table_info \<Rightarrow> bool" where
  "table_valid t = list_all (\<lambda>(k, r). row_valid t r) (row_data (data t))"

definition db_valid :: "data_base \<Rightarrow> bool" where
  "db_valid db = list_all (\<lambda>(n, t). table_valid t) (tables db)"

section \<open>Refinement\<close>

lemma abs_table_store_row:
  "abs_table (store_row k r t) = (abs_table t)\<lparr>a_rows := (a_rows (abs_table t))(k \<mapsto> map_of (column_data r))\<rparr>"
  by (simp add: abs_table_def store_row_def fun_eq_iff)

lemma a_key_abs [simp]: "a_key (abs_table t) ps = expected_key t ps"
  by (simp add: a_key_def expected_key_def abs_table_def)

lemma a_row_abs [simp]: "a_row (abs_table t) ps = map_of (expected_row t ps)"
  by (simp add: a_row_def expected_row_def abs_table_def)

lemma abs_upsert_literal_rows:
  "abs_table (upsert_literal_rows cols vss t) = a_insert cols vss (abs_table t)"
proof (induction vss arbitrary: t)
  case Nil
  then show ?case by (simp add: upsert_literal_rows_def a_insert_def)
next
  case (Cons vs vss)
  let ?t' = "store_row (expected_key t (zip cols vs)) \<lparr>column_data = expected_row t (zip cols vs)\<rparr> t"
  have "abs_table (upsert_literal_rows cols vss ?t') = a_insert cols vss (abs_table ?t')"
    by (rule Cons.IH)
  moreover have "expected_key ?t' = expected_key t" and "expected_row ?t' = expected_row t"
    by (simp_all add: fun_eq_iff expected_key_def expected_row_def)
  ultimately show ?case
    by (simp add: upsert_literal_rows_def a_insert_def abs_table_store_row)
qed

lemma abs_db_update: "abs_db (db\<lparr>tables := AList.update n t (tables db)\<rparr>) = (abs_db db)(n \<mapsto> abs_table t)"
  by (simp add: abs_db_def fun_eq_iff)

text \<open>
  C31: \<open>CREATE TABLE\<close> refines the abstract creation: whenever the column
  definitions translate, the abstract catalog after the statement is the one before
  with the name bound to the translated schema, its primary keys, and no rows,
  whether or not the name was bound before.
\<close>

theorem create_table_refines:
  assumes "translate_columns columns [] [] [] = Inr (pks, idx, cps)"
  shows "abs_db (snd (execute (CreateTable (n # r) columns) db)) = a_create n (map_of cps) pks (abs_db db)"
proof -
  have "abs_table (new_table_info n pks idx cps) = \<lparr>a_schema = map_of cps, a_pks = pks, a_rows = Map.empty\<rparr>"
    by (simp add: abs_table_def new_table_info_def new_table_data_def fun_eq_iff)
  with assms show ?thesis
    by (simp add: first_ident_def create_table_def abs_db_update a_create_def)
qed

text \<open>
  C32: an \<open>INSERT\<close> of literal rows into an existing table of a well-formed database,
  over a non-empty list of distinct schema columns with rows of its length, refines
  the abstract insertion: the abstract table becomes the one where each row, in
  order, is bound under its key to the map of its validated values.
\<close>

theorem insert_refines:
  assumes "db_inv db" and "abs_db db n = Some A" and "cols \<noteq> []" and "distinct cols"
    and "set cols \<subseteq> dom (a_schema A)" and "list_all (\<lambda>vs. length vs = length cols) vss"
  shows "abs_db (snd (execute (Insert (n # r) cols (Some (Values (map (map Value) vss)))) db)) =
           (abs_db db)(n \<mapsto> a_insert cols vss A)"
proof -
  obtain t where t: "get_table_ref db n = Some t" and A: "A = abs_table t"
    using assms(2) by (auto simp: abs_db_def get_table_ref_def)
  have kd: "keys_distinct (column_properies t)"
    using get_table_ref_inv [OF assms(1) t] by (simp add: table_inv_def)
  have sub: "set cols \<subseteq> fst ` set (column_properies t)"
    using assms(5) by (simp add: A abs_table_def dom_map_of_conv_image_fst)
  have "insert_values cols (map (map Value) vss) t = (Inr (), upsert_literal_rows cols vss t)"
    using kd assms(3,4) sub assms(6) by (rule insert_values_literals)
  then show ?thesis
    using insert_existing_table [OF t kd, of r cols "map (map Value) vss"]
    by (simp add: put_table_def abs_db_update abs_upsert_literal_rows A)
qed


section \<open>Typing invariant\<close>

lemma bigint_valid_raw:
  "validate_value_for_col (DT_BigInt l) v nl \<Longrightarrow> bigint_raw_ok (get_inner_raw_str v)"
  by (cases v) (auto simp: validate_value_for_col_def validate_value_for_integer_def Let_def
      bigint_raw_ok_def get_inner_raw_str_def split: if_splits)

lemma row_valid_update:
  assumes "row_valid t r" and "map_of (column_properies t) c = Some ci" and "validate_value ci v"
  shows "row_valid t (r\<lparr>column_data := AList.update c (get_inner_raw_str v) (column_data r)\<rparr>)"
  using assms set_update_subset [of c "get_inner_raw_str v" "column_data r"]
  by (fastforce simp: row_valid_def list_all_iff)

lemma insert_row_cols_valid:
  "insert_row_cols ti xs pk rd = Inr (pk', rd') \<Longrightarrow> row_valid ti rd \<Longrightarrow> row_valid ti rd'"
  by (rule insert_row_cols_preserves [where P = "row_valid ti"]) (auto intro: row_valid_update)

lemma row_valid_store_row [simp]: "row_valid (store_row k r t) x = row_valid t x"
  by (simp add: row_valid_def store_row_def)

lemma table_valid_store_row:
  assumes "table_valid t" and "row_valid t r"
  shows "table_valid (store_row k r t)"
  unfolding table_valid_def list_all_iff
proof
  fix x assume "x \<in> set (row_data (data (store_row k r t)))"
  then have "x \<in> insert (k, r) (set (row_data (data t)))"
    using set_update_subset [of k r "row_data (data t)"] by (auto simp: store_row_def)
  then show "case x of (k', r') \<Rightarrow> row_valid (store_row k r t) r'"
    using assms by (cases x) (auto simp: table_valid_def list_all_iff)
qed

lemma insert_rows_valid: "table_valid t \<Longrightarrow> table_valid (snd (insert_rows cols vss t))"
proof (induction vss arbitrary: t)
  case Nil
  then show ?case by simp
next
  case (Cons vs vss)
  have "row_valid t new_row" by (simp add: row_valid_def new_row_def)
  with Cons show ?case
    by (auto split: sum.splits prod.splits intro!: Cons.IH table_valid_store_row
        dest: insert_row_cols_valid)
qed

lemma insert_values_valid: "table_valid t \<Longrightarrow> table_valid (snd (insert_values cols vss t))"
  by (simp add: insert_values_def Let_def insert_rows_valid)

lemma db_valid_update:
  assumes "db_valid db" and "table_valid t"
  shows "db_valid (db\<lparr>tables := AList.update n t (tables db)\<rparr>)"
  using assms set_update_subset [of n t "tables db"]
  by (fastforce simp: db_valid_def list_all_iff)

lemma get_table_ref_valid: "db_valid db \<Longrightarrow> get_table_ref db n = Some t \<Longrightarrow> table_valid t"
  unfolding db_valid_def get_table_ref_def list_all_iff by (metis map_of_SomeD case_prod_conv)

lemma execute_keeps_valid: "db_valid db \<Longrightarrow> db_valid (snd (execute st db))"
  using execute_shape [of st db]
  by (auto simp: create_table_def put_table_def new_table_info_def new_table_data_def table_valid_def
      intro!: db_valid_update insert_values_valid dest: get_table_ref_valid)

lemma reachable_valid: "reachable db \<Longrightarrow> db_valid db"
proof (induction rule: reachable.induct)
  case start
  then show ?case by (simp add: db_valid_def new_data_base_def)
next
  case (step db st)
  from step.IH show ?case by (rule execute_keeps_valid)
qed

text \<open>Every stored entry of a reachable database, with the literal it came from.\<close>

lemma reachable_stored_valid:
  assumes "reachable db" and "get_table_ref db n = Some t"
    and "(k, r) \<in> set (row_data (data t))" and "map_of (column_data r) c = Some raw"
  shows "\<exists>ci v. map_of (column_properies t) c = Some ci \<and> validate_value ci v \<and> raw = get_inner_raw_str v"
proof -
  have "table_valid t" using reachable_valid [OF assms(1)] assms(2) by (rule get_table_ref_valid)
  with assms(3) have "row_valid t r" by (auto simp: table_valid_def list_all_iff)
  moreover from assms(4) have "(c, raw) \<in> set (column_data r)" by (rule map_of_SomeD)
  ultimately show ?thesis by (auto simp: row_valid_def list_all_iff)
qed

text \<open>
  C4: no stored value ever failed its column's check. In every reachable database,
  each entry of each stored row belongs to a column of its table's schema and holds
  the raw text of a literal that the column's validation accepts.
\<close>

theorem reachable_values_validated:
  assumes "reachable db" and "get_table_ref db n = Some t"
    and "(k, r) \<in> set (row_data (data t))" and "map_of (column_data r) c = Some raw"
  shows "\<exists>ci v. map_of (column_properies t) c = Some ci \<and> validate_value ci v \<and> raw = get_inner_raw_str v"
  using assms by (rule reachable_stored_valid)

text \<open>
  C33: typing of stored data: in every reachable database, every value stored in a
  \<open>BIGINT\<close> column is \<open>NULL\<close> or a text that parses as a \<open>u64\<close>.
\<close>

theorem reachable_bigint_typed:
  assumes "reachable db" and "get_table_ref db n = Some t"
    and "(k, r) \<in> set (row_data (data t))" and "map_of (column_data r) c = Some raw"
    and "map_of (column_properies t) c = Some ci" and "type_name ci = DT_BigInt l"
  shows "raw = None \<or> (\<exists>s w. raw = Some s \<and> parse_u64 s = Some w)"
proof -
  obtain ci' v where "map_of (column_properies t) c = Some ci'" and "validate_value ci' v"
    and raw: "raw = get_inner_raw_str v"
    using reachable_stored_valid [OF assms(1-4)] by blast
  with assms(5,6) have "validate_value_for_col (DT_BigInt l) v (find makes_nullable (properties ci) \<noteq> None)"
    by (simp add: validate_value_def)
  then have "bigint_raw_ok raw" unfolding raw by (rule bigint_valid_raw)
  then show ?thesis by (cases raw) (auto simp: bigint_raw_ok_def)
qed


section \<open>Witnesses\<close>

theorem create_table_refines_witness:
  "abs_db (snd (execute (CreateTable [''users''] users_columns) users_db)) =
     a_create ''users'' (map_of users_schema) [''id''] (abs_db users_db)"
  by (rule create_table_refines [of users_columns "[''id'']" "[''id'']"])
     (simp add: users_columns_def users_schema_def unwrap_def)

theorem insert_refines_witness:
  "abs_db (snd (execute (Insert [''users''] [''id'', ''name'']
      (Some (Values (map (map Value) [[Number ''1'' False, SingleQuotedString ''admin'']])))) users_db)) =
   (abs_db users_db)(''users'' \<mapsto>
      a_insert [''id'', ''name''] [[Number ''1'' False, SingleQuotedString ''admin'']] (abs_table users_table))"
proof (rule insert_refines)
  show "db_inv users_db" using reachable_users_db by (rule reachable_inv)
  show "abs_db users_db ''users'' = Some (abs_table users_table)"
    using users_db_table by (simp add: abs_db_def get_table_ref_def)
qed (simp_all add: abs_table_def users_defs)

theorem reachable_bigint_typed_witness:
  "reachable (snd (execute (Insert [''users''] [''id'', ''name'']
      (Some (Values [[Value (Number ''1'' False), Value (SingleQuotedString ''admin'')]]))) users_db)) \<and>
   get_table_ref (snd (execute (Insert [''users''] [''id'', ''name'']
      (Some (Values [[Value (Number ''1'' False), Value (SingleQuotedString ''admin'')]]))) users_db)) ''users'' =
     Some (store_row ''1'' \<lparr>column_data = [(''id'', Some ''1''), (''name'', Some ''admin'')]\<rparr> users_table) \<and>
   (Some ''1'' = None \<or> (\<exists>s w. Some ''1'' = Some s \<and> parse_u64 s = Some w))"
proof -
  let ?db = "snd (execute (Insert [''users''] [''id'', ''name'']
      (Some (Values [[Value (Number ''1'' False), Value (SingleQuotedString ''admin'')]]))) users_db)"
  let ?r = "\<lparr>column_data = [(''id'', Some ''1''), (''name'', Some ''admin'')]\<rparr>"
  let ?t = "store_row ''1'' ?r users_table"
  let ?ci = "\<lparr>type_name = DT_BigInt (Some 20), properties = [CP_PriamryKey, CP_Unique, CP_AutoIncrement]\<rparr>"
  have r: "reachable ?db" using reachable_users_db by (rule reachable.step)
  have g: "get_table_ref ?db ''users'' = Some ?t"
    using users_db_table
    by (simp add: script_defs users_table_def users_schema_def)
  have "Some ''1'' = None \<or> (\<exists>s w. Some ''1'' = Some s \<and> parse_u64 s = Some w)"
    by (rule reachable_bigint_typed [OF r g, of "''1''" ?r "''id''" "Some ''1''" ?ci "Some 20"])
       (simp_all add: store_row_def users_table_def new_table_info_def new_table_data_def users_schema_def)
  with r g show ?thesis by simp
qed

theorem reachable_values_validated_witness:
  "reachable (snd (execute (Insert [''users''] [''id'', ''name'']
      (Some (Values [[Value (Number ''1'' False), Value (SingleQuotedString ''admin'')]]))) users_db)) \<and>
   get_table_ref (snd (execute (Insert [''users''] [''id'', ''name'']
      (Some (Values [[Value (Number ''1'' False), Value (SingleQuotedString ''admin'')]]))) users_db)) ''users'' =
     Some (store_row ''1'' \<lparr>column_data = [(''id'', Some ''1''), (''name'', Some ''admin'')]\<rparr> users_table) \<and>
   (\<exists>ci v. map_of (column_properies (store_row ''1'' \<lparr>column_data = [(''id'', Some ''1''), (''name'', Some ''admin'')]\<rparr>
                      users_table)) ''name'' = Some ci \<and>
           validate_value ci v \<and> Some ''admin'' = get_inner_raw_str v)"
proof -
  let ?db = "snd (execute (Insert [''users''] [''id'', ''name'']
      (Some (Values [[Value (Number ''1'' False), Value (SingleQuotedString ''admin'')]]))) users_db)"
  let ?r = "\<lparr>column_data = [(''id'', Some ''1''), (''name'', Some ''admin'')]\<rparr>"
  let ?t = "store_row ''1'' ?r users_table"
  have r: "reachable ?db" using reachable_users_db by (rule reachable.step)
  have g: "get_table_ref ?db ''users'' = Some ?t"
    using users_db_table
    by (simp add: script_defs users_table_def users_schema_def)
  have "\<exists>ci v. map_of (column_properies ?t) ''name'' = Some ci \<and> validate_value ci v \<and>
               Some ''admin'' = get_inner_raw_str v"
    by (rule reachable_values_validated [OF r g, of "''1''" ?r])
       (simp_all add: store_row_def users_table_def new_table_info_def new_table_data_def)
  with r g show ?thesis by simp
qed

end
