(* ===== verification/UnsafeCopy.thy ===== *)
theory UnsafeCopy
  imports Prelude
begin

text \<open>
  \<open>src/buffers_unsafe_copy/src/lib.rs\<close>: the helpers \<open>string::unsafe_copy\<close>,
  \<open>string::unsafe_copy_option_str\<close> and \<open>vector::unsafe_copy\<close>, which duplicate a
  buffer with raw pointer operations instead of \<open>clone\<close>. Since their correctness is a
  claim about memory, they are modelled over an explicit store: a map from addresses
  to cells (\<^term>\<open>None\<close> for an uninitialised cell) with a bump allocator, and a
  \<open>String\<close> or \<open>Vec<T>\<close> as its header (pointer, length, capacity).
  \<open>Vec::with_capacity\<close> allocates a fresh uninitialised block, \<open>ptr::copy\<close> has the
  semantics of \<open>memmove\<close> (all reads before the writes, so overlap is allowed), and
  \<open>set_len\<close> only changes the header. The theorems show that each helper behaves as
  \<open>clone\<close>: the copy holds the same elements, in a block disjoint from every block
  allocated before, and nothing allocated before changes. This is why the other
  theories use a copied string as the value itself.
\<close>

section \<open>Store and buffers\<close>

record 'a store =
  cells :: "nat \<Rightarrow> 'a option"
  next_free :: nat

text \<open>The header of a \<open>String\<close> (a \<open>Vec<u8>\<close>) or of a \<open>Vec<T>\<close>.\<close>

record raw_buf =
  buf_ptr :: nat
  buf_len :: nat
  buf_cap :: nat

text \<open>The \<open>n\<close> cells from address \<open>p\<close>.\<close>

definition read_cells :: "'a store \<Rightarrow> nat \<Rightarrow> nat \<Rightarrow> 'a option list" where
  "read_cells m p n = map (\<lambda>i. cells m (p + i)) [0..<n]"

text \<open>The elements of a buffer, when all of them are initialised.\<close>

definition contents :: "'a store \<Rightarrow> raw_buf \<Rightarrow> 'a list option" where
  "contents m b = those (read_cells m (buf_ptr b) (buf_len b))"

text \<open>A buffer the program may read: allocated, and initialised up to its length.\<close>

definition buf_valid :: "'a store \<Rightarrow> raw_buf \<Rightarrow> bool" where
  "buf_valid m b \<longleftrightarrow> buf_ptr b + buf_cap b \<le> next_free m \<and> buf_len b \<le> buf_cap b \<and>
     contents m b \<noteq> None"

section \<open>Primitive operations\<close>

text \<open>\<open>Vec::with_capacity(n)\<close> (and \<open>String::with_capacity\<close>): a fresh block of \<open>n\<close>
  uninitialised cells.\<close>

definition with_capacity :: "'a store \<Rightarrow> nat \<Rightarrow> raw_buf \<times> 'a store" where
  "with_capacity m n =
     (\<lparr>buf_ptr = next_free m, buf_len = 0, buf_cap = n\<rparr>,
      m\<lparr>cells := (\<lambda>a. if next_free m \<le> a \<and> a < next_free m + n then None else cells m a),
        next_free := next_free m + n\<rparr>)"

text \<open>\<open>ptr::copy(src, dst, n)\<close>: \<open>memmove\<close> of \<open>n\<close> cells.\<close>

definition ptr_copy :: "'a store \<Rightarrow> nat \<Rightarrow> nat \<Rightarrow> nat \<Rightarrow> 'a store" where
  "ptr_copy m src dst n =
     m\<lparr>cells := (\<lambda>a. if dst \<le> a \<and> a < dst + n then cells m (src + (a - dst)) else cells m a)\<rparr>"

definition set_len :: "raw_buf \<Rightarrow> nat \<Rightarrow> raw_buf" where
  "set_len b n = b\<lparr>buf_len := n\<rparr>"

section \<open>The helpers\<close>

text \<open>\<open>string::from_buf_raw\<close>: \<open>String::with_capacity\<close>, \<open>ptr::copy\<close> into its
  buffer, then \<open>as_mut_vec().set_len\<close>.\<close>

definition string_from_buf_raw :: "byte store \<Rightarrow> nat \<Rightarrow> nat \<Rightarrow> raw_buf \<times> byte store" where
  "string_from_buf_raw m p elts =
     (let (dst, m1) = with_capacity m elts;
          m2 = ptr_copy m1 p (buf_ptr dst) elts
      in (set_len dst elts, m2))"

definition string_unsafe_copy :: "byte store \<Rightarrow> raw_buf \<Rightarrow> raw_buf \<times> byte store" where
  "string_unsafe_copy m s = string_from_buf_raw m (buf_ptr s) (buf_len s)"

definition unsafe_copy_option_str :: "byte store \<Rightarrow> raw_buf option \<Rightarrow> raw_buf option \<times> byte store" where
  "unsafe_copy_option_str m so =
     (case so of
        Some s \<Rightarrow> (let (s', m') = string_from_buf_raw m (buf_ptr s) (buf_len s) in (Some s', m'))
      | None \<Rightarrow> (None, m))"

text \<open>\<open>vector::from_buf_raw<T>\<close> and \<open>vector::unsafe_copy<T>\<close>: the same steps on a
  \<open>Vec<T>\<close>, one cell per element.\<close>

definition vector_from_buf_raw :: "'a store \<Rightarrow> nat \<Rightarrow> nat \<Rightarrow> raw_buf \<times> 'a store" where
  "vector_from_buf_raw m p elts =
     (let (dst, m1) = with_capacity m elts;
          m2 = ptr_copy m1 p (buf_ptr dst) elts
      in (set_len dst elts, m2))"

definition vector_unsafe_copy :: "'a store \<Rightarrow> raw_buf \<Rightarrow> raw_buf \<times> 'a store" where
  "vector_unsafe_copy m v = vector_from_buf_raw m (buf_ptr v) (buf_len v)"

subsection \<open>Example\<close>

text \<open>A store holding the string \<open>"abc"\<close> at address 0.\<close>

definition abc_store :: "byte store" where
  "abc_store = \<lparr>cells = (\<lambda>a. if a < 3 then Some (of_nat (97 + a)) else None), next_free = 3\<rparr>"

definition abc_buf :: raw_buf where
  "abc_buf = \<lparr>buf_ptr = 0, buf_len = 3, buf_cap = 3\<rparr>"

section \<open>Copy refines clone\<close>

lemma read_cells_frame:
  assumes "\<forall>a < bound. cells m' a = cells m a" and "p + n \<le> bound"
  shows "read_cells m' p n = read_cells m p n"
  using assms by (simp add: read_cells_def)

lemma contents_frame:
  assumes "\<forall>a < next_free m. cells m' a = cells m a" and "next_free m \<le> next_free m'"
    and "buf_valid m b"
  shows "buf_valid m' b \<and> contents m' b = contents m b"
proof -
  from assms(3) have "buf_ptr b + buf_len b \<le> next_free m"
    by (simp add: buf_valid_def)
  with assms(1) have "contents m' b = contents m b"
    by (simp add: contents_def read_cells_frame)
  with assms show ?thesis
    by (simp add: buf_valid_def)
qed

lemma vector_from_buf_raw_spec:
  assumes "p + n \<le> next_free m" and "vector_from_buf_raw m p n = (b, m')"
  shows "buf_ptr b = next_free m" and "buf_len b = n" and "buf_cap b = n"
    and "next_free m' = next_free m + n"
    and "read_cells m' (buf_ptr b) n = read_cells m p n"
    and "\<forall>a < next_free m. cells m' a = cells m a"
  using assms
  by (auto simp: vector_from_buf_raw_def with_capacity_def ptr_copy_def set_len_def read_cells_def)

lemma string_from_buf_raw_vector: "string_from_buf_raw = vector_from_buf_raw"
  by (simp add: fun_eq_iff string_from_buf_raw_def vector_from_buf_raw_def)

lemma unsafe_copy_clone:
  assumes "buf_valid m v" and "vector_from_buf_raw m (buf_ptr v) (buf_len v) = (v', m')"
  shows "contents m' v' = contents m v \<and> buf_valid m' v' \<and> next_free m \<le> buf_ptr v' \<and>
         (\<forall>b. buf_valid m b \<longrightarrow> buf_valid m' b \<and> contents m' b = contents m b)"
proof -
  have fits: "buf_ptr v + buf_len v \<le> next_free m"
    using assms(1) by (simp add: buf_valid_def)
  note spec = vector_from_buf_raw_spec [OF fits assms(2)]
  have same: "contents m' v' = contents m v"
    using spec by (simp add: contents_def)
  have frame: "\<forall>b. buf_valid m b \<longrightarrow> buf_valid m' b \<and> contents m' b = contents m b"
  proof (intro allI impI)
    fix b assume "buf_valid m b"
    moreover have "next_free m \<le> next_free m'" using spec(4) by simp
    ultimately show "buf_valid m' b \<and> contents m' b = contents m b"
      using spec(6) by (intro contents_frame)
  qed
  have "buf_valid m' v'"
    using spec(1-4) same assms(1) by (simp add: buf_valid_def)
  with same frame spec(1) show ?thesis by simp
qed

text \<open>
  C29: \<open>string::unsafe_copy\<close> refines \<open>clone\<close>: on a valid string it returns a valid
  string with the same bytes, in a block past every block allocated before, and
  every buffer valid before keeps its contents.
\<close>

theorem string_unsafe_copy_clone:
  assumes "buf_valid m s" and "string_unsafe_copy m s = (s', m')"
  shows "contents m' s' = contents m s \<and> buf_valid m' s' \<and> next_free m \<le> buf_ptr s' \<and>
         (\<forall>b. buf_valid m b \<longrightarrow> buf_valid m' b \<and> contents m' b = contents m b)"
  using assms unfolding string_unsafe_copy_def string_from_buf_raw_vector by (rule unsafe_copy_clone)

text \<open>
  C30: \<open>unsafe_copy_option_str\<close> maps \<open>None\<close> to \<open>None\<close> without touching the store
  and copies a present string as \<open>unsafe_copy\<close> does: the contents seen through the
  option are preserved, and so are all buffers valid before.
\<close>

theorem unsafe_copy_option_str_clone:
  assumes "case so of None \<Rightarrow> True | Some s \<Rightarrow> buf_valid m s"
    and "unsafe_copy_option_str m so = (r, m')"
  shows "map_option (contents m') r = map_option (contents m) so \<and>
         (\<forall>b. buf_valid m b \<longrightarrow> buf_valid m' b \<and> contents m' b = contents m b)"
proof (cases so)
  case None
  with assms(2) show ?thesis by (simp add: unsafe_copy_option_str_def)
next
  case (Some s)
  obtain s' m1 where c: "vector_from_buf_raw m (buf_ptr s) (buf_len s) = (s', m1)"
    by (cases "vector_from_buf_raw m (buf_ptr s) (buf_len s)")
  with Some assms(2) have "r = Some s'" and "m' = m1"
    by (simp_all add: unsafe_copy_option_str_def string_from_buf_raw_vector)
  with unsafe_copy_clone [OF _ c] Some assms(1) show ?thesis by simp
qed

subsection \<open>Witnesses\<close>

lemma abc_buf_valid: "buf_valid abc_store abc_buf"
  by (simp add: buf_valid_def abc_store_def abc_buf_def contents_def read_cells_def upt_rec)

theorem string_unsafe_copy_clone_witness:
  "contents (snd (string_unsafe_copy abc_store abc_buf)) (fst (string_unsafe_copy abc_store abc_buf)) =
     Some [97, 98, 99]"
proof -
  have "contents (snd (string_unsafe_copy abc_store abc_buf)) (fst (string_unsafe_copy abc_store abc_buf)) =
          contents abc_store abc_buf"
    using string_unsafe_copy_clone [OF abc_buf_valid surjective_pairing] by simp
  then show ?thesis
    by (simp add: abc_store_def abc_buf_def contents_def read_cells_def upt_rec)
qed

theorem unsafe_copy_option_str_clone_witness:
  "map_option (contents (snd (unsafe_copy_option_str abc_store (Some abc_buf))))
     (fst (unsafe_copy_option_str abc_store (Some abc_buf))) = Some (Some [97, 98, 99])"
proof -
  have "map_option (contents (snd (unsafe_copy_option_str abc_store (Some abc_buf))))
          (fst (unsafe_copy_option_str abc_store (Some abc_buf))) = Some (contents abc_store abc_buf)"
    using unsafe_copy_option_str_clone [OF _ surjective_pairing, of abc_store "Some abc_buf"] abc_buf_valid
    by simp
  then show ?thesis
    by (simp add: abc_store_def abc_buf_def contents_def read_cells_def upt_rec)
qed

end
