(* ===== verification/MainProgram.thy ===== *)
theory MainProgram
  imports Executor
begin

text \<open>
  The program entry \<open>main\<close> (\<open>src/src/main.rs\<close>). It assembles a SQL script of
  one \<open>CREATE TABLE\<close>, one \<open>INSERT\<close> of \<open>rows_to_insert - 1\<close> rows (two
  written out, the others generated by a loop) and one \<open>SELECT *\<close>, parses it
  with \<open>Parser::parse_sql(...).unwrap()\<close> and runs the statements in order on
  \<open>DataBase::new()\<close>, dropping each result after timing it. The constant
  \<open>rows_to_insert\<close> is the parameter \<open>k\<close> of the model, so that the theorems
  hold for every value of it, the program's \<open>1000000\<close> included.
\<close>

section \<open>Decimal formatting\<close>

text \<open>
  \<open>format!("{}", n)\<close> for a non-negative integer: its decimal digits without
  leading zeros (\<open>0\<close> for zero), \<^term>\<open>dec_len n\<close> of them.
\<close>

fun dec_len :: "nat \<Rightarrow> nat" where
  "dec_len n = (if n < 10 then 1 else Suc (dec_len (n div 10)))"

declare dec_len.simps [simp del]

definition fmt_nat :: "nat \<Rightarrow> string" where
  "fmt_nat n = dec_pad (dec_len n) n"

section \<open>The script\<close>

definition rows_to_insert :: nat where
  "rows_to_insert = 1000000"

definition armando_hash :: string where
  "armando_hash = ''$2b$10$qQEy7J/lN3XXP.Gp1wv3zO2SjpOp3NmsACA2TroekCYVUa55K6T8i''"

text \<open>
  The row the loop \<open>for n in 3..rows_to_insert\<close> appends for \<open>n\<close>; the separator
  after it (\<open>;\<close> after the last row, \<open>,\<close> otherwise) only ends or continues the
  \<open>VALUES\<close> list.
\<close>

definition generated_row :: "nat \<Rightarrow> sql_value list" where
  "generated_row n =
     [Number (fmt_nat n) False, SingleQuotedString (''armando'' @ fmt_nat n),
      SingleQuotedString armando_hash]"

definition generated_rows :: "nat \<Rightarrow> sql_value list list" where
  "generated_rows k = map generated_row [3..<k]"

definition main_values :: "nat \<Rightarrow> sql_value list list" where
  "main_values k =
     [[Number ''1'' False, SingleQuotedString ''admin'',
       SingleQuotedString ''$2b$10$I6gmAyHE0r3TGZEnDP0O5efjsuBXVT36M.HLyZDm4cuJFyJcqXdG.''],
      [Number ''2'' False, SingleQuotedString ''armando'', SingleQuotedString armando_hash]] @
     generated_rows k"

text \<open>
  \<open>Parser::parse_sql(&dialect, &sql).unwrap()\<close>. When the loop generates no row
  (\<open>rows_to_insert \<le> 3\<close>) the \<open>VALUES\<close> list ends in the comma after the second
  row and is followed by \<open>SELECT\<close>: the parser reports that it expected \<open>(\<close>,
  and the \<open>unwrap\<close> panics. Otherwise the script parses to its three statements
  (\<open>IF NOT EXISTS\<close> is not kept by the model, as \<open>execute\<close> ignores it).
\<close>

definition parse_main_sql :: "nat \<Rightarrow> statement list result" where
  "parse_main_sql k =
     (if k \<le> 3 then Inl (Panic ''called `Result::unwrap()` on an `Err` value'')
      else Inr [CreateTable [''users''] main_columns,
                Insert [''users''] [''id'', ''name'', ''password'']
                  (Some (Values (map (map Value) (main_values k)))),
                Query (Select \<lparr>projection = [Wildcard], from_list = [Table [''users'']]\<rparr>)])"

text \<open>The whole of \<open>main\<close>: the results of the statements, and the final database.\<close>

definition main_run :: "nat \<Rightarrow> (success_status result list \<times> data_base) result" where
  "main_run k =
     (case parse_main_sql k of
        Inl e \<Rightarrow> Inl e
      | Inr ast \<Rightarrow> Inr (execute_all ast new_data_base))"

text \<open>The table the script's \<open>CREATE TABLE\<close> registers.\<close>

definition main_schema :: "(string, column_info) hash_map" where
  "main_schema =
     [(''id'', \<lparr>type_name = DT_BigInt (Some 20), properties = [CP_PriamryKey, CP_Unique, CP_AutoIncrement]\<rparr>),
      (''name'', \<lparr>type_name = DT_Varchar (Some (IntegerLength 255 None)), properties = [CP_NotNull]\<rparr>),
      (''password'', \<lparr>type_name = DT_Varchar (Some (IntegerLength 255 None)), properties = [CP_NotNull]\<rparr>)]"

definition main_table :: table_info where
  "main_table = new_table_info ''users'' [''id''] [''id''] main_schema"

section \<open>Decimal formatting: lemmas\<close>

lemma dec_len_pos: "0 < dec_len n"
  by (subst dec_len.simps) simp

lemma dec_len_bound: "n < 10 ^ dec_len n"
proof (induction n rule: dec_len.induct)
  case (1 n)
  show ?case
  proof (cases "n < 10")
    case True
    then show ?thesis by (subst dec_len.simps) simp
  next
    case False
    with "1.IH" have "n div 10 < 10 ^ dec_len (n div 10)" by simp
    then have "n < 10 ^ dec_len (n div 10) * 10" by (simp add: div_less_iff_less_mult)
    with False show ?thesis by (subst dec_len.simps) simp
  qed
qed

lemma dec_len_le: "n < 10 ^ w \<Longrightarrow> 0 < w \<Longrightarrow> dec_len n \<le> w"
proof (induction n arbitrary: w rule: dec_len.induct)
  case (1 n)
  show ?case
  proof (cases "n < 10")
    case True
    with "1.prems" show ?thesis by (subst dec_len.simps) simp
  next
    case False
    obtain v where w: "w = Suc v"
      using "1.prems"(2) by (cases w) auto
    have v: "0 < v"
    proof (rule ccontr)
      assume "\<not> 0 < v"
      with w "1.prems"(1) False show False by simp
    qed
    have "n div 10 < 10 ^ v"
      using "1.prems"(1) by (simp add: w div_less_iff_less_mult mult.commute)
    with "1.IH" False v have "dec_len (n div 10) \<le> v" by simp
    with False w show ?thesis by (subst dec_len.simps) simp
  qed
qed

lemma dec_len_i32: "n < 2 ^ 31 \<Longrightarrow> dec_len n \<le> 10"
  by (rule dec_len_le) simp_all

lemma length_fmt_nat [simp]: "length (fmt_nat n) = dec_len n"
  by (simp add: fmt_nat_def)

lemma digits_nat_fmt_nat: "digits_nat (fmt_nat n) = Some n"
  unfolding fmt_nat_def by (rule digits_nat_dec_pad [OF dec_len_pos dec_len_bound])

lemma fmt_nat_inj: "inj fmt_nat"
  by (rule inj_on_inverseI [where g = "\<lambda>s. the (digits_nat s)"]) (simp add: digits_nat_fmt_nat)

lemma parse_u64_fmt_nat: "n < 2 ^ 64 \<Longrightarrow> parse_u64 (fmt_nat n) = Some (of_nat n)"
proof -
  assume n: "n < 2 ^ 64"
  have "fmt_nat n \<noteq> []"
    using dec_len_pos [of n] by (metis length_fmt_nat list.size(3) less_irrefl)
  then obtain c r where cr: "fmt_nat n = c # r"
    by (cases "fmt_nat n") auto
  have "is_digit c"
    using dec_pad_digits [of "dec_len n" n] cr by (simp add: fmt_nat_def)
  then have "c \<noteq> CHR ''+''" by (auto simp: is_digit_def)
  with cr n digits_nat_fmt_nat [of n] show ?thesis
    by (simp add: parse_u64_def)
qed

lemma fmt_nat_small: "fmt_nat 1 = ''1''" "fmt_nat 2 = ''2''"
proof -
  have "dec_len 1 = 1" "dec_len 2 = 1" by (subst dec_len.simps, simp)+
  moreover have "char_of (49::nat) = CHR ''1''" "char_of (50::nat) = CHR ''2''"
    by (simp_all add: char_of_eq_iff)
  ultimately show "fmt_nat 1 = ''1''" "fmt_nat 2 = ''2''"
    by (simp_all add: fmt_nat_def)
qed

section \<open>Running the script\<close>

lemma expected_key_store_row [simp]: "expected_key (store_row k r t) = expected_key t"
  by (simp add: expected_key_def [abs_def])

lemma expected_row_store_row [simp]: "expected_row (store_row k r t) = expected_row t"
  by (simp add: expected_row_def [abs_def])

text \<open>A batch of literal rows whose keys are distinct and fresh is appended in order.\<close>

lemma upsert_fresh_rows:
  assumes "distinct (map (\<lambda>vs. expected_key t (zip cols vs)) vss)"
    and "\<forall>vs\<in>set vss. map_of (row_data (data t)) (expected_key t (zip cols vs)) = None"
  shows "row_data (data (upsert_literal_rows cols vss t)) =
           row_data (data t) @
           map (\<lambda>vs. (expected_key t (zip cols vs), \<lparr>column_data = expected_row t (zip cols vs)\<rparr>)) vss"
  using assms
proof (induction vss arbitrary: t)
  case Nil
  then show ?case by (simp add: upsert_literal_rows_def)
next
  case (Cons vs vss)
  let ?k = "expected_key t (zip cols vs)"
  let ?t = "store_row ?k \<lparr>column_data = expected_row t (zip cols vs)\<rparr> t"
  have fresh: "map_of (row_data (data t)) ?k = None"
    using Cons.prems(2) by simp
  then have rd: "row_data (data ?t) = row_data (data t) @ [(?k, \<lparr>column_data = expected_row t (zip cols vs)\<rparr>)]"
    by (simp add: store_row_def update_new_append)
  have "\<forall>ws\<in>set vss. map_of (row_data (data ?t)) (expected_key ?t (zip cols ws)) = None"
  proof
    fix ws assume ws: "ws \<in> set vss"
    from Cons.prems(1) have "?k \<notin> (\<lambda>vs. expected_key t (zip cols vs)) ` set vss" by simp
    with ws have "expected_key t (zip cols ws) \<noteq> ?k" by (metis image_eqI)
    with ws Cons.prems(2) show "map_of (row_data (data ?t)) (expected_key ?t (zip cols ws)) = None"
      by (simp add: rd map_of_append)
  qed
  with Cons.prems(1) have "row_data (data (upsert_literal_rows cols vss ?t)) =
     row_data (data ?t) @ map (\<lambda>vs. (expected_key t (zip cols vs), \<lparr>column_data = expected_row t (zip cols vs)\<rparr>)) vss"
    using Cons.IH [of ?t] by simp
  then show ?case
    by (simp add: upsert_literal_rows_def update_new_append [OF fresh])
qed

lemma main_row_stored:
  assumes "parse_u64 i \<noteq> None" and "length i \<le> 21" and "length a \<le> 255" and "length b \<le> 255"
  shows "expected_key main_table (zip [''id'', ''name'', ''password''] [Number i False, SingleQuotedString a, SingleQuotedString b]) = i \<and>
         expected_row main_table (zip [''id'', ''name'', ''password''] [Number i False, SingleQuotedString a, SingleQuotedString b]) =
           [(''id'', Some i), (''name'', Some a), (''password'', Some b)]"
proof -
  have "length i < 2 ^ 64" "length a < 2 ^ 64" "length b < 2 ^ 64"
    using assms(2-4) by simp_all
  then have "\<not> 21 < len_u64 i" "len_u64 a \<le> 255" "len_u64 b \<le> 255"
    using assms(2-4) by (simp_all add: not_less len_u64_le_iff)
  with assms show ?thesis
    by (simp add: expected_key_def expected_row_def main_table_def new_table_info_def main_schema_def
        push_pk_def get_inner_raw_str_def validate_value_def makes_nullable_def validate_value_for_col_def
        validate_value_for_integer_def validate_value_for_char_def)
qed

lemma generated_row_stored:
  assumes "n < 2 ^ 31"
  shows "expected_key main_table (zip [''id'', ''name'', ''password''] (generated_row n)) = fmt_nat n \<and>
         expected_row main_table (zip [''id'', ''name'', ''password''] (generated_row n)) =
           [(''id'', Some (fmt_nat n)), (''name'', Some (''armando'' @ fmt_nat n)), (''password'', Some armando_hash)]"
proof -
  have d: "dec_len n \<le> 10" using assms by (rule dec_len_i32)
  have "parse_u64 (fmt_nat n) \<noteq> None" using assms by (simp add: parse_u64_fmt_nat)
  moreover have "length (armando_hash) \<le> 255" by (simp add: armando_hash_def)
  ultimately show ?thesis
    using d unfolding generated_row_def by (intro main_row_stored) simp_all
qed

lemma main_rows_stored:
  assumes "k < 2 ^ 31"
  shows "map (\<lambda>vs. (expected_key main_table (zip [''id'', ''name'', ''password''] vs),
                    \<lparr>column_data = expected_row main_table (zip [''id'', ''name'', ''password''] vs)\<rparr>))
           (main_values k) =
         [(''1'', \<lparr>column_data = [(''id'', Some ''1''), (''name'', Some ''admin''),
                   (''password'', Some ''$2b$10$I6gmAyHE0r3TGZEnDP0O5efjsuBXVT36M.HLyZDm4cuJFyJcqXdG.'')]\<rparr>),
          (''2'', \<lparr>column_data = [(''id'', Some ''2''), (''name'', Some ''armando''), (''password'', Some armando_hash)]\<rparr>)] @
         map (\<lambda>n. (fmt_nat n, \<lparr>column_data = [(''id'', Some (fmt_nat n)), (''name'', Some (''armando'' @ fmt_nat n)),
                                              (''password'', Some armando_hash)]\<rparr>)) [3..<k]"
proof -
  have p1: "parse_u64 ''1'' \<noteq> None" and p2: "parse_u64 ''2'' \<noteq> None"
    by (simp_all add: parse_u64_def digits_nat_def is_digit_def digit_val_def)
  have h: "length armando_hash \<le> 255" by (simp add: armando_hash_def)
  have gen: "map (\<lambda>vs. (expected_key main_table (zip [''id'', ''name'', ''password''] vs),
                       \<lparr>column_data = expected_row main_table (zip [''id'', ''name'', ''password''] vs)\<rparr>))
               (generated_rows k) =
             map (\<lambda>n. (fmt_nat n, \<lparr>column_data = [(''id'', Some (fmt_nat n)), (''name'', Some (''armando'' @ fmt_nat n)),
                                              (''password'', Some armando_hash)]\<rparr>)) [3..<k]"
    unfolding generated_rows_def map_map
  proof (rule map_cong [OF refl])
    fix n assume "n \<in> set [3..<k]"
    with assms have "n < 2 ^ 31" by simp
    then show "((\<lambda>vs. (expected_key main_table (zip [''id'', ''name'', ''password''] vs),
                       \<lparr>column_data = expected_row main_table (zip [''id'', ''name'', ''password''] vs)\<rparr>)) \<circ>
                generated_row) n =
               (fmt_nat n, \<lparr>column_data = [(''id'', Some (fmt_nat n)), (''name'', Some (''armando'' @ fmt_nat n)),
                                              (''password'', Some armando_hash)]\<rparr>)"
      by (simp add: generated_row_stored)
  qed
  show ?thesis
    unfolding main_values_def map_append gen
    using main_row_stored [OF p1] main_row_stored [OF p2] h by simp
qed

lemma main_keys_distinct:
  assumes "3 \<le> k"
  shows "distinct (''1'' # ''2'' # map fmt_nat [3..<k])"
proof -
  have u: "[1..<k] = [1, 2] @ [3..<k]"
    using assms by (simp add: upt_conv_Cons eval_nat_numeral)
  have "distinct (map fmt_nat [1..<k])"
    using fmt_nat_inj by (simp add: distinct_map inj_on_subset [of fmt_nat UNIV])
  then have "distinct (map fmt_nat ([1, 2] @ [3..<k]))"
    by (simp only: u)
  then show ?thesis
    by (simp only: map_append list.map fmt_nat_small append_Cons append_Nil)
qed

lemma main_payload:
  assumes "3 \<le> k" and "k < 2 ^ 31"
  shows "map (\<lambda>(_, row). map snd (column_data row))
           (row_data (data (upsert_literal_rows [''id'', ''name'', ''password''] (main_values k) main_table))) =
         [[Some ''1'', Some ''admin'', Some ''$2b$10$I6gmAyHE0r3TGZEnDP0O5efjsuBXVT36M.HLyZDm4cuJFyJcqXdG.''], [Some ''2'', Some ''armando'', Some armando_hash]] @
         map (\<lambda>n. [Some (fmt_nat n), Some (''armando'' @ fmt_nat n), Some armando_hash]) [3..<k]"
proof -
  let ?cols = "[''id'', ''name'', ''password'']"
  note stored = main_rows_stored [OF assms(2)]
  have "map (\<lambda>vs. expected_key main_table (zip ?cols vs)) (main_values k) = ''1'' # ''2'' # map fmt_nat [3..<k]"
    using arg_cong [where f = "map fst", OF stored] by (simp add: comp_def)
  then have "distinct (map (\<lambda>vs. expected_key main_table (zip ?cols vs)) (main_values k))"
    using main_keys_distinct [OF assms(1)] by simp
  moreover have "row_data (data main_table) = []"
    by (simp add: main_table_def new_table_info_def new_table_data_def)
  ultimately have "row_data (data (upsert_literal_rows ?cols (main_values k) main_table)) =
      map (\<lambda>vs. (expected_key main_table (zip ?cols vs), \<lparr>column_data = expected_row main_table (zip ?cols vs)\<rparr>))
        (main_values k)"
    using upsert_fresh_rows [of main_table ?cols "main_values k"] by simp
  then show ?thesis
    unfolding stored by (simp add: comp_def)
qed

lemma main_payload_encodable:
  assumes "k < 2 ^ 31"
  shows "encodable ([[Some ''1'', Some ''admin'', Some ''$2b$10$I6gmAyHE0r3TGZEnDP0O5efjsuBXVT36M.HLyZDm4cuJFyJcqXdG.''], [Some ''2'', Some ''armando'', Some armando_hash]] @
                    map (\<lambda>n. [Some (fmt_nat n), Some (''armando'' @ fmt_nat n), Some armando_hash]) [3..<k])"
proof -
  have "\<forall>n\<in>set [3..<k]. dec_len n \<le> 10"
    using assms by (auto intro: dec_len_i32)
  moreover have "k < 2 ^ 64" using assms by simp
  ultimately show ?thesis
    by (auto simp: encodable_def armando_hash_def list_all_iff)
qed

text \<open>
  C27: \<open>main\<close> run with \<open>rows_to_insert = k\<close>, for any \<open>k\<close> from 4 up to the
  largest \<open>i32\<close>, answers \<open>TableCreated\<close>, \<open>DataInserted\<close> and a \<open>DataFetched\<close>
  payload that decodes to exactly the \<open>k - 1\<close> rows of the script: the two written
  out and one for each \<open>n\<close> in \<open>3..k\<close>, every value stored (all pass validation)
  and no row lost to a key collision. Rows and the values of a row are compared as
  multisets, since both come out of a \<open>HashMap\<close>.
\<close>

theorem main_run_result:
  assumes "4 \<le> k" and "k < 2 ^ 31"
  shows "\<exists>bs db. main_run k = Inr ([Inr (TableCreated ''users''), Inr DataInserted, Inr (DataFetched bs)], db) \<and>
           map_option (\<lambda>rs. mset (map mset rs)) (decode_rows bs) =
             Some ({#mset [Some ''1'', Some ''admin'', Some ''$2b$10$I6gmAyHE0r3TGZEnDP0O5efjsuBXVT36M.HLyZDm4cuJFyJcqXdG.''],
                     mset [Some ''2'', Some ''armando'', Some armando_hash]#} +
                   mset (map (\<lambda>n. mset [Some (fmt_nat n), Some (''armando'' @ fmt_nat n), Some armando_hash]) [3..<k]))"
proof -
  let ?cols = "[''id'', ''name'', ''password'']"
  let ?t = "upsert_literal_rows ?cols (main_values k) main_table"
  let ?db1 = "create_table ''users'' [''id''] [''id''] main_schema new_data_base"
  let ?db2 = "put_table ''users'' ?t ?db1"
  let ?rows = "[[Some ''1'', Some ''admin'', Some ''$2b$10$I6gmAyHE0r3TGZEnDP0O5efjsuBXVT36M.HLyZDm4cuJFyJcqXdG.''], [Some ''2'', Some ''armando'', Some armando_hash]] @
               map (\<lambda>n. [Some (fmt_nat n), Some (''armando'' @ fmt_nat n), Some armando_hash]) [3..<k]"
  have kd: "keys_distinct (column_properies main_table)"
    by (simp add: main_table_def new_table_info_def main_schema_def keys_distinct_def)
  have create: "execute (CreateTable [''users''] main_columns) new_data_base = (Inr (TableCreated ''users''), ?db1)"
    by (simp add: main_columns_def users_columns_def first_ident_def unwrap_def main_schema_def)
  have g1: "get_table_ref ?db1 ''users'' = Some main_table"
    by (simp add: get_table_ref_def create_table_def new_data_base_def main_table_def)
  have "insert_values ?cols (map (map Value) (main_values k)) main_table = (Inr (), ?t)"
    by (rule insert_values_literals [OF kd])
       (simp_all add: main_table_def new_table_info_def main_schema_def main_values_def generated_rows_def
         generated_row_def list_all_iff)
  then have ins: "execute (Insert [''users''] ?cols (Some (Values (map (map Value) (main_values k))))) ?db1 =
                    (Inr DataInserted, ?db2)"
    using insert_existing_table [OF g1 kd, of "[]"] by simp
  have "get_table_ref ?db2 ''users'' = Some ?t"
    by (simp add: get_table_ref_def put_table_def)
  then have sel: "execute (Query (Select \<lparr>projection = [Wildcard], from_list = [Table [''users'']]\<rparr>)) ?db2 =
                    (Inr (DataFetched (encode_rows ?rows)), ?db2)"
    using select_wildcard_rows [of ?db2 "''users''" ?t "[]"] main_payload assms by simp
  have run: "main_run k = Inr ([Inr (TableCreated ''users''), Inr DataInserted, Inr (DataFetched (encode_rows ?rows))], ?db2)"
    using assms(1) create ins sel by (simp add: main_run_def parse_main_sql_def del: execute.simps)
  have "decode_rows (encode_rows ?rows) = Some ?rows"
    using main_payload_encodable [OF assms(2)] by (rule decode_rows_encode_rows)
  with run show ?thesis by (simp add: multiset.map_comp comp_def)
qed

section \<open>Witness\<close>

theorem main_run_result_witness:
  "4 \<le> rows_to_insert \<and> rows_to_insert < 2 ^ 31 \<and>
   (\<exists>bs db. main_run rows_to_insert =
        Inr ([Inr (TableCreated ''users''), Inr DataInserted, Inr (DataFetched bs)], db) \<and>
      map_option (\<lambda>rs. mset (map mset rs)) (decode_rows bs) =
        Some ({#mset [Some ''1'', Some ''admin'', Some ''$2b$10$I6gmAyHE0r3TGZEnDP0O5efjsuBXVT36M.HLyZDm4cuJFyJcqXdG.''],
                mset [Some ''2'', Some ''armando'', Some armando_hash]#} +
              mset (map (\<lambda>n. mset [Some (fmt_nat n), Some (''armando'' @ fmt_nat n), Some armando_hash])
                      [3..<rows_to_insert])))"
proof -
  have "4 \<le> rows_to_insert \<and> rows_to_insert < 2 ^ 31"
    by (simp add: rows_to_insert_def)
  with main_run_result [of rows_to_insert] show ?thesis by blast
qed

end
