(* ===== verification/TableLock.thy ===== *)
theory TableLock
  imports Executor
begin

text \<open>
  The shared table handles \<open>Arc<Mutex<TableInfo>>\<close> of \<open>DataBase::tables\<close>
  (\<open>src/src/data_descriptor.rs\<close>) and the two places \<open>execute\<close>
  (\<open>src/src/executor.rs\<close>) locks them: \<open>table.lock().unwrap().insert_values(..)\<close>
  for \<open>INSERT\<close> and \<open>table.lock().unwrap().find_all(WildCard)\<close> once per wildcard
  of a \<open>SELECT\<close>. A \<open>std::sync::Mutex\<close> is its data with two flags: held, and
  poisoned (a guard was dropped while its thread panicked). \<open>lock()\<close> on a mutex
  the same thread already holds never returns; the model makes that \<^term>\<open>None\<close>.
  The source only locks through temporaries (\<open>table.lock().unwrap().f(..)\<close>), whose
  guard is dropped at the end of the same statement, so \<open>locked_call\<close>
  takes and releases the lock in one step and the held flag is never set between
  statements.
  The \<open>Arc\<close> adds nothing here: \<open>get_table_ref\<close> only lends the handle for the
  length of one statement. The locked executor \<open>lexecute\<close> follows \<open>execute\<close>
  with every lock made explicit; the lemmas relate it to the lock-free
  \<^const>\<open>execute\<close> the other theories use.
\<close>

section \<open>Mutex\<close>

record 'a mutex =
  m_locked :: bool
  m_poisoned :: bool
  m_data :: 'a

definition mutex_new :: "'a \<Rightarrow> 'a mutex" where
  "mutex_new v = \<lparr>m_locked = False, m_poisoned = False, m_data = v\<rparr>"

definition is_panic :: "'a result \<Rightarrow> bool" where
  "is_panic r = (case r of Inl (Panic _) \<Rightarrow> True | _ \<Rightarrow> False)"

text \<open>
  \<open>m.lock().unwrap().f(..)\<close> as one Rust statement: \<open>lock()\<close> blocks while the
  mutex is held; on a poisoned mutex it returns \<open>Err(PoisonError)\<close> and the
  \<open>unwrap\<close> panics (the guard inside the error is dropped while unwinding, so the
  mutex is released and stays poisoned); otherwise \<open>f\<close> runs on the data, and the
  temporary guard is dropped at the end of the statement, releasing the mutex and
  poisoning it if \<open>f\<close> panicked.
\<close>

definition locked_call :: "('a \<Rightarrow> 'b result \<times> 'a) \<Rightarrow> 'a mutex \<Rightarrow> ('b result \<times> 'a mutex) option" where
  "locked_call f m =
     (if m_locked m then None
      else if m_poisoned m
      then Some (Inl (Panic ''called `Result::unwrap()` on an `Err` value: PoisonError { .. }''), m)
      else (case f (m_data m) of
              (r, v) \<Rightarrow> Some (r, m\<lparr>m_data := v, m_poisoned := is_panic r\<rparr>)))"

section \<open>The database of locked tables\<close>

record ldata_base =
  ltables :: "(string, table_info mutex) hash_map"

definition lnew_data_base :: ldata_base where
  "lnew_data_base = \<lparr>ltables = []\<rparr>"

definition lcreate_table ::
  "string \<Rightarrow> string list \<Rightarrow> string list \<Rightarrow> (string, column_info) hash_map \<Rightarrow> ldata_base \<Rightarrow> ldata_base"
where
  "lcreate_table name pks idx cols db =
     db\<lparr>ltables := AList.update name (mutex_new (new_table_info name pks idx cols)) (ltables db)\<rparr>"

definition lget_table_ref :: "ldata_base \<Rightarrow> string \<Rightarrow> table_info mutex option" where
  "lget_table_ref db name = map_of (ltables db) name"

definition lput_table :: "string \<Rightarrow> table_info mutex \<Rightarrow> ldata_base \<Rightarrow> ldata_base" where
  "lput_table name m db = db\<lparr>ltables := AList.update name m (ltables db)\<rparr>"

section \<open>The locked executor\<close>

fun lproject_items ::
  "select_item list \<Rightarrow> table_info mutex \<Rightarrow> byte list \<Rightarrow> (byte list result \<times> table_info mutex) option"
where
  "lproject_items [] m acc = Some (Inr acc, m)"
| "lproject_items (Wildcard # rest) m acc =
     (case locked_call (\<lambda>t. (find_all t WildCard, t)) m of
        None \<Rightarrow> None
      | Some (Inl e, m') \<Rightarrow> Some (Inl e, m')
      | Some (Inr rows, m') \<Rightarrow> lproject_items rest m' (acc @ encode_rows rows))"
| "lproject_items (_ # rest) m acc = Some (Inl (Err ''not yet implemented''), m)"

fun lselect_from ::
  "table_factor list \<Rightarrow> select_item list \<Rightarrow> ldata_base \<Rightarrow> byte list
   \<Rightarrow> (success_status result \<times> ldata_base) option"
where
  "lselect_from [] items db acc = Some (Inr (DataFetched acc), db)"
| "lselect_from (Table name # rest) items db acc =
     (case first_ident name of
        Inl e \<Rightarrow> Some (Inl e, db)
      | Inr table_name_str \<Rightarrow>
          (case lget_table_ref db table_name_str of
             Some m \<Rightarrow>
               (case lproject_items items m acc of
                  None \<Rightarrow> None
                | Some (Inl e, m') \<Rightarrow> Some (Inl e, lput_table table_name_str m' db)
                | Some (Inr acc', m') \<Rightarrow> lselect_from rest items (lput_table table_name_str m' db) acc')
           | None \<Rightarrow> Some (Inl (Err (''No table named '' @ table_name_str @ '' exists'')), db)))"
| "lselect_from (OtherFactor _ # rest) items db acc = Some (Inl (Err ''not yet implemented''), db)"

fun lexecute :: "statement \<Rightarrow> ldata_base \<Rightarrow> (success_status result \<times> ldata_base) option" where
  "lexecute (CreateTable name columns) db =
     (case first_ident name of
        Inl e \<Rightarrow> Some (Inl e, db)
      | Inr table_name_str \<Rightarrow>
          (case translate_columns columns [] [] [] of
             Inl e \<Rightarrow> Some (Inl e, db)
           | Inr (pks, idx, cps) \<Rightarrow>
               Some (Inr (TableCreated table_name_str), lcreate_table table_name_str pks idx cps db)))"
| "lexecute (Insert tname columns source) db =
     (case first_ident tname of
        Inl e \<Rightarrow> Some (Inl e, db)
      | Inr table_name_str \<Rightarrow>
          (case source of
             None \<Rightarrow> Some (Inl (Panic ''No values to insert provided''), db)
           | Some body \<Rightarrow>
               (let values = (case body of Values rows \<Rightarrow> rows | _ \<Rightarrow> [])
                in case lget_table_ref db table_name_str of
                     Some m \<Rightarrow>
                       (case locked_call (insert_values columns values) m of
                          None \<Rightarrow> None
                        | Some (Inl (Panic p), m') \<Rightarrow> Some (Inl (Panic p), lput_table table_name_str m' db)
                        | Some (_, m') \<Rightarrow> Some (Inr DataInserted, lput_table table_name_str m' db))
                   | None \<Rightarrow> Some (Inl (Err (''No table named '' @ table_name_str @ '' exists'')), db))))"
| "lexecute (Query body) db =
     (case body of
        Select select_q \<Rightarrow> lselect_from (from_list select_q) (projection select_q) db []
      | _ \<Rightarrow> Some (Inl (Err ''not yet implemented''), db))"
| "lexecute (OtherStatement _) db = Some (Inl (Err ''not yet implemented''), db)"

text \<open>The statement loop of \<open>main\<close> over the locked database; a blocked lock stops it.\<close>

fun lexecute_all ::
  "statement list \<Rightarrow> ldata_base \<Rightarrow> (success_status result list \<times> ldata_base) option"
where
  "lexecute_all [] db = Some ([], db)"
| "lexecute_all (st # sts) db =
     (case lexecute st db of
        None \<Rightarrow> None
      | Some (r, db') \<Rightarrow>
          (case lexecute_all sts db' of
             None \<Rightarrow> None
           | Some (rs, db'') \<Rightarrow> Some (r # rs, db'')))"

text \<open>Every table behind a fresh mutex: the lock-free database.\<close>

definition lift_db :: "data_base \<Rightarrow> ldata_base" where
  "lift_db db = \<lparr>ltables = map (\<lambda>(n, t). (n, mutex_new t)) (tables db)\<rparr>"

text \<open>A script that locks one table three times: two inserts and a two-wildcard select.\<close>

definition two_inserts :: "statement list" where
  "two_inserts =
     [CreateTable [''users''] users_columns,
      Insert [''users''] [''id'', ''name''] (Some (Values [[Value (Number ''1'' False), Value (SingleQuotedString ''a'')]])),
      Insert [''users''] [''id'', ''name''] (Some (Values [[Value (Number ''2'' False), Value (SingleQuotedString ''b'')]])),
      Query (Select \<lparr>projection = [Wildcard, Wildcard], from_list = [Table [''users'']]\<rparr>)]"

section \<open>Lemmas\<close>

lemma update_map_values:
  "AList.update k (f v) (map (\<lambda>(k, v). (k, f v)) xs) = map (\<lambda>(k, v). (k, f v)) (AList.update k v xs)"
  by (induction xs) auto

lemma update_same_value: "map_of xs k = Some v \<Longrightarrow> AList.update k v xs = xs"
  by (induction xs) (auto split: if_splits)

lemma lget_lift [simp]: "lget_table_ref (lift_db db) n = map_option mutex_new (get_table_ref db n)"
  by (simp add: lget_table_ref_def lift_db_def get_table_ref_def map_of_map)

lemma lput_lift [simp]: "lput_table n (mutex_new t) (lift_db db) = lift_db (put_table n t db)"
  by (simp add: lput_table_def lift_db_def put_table_def update_map_values)

lemma lcreate_lift [simp]:
  "lcreate_table n pks idx cps (lift_db db) = lift_db (create_table n pks idx cps db)"
  by (simp add: lcreate_table_def lift_db_def create_table_def update_map_values)

lemma lput_same: "get_table_ref db n = Some t \<Longrightarrow> lift_db (put_table n t db) = lift_db db"
  by (simp add: put_table_def get_table_ref_def update_same_value)

lemma locked_call_new:
  "\<not> is_panic (fst (f t)) \<Longrightarrow> locked_call f (mutex_new t) = Some (fst (f t), mutex_new (snd (f t)))"
  by (simp add: locked_call_def mutex_new_def case_prod_unfold)

lemma find_all_not_panic: "\<not> is_panic (find_all t WildCard)"
  by (simp add: is_panic_def find_all_def find_all_data_def)

lemma lproject_items_new:
  "lproject_items items (mutex_new t) acc = Some (project_items items t acc, mutex_new t)"
proof (induction items arbitrary: acc)
  case Nil
  then show ?case by simp
next
  case (Cons it items)
  show ?case
  proof (cases it)
    case Wildcard
    have "locked_call (\<lambda>t. (find_all t WildCard, t)) (mutex_new t) = Some (find_all t WildCard, mutex_new t)"
      using locked_call_new [of "\<lambda>t. (find_all t WildCard, t)" t] find_all_not_panic [of t] by simp
    with Wildcard Cons.IH show ?thesis
      by (simp add: find_all_def find_all_data_def)
  qed simp_all
qed

lemma lselect_from_lift:
  "lselect_from fs items (lift_db db) acc = Some (select_from fs items db acc, lift_db db)"
proof (induction fs arbitrary: acc)
  case Nil
  then show ?case by simp
next
  case (Cons f fs)
  show ?case
  proof (cases f)
    case (Table name)
    then show ?thesis
      using Cons.IH
      by (auto simp: lproject_items_new lput_same split: sum.split option.split)
  qed simp
qed

lemma insert_values_not_panic:
  "keys_distinct (column_properies t) \<Longrightarrow> \<not> is_panic (fst (insert_values cols rows t))"
  using insert_values_never_panics [of t cols rows]
  by (auto simp: is_panic_def split: sum.split error.split)

lemma lexecute_insert_lift:
  assumes "db_inv db"
  shows "lexecute (Insert (n # rest) cols (Some body)) (lift_db db) =
           Some (map_prod id lift_db (execute (Insert (n # rest) cols (Some body)) db))"
proof (cases "get_table_ref db n")
  case None
  then show ?thesis
    unfolding execute_insert by (simp add: first_ident_def)
next
  case (Some t)
  then have "keys_distinct (column_properies t)"
    using get_table_ref_inv [OF assms] by (simp add: table_inv_def)
  then have np: "\<not> is_panic (fst (insert_values cols (insert_rows_of body) t))"
    by (rule insert_values_not_panic)
  then have "locked_call (insert_values cols (insert_rows_of body)) (mutex_new t) =
      Some (fst (insert_values cols (insert_rows_of body) t), mutex_new (snd (insert_values cols (insert_rows_of body) t)))"
    by (rule locked_call_new)
  with Some np show ?thesis
    unfolding execute_insert
    by (auto simp: first_ident_def insert_rows_of_def is_panic_def split: sum.split error.split)
qed

lemma lexecute_lift:
  assumes "db_inv db"
  shows "lexecute st (lift_db db) = Some (map_prod id lift_db (execute st db))"
proof (cases st)
  case (CreateTable name columns)
  then show ?thesis
    by (auto simp: first_ident_def split: list.split sum.split prod.split)
next
  case (Insert tname columns source)
  then show ?thesis
  proof (cases tname)
    case (Cons n rest)
    show ?thesis
    proof (cases source)
      case (Some body)
      show ?thesis
        unfolding Insert Cons Some by (rule lexecute_insert_lift [OF assms])
    qed (simp add: Insert Cons first_ident_def)
  qed (simp add: Insert first_ident_def)
next
  case (Query body)
  then show ?thesis
    by (cases body) (simp_all add: lselect_from_lift)
qed simp

lemma lift_new_data_base [simp]: "lift_db new_data_base = lnew_data_base"
  by (simp add: lift_db_def new_data_base_def lnew_data_base_def)

lemma lexecute_all_lift:
  "reachable db \<Longrightarrow> lexecute_all sts (lift_db db) = Some (map_prod id lift_db (execute_all sts db))"
proof (induction sts arbitrary: db)
  case Nil
  then show ?case by simp
next
  case (Cons st sts)
  have "lexecute st (lift_db db) = Some (map_prod id lift_db (execute st db))"
    using reachable_inv [OF Cons.prems] by (rule lexecute_lift)
  moreover have "reachable (snd (execute st db))"
    using Cons.prems by (rule reachable.step)
  ultimately show ?case
    using Cons.IH by (simp add: case_prod_unfold Let_def)
qed

lemma lexecute_all_new:
  "lexecute_all sts lnew_data_base =
     Some (fst (execute_all sts new_data_base), lift_db (snd (execute_all sts new_data_base)))"
  using lexecute_all_lift [OF reachable.start, of sts] by (simp add: map_prod_def case_prod_unfold)

lemma locked_call_panic_poisons:
  "locked_call f m = Some (r, m') \<Longrightarrow> is_panic r \<Longrightarrow> m_poisoned m' \<and> \<not> m_locked m'"
  by (auto simp: locked_call_def is_panic_def split: if_splits prod.splits)

lemma lexecute_insert_poisoned:
  assumes "lget_table_ref db n = Some m" and "\<not> m_locked m" and "m_poisoned m"
  shows "lexecute (Insert (n # rest) cols (Some body)) db =
           Some (Inl (Panic ''called `Result::unwrap()` on an `Err` value: PoisonError { .. }''), db)"
proof -
  have "lput_table n m db = db"
    using assms(1) by (simp add: lput_table_def lget_table_ref_def update_same_value)
  with assms show ?thesis
    by (simp add: first_ident_def locked_call_def)
qed

section \<open>Properties\<close>

text \<open>
  C21: the locks are invisible in the results. Running any statement sequence on the
  database of locked tables gives the results of the lock-free model
  \<^const>\<open>execute_all\<close>, and ends in that model's database with every table
  behind a fresh mutex.
\<close>

theorem locked_execution_refines:
  "lexecute_all sts lnew_data_base =
     Some (fst (execute_all sts new_data_base), lift_db (snd (execute_all sts new_data_base)))"
  by (rule lexecute_all_new)

section \<open>Witnesses\<close>

theorem locked_execution_refines_witness:
  "lexecute_all two_inserts lnew_data_base =
     Some (fst (execute_all two_inserts new_data_base), lift_db (snd (execute_all two_inserts new_data_base)))"
  by (rule locked_execution_refines)

end
