(* ===== verification/Spec2Isabelle.thy ===== *)
theory Spec2Isabelle
  imports CatalogSpec UnsafeCopy MainProgram TableLock
begin

text \<open>
  \<^bold>\<open>A verified model of rust_sql_db.\<close>

  The program (\<open>src/src\<close>) is an in-memory SQL store. \<open>main.rs\<close> parses a SQL
  script with \<open>sqlparser\<close> and runs each statement through \<open>Execute::execute\<close>
  (\<open>executor.rs\<close>) against one \<open>DataBase\<close> (\<open>data_descriptor.rs\<close>). \<open>CREATE TABLE\<close>
  turns the parsed column definitions into a schema (\<open>ColumnInfo\<close> per column, the
  primary-key and index lists) and registers a fresh \<open>TableInfo\<close>; \<open>INSERT\<close> hands
  the \<open>VALUES\<close> rows to \<open>TableInfo::insert_values\<close>, which checks the column
  list, builds a composite key from the primary-key values, validates each value
  against its column type (\<open>validators.rs\<close>, through \<open>ColumnInfo::validate_value\<close>),
  keeps the raw text (\<open>raw_inner_value.rs\<close>) and upserts the row; \<open>SELECT *\<close>
  collects every stored row (\<open>find_all\<close>) and returns it encoded with \<open>bitcode\<close>.

  \<^bold>\<open>Theories and what they model.\<close>
  \<^item> \<open>Prelude\<close>: \<open>u64\<close> as \<^typ>\<open>64 word\<close>; the outcome of a Rust call as
    \<^typ>\<open>'a result\<close> (\<open>Err\<close> for a returned error, \<open>Panic\<close> for an
    \<open>unwrap\<close>/\<open>expect\<close> on \<open>None\<close>); \<open>HashMap\<close> as an association list with
    distinct keys (\<open>insert\<close> = \<open>AList.update\<close>, \<open>get\<close> = \<open>map_of\<close>,
    \<open>values()\<close> = \<open>map snd\<close>), with the shared lemmas in \<open>hash_map_simps\<close>.
  \<^item> \<open>SqlAst\<close>: the part of the \<open>sqlparser\<close> AST the program reads (\<open>Value\<close>,
    \<open>DataType\<close> with all its constructors, \<open>ColumnOption\<close>, \<open>ColumnDef\<close>,
    \<open>Statement\<close> restricted to \<open>CreateTable\<close>, \<open>Insert\<close>, \<open>Query\<close>), other
    constructors collapsed into one \<open>Other\<close> case each.
  \<^item> \<open>RustNum\<close>, \<open>Chrono\<close>, \<open>Json\<close>: the library parsers the validators call,
    modelled from their documented behaviour: \<open>str::parse\<close> for \<open>u64\<close>, \<open>i64\<close>
    and the accepted syntax of \<open>f64\<close>; \<open>chrono\<close>'s \<open>parse_from_str\<close> for the four
    format strings of \<open>validators.rs\<close> (the format is compiled to items first, an
    unknown specifier such as \<open>%2f\<close> becoming an error item that fails every
    parse); \<open>serde_json::from_str\<close> as a recogniser of RFC 8259 text.
  \<^item> \<open>Validators\<close>: \<open>validators.rs\<close> one definition per function
    (\<open>validate_value_for_char\<close> ... \<open>validate_value_for_col\<close>), with the defaults
    of each \<open>DataType\<close> arm as in the source.
  \<^item> \<open>RawValue\<close>: \<open>get_inner_raw_str\<close>.
  \<^item> \<open>DataDescriptor\<close>: the records \<open>ColumnInfo\<close>, \<open>TableRowData\<close>,
    \<open>TableData\<close>, \<open>TableInfo\<close>, \<open>DataBase\<close> and their methods. The loops of
    \<open>insert_values\<close> are \<open>count_found\<close> (the column-list check),
    \<open>insert_row_cols\<close> (one row: key and row built column by column) and
    \<open>insert_rows\<close> (the batch). A mutating method returns its \<open>Result\<close> with the
    updated table, so the rows stored before an early \<open>return Err\<close> are kept,
    as in the source. Here \<open>Arc<Mutex<TableInfo>>\<close> is the table itself, and
    \<open>put_table\<close> writes the mutated table back where the shared handle points;
    \<open>TableLock\<close> puts the mutex back and shows that nothing is lost by this.
  \<^item> \<open>Codec\<close>: the \<open>DataFetched\<close> payload with the logical shape of spec
    section 6 (counts and lengths as 8-byte little-endian \<open>u64\<close>, a presence
    flag per value) and its decoder.
  \<^item> \<open>Executor\<close>: \<open>SuccessStatus\<close> and \<open>execute\<close>, with the loops over
    column options, columns, \<open>FROM\<close> items and projections as recursive
    functions; \<open>execute_all\<close> is the statement loop of \<open>main\<close>; \<open>reachable\<close>
    is the set of databases that loop can build from \<open>DataBase::new\<close>.
  \<^item> \<open>CatalogSpec\<close>: the abstract contract of the catalog (a table is its
    schema, its key columns and a finite map from composite keys to rows), the
    abstraction \<open>abs_db\<close> from the association-list database, and the validity
    invariant of stored values on every reachable database (\<open>db_valid\<close>: each
    stored entry is the raw text of a literal its column accepts), with the
    \<open>BIGINT\<close> typing as a consequence.
  \<^item> \<open>UnsafeCopy\<close>: \<open>buffers_unsafe_copy/src/lib.rs\<close> over an explicit byte
    store (cells and a bump allocator): \<open>with_capacity\<close>, \<open>ptr::copy\<close> (a
    \<open>memmove\<close>), \<open>set_len\<close> and \<open>from_raw_parts\<close> are spec-modelled library
    calls, \<open>string_unsafe_copy\<close>, \<open>vector_unsafe_copy\<close> and
    \<open>unsafe_copy_option_str\<close> follow the source.
  \<^item> \<open>MainProgram\<close>: \<open>main\<close> of \<open>main.rs\<close> with \<open>rows_to_insert\<close> as a
    parameter \<open>k\<close>: the \<open>VALUES\<close> list (two rows written out, then the row
    \<open>generated_row n\<close> for each \<open>n\<close> in \<open>3..k\<close>, its number printed by
    \<open>fmt_nat\<close>, the model of \<open>format!("{}", n)\<close>), the parse with its \<open>unwrap\<close>
    (\<open>parse_main_sql\<close>: a panic when the loop adds no row, since the list then
    ends in a comma), and \<open>main_run\<close>, which runs the statements with
    \<open>execute_all\<close> from \<open>DataBase::new\<close>.
  \<^item> \<open>TableLock\<close>: the \<open>Arc<Mutex<TableInfo>>\<close> handles. A mutex is a
    record of its data and two flags, held and poisoned; \<open>locked_call\<close> is one
    \<open>table.lock().unwrap().f(..)\<close> statement (a poisoned mutex makes the
    \<open>unwrap\<close> panic, a panic inside \<open>f\<close> poisons it). The lock is taken and
    released inside that one step, as the temporary guard of the source is
    dropped at the end of the statement, so between statements no mutex is ever
    held: the \<^term>\<open>None\<close> of a lock on a held mutex is kept for completeness
    and never arises, and no theorem is claimed about blocking. \<open>lexecute\<close>
    and \<open>lexecute_all\<close> are \<open>execute\<close> and the loop of \<open>main\<close> over a
    database of such mutexes (\<open>ldata_base\<close>).
  \<^item> \<open>Spec2Isabelle\<close> (this theory): properties that span the executor, the
    row store, the validators and the codec.

  \<^bold>\<open>What is proved.\<close> Validators: the accepted inputs of \<open>DECIMAL\<close>,
  \<open>BIGINT\<close>, \<open>INT\<close>, \<open>VARCHAR\<close>, \<open>ENUM\<close>, \<open>UUID\<close> and \<open>TIMESTAMP\<close> columns
  and of \<open>NULL\<close>, characterised exactly. Row store: the column-list check, the
  behaviour of a literal batch as an ordered upsert, last write wins, absence of
  panics, the non-atomic batch, the single-row table without primary key.
  Executor: on every reachable database (rule induction on \<open>reachable\<close>)
  each stored value is the raw text of a literal its column's validation accepts,
  and an \<open>INSERT\<close> never panics; the swallowed insert errors, the error paths of \<open>SELECT\<close>,
  the content of \<open>SELECT *\<close>. Across components: insert-then-select round trip,
  re-creation of a table, silently dropped invalid values (the decode/encode round
  trip of the payload is a lemma of \<open>Codec\<close> these use). \<open>DATE\<close>: a
  zero-padded \<open>YYYY-MM-DD\<close> text is accepted exactly when it names a calendar day.
  Refinement: \<open>CREATE TABLE\<close> and \<open>INSERT\<close> on the concrete database commute
  with \<open>abs_db\<close> and the abstract operations; every reachable database stores
  only \<open>BIGINT\<close> text that parses as \<open>u64\<close>. Unsafe copies: \<open>string::unsafe_copy\<close> and
  \<open>unsafe_copy_option_str\<close> return a copy with the same bytes in a fresh block
  and leave every earlier buffer unchanged. \<open>vector::unsafe_copy\<close> is modelled
  too, but the store has no notion of ownership, so the double ownership its
  bitwise copy creates for an owning element type is recorded as a finding and
  not stated as a theorem. Equivalence: the column-list loop
  \<open>count_found\<close>, written as the source's \<open>fold\<close> with \<open>find\<close>, equals the
  number of distinct schema columns named in the statement. Locks: the
  statement loop over locked tables gives the results and final tables of the
  lock-free model (refinement), because no call made under a lock panics on a
  reachable database and so no mutex is ever poisoned. Whole program: for
  every \<open>k\<close> from 4 to the largest \<open>i32\<close>, and so for the program's
  \<open>1000000\<close>, \<open>main\<close> answers \<open>TableCreated\<close>, \<open>DataInserted\<close> and a
  payload that decodes to the \<open>k - 1\<close> rows of its script, every value stored and
  the keys \<open>1 .. k-1\<close> all distinct.

  \<^bold>\<open>Order of hash maps.\<close> Rust's \<open>HashMap\<close> iterates in an unspecified order.
  The model fixes one order (insertion order), and every theorem about an iteration
  result is stated so that it holds for any order: through a multiset, a set, a
  length, a lookup, or a count.

  \<^bold>\<open>Fuel and bounds.\<close> The JSON recogniser is mutually recursive over the
  nesting of the text and runs on fuel \<open>2 * length s + 2\<close> with a depth limit of
  128 (serde_json's recursion limit). Each call of the recogniser either consumes
  a character or is followed by one that does (\<open>json_shorter\<close>), so every run
  on a text \<open>s\<close> needs at most \<open>2 * length s + 2\<close> units: a lemma of \<open>Json\<close>
  proves that any larger fuel gives the same answer, so the bound is not a
  restriction of the model. The
  \<open>u64\<close> casts of lengths (\<open>len() as u64\<close>) are exact below \<open>2^64\<close>, which the
  lemmas assume where a length is compared. The parameter \<open>k\<close> of
  \<open>MainProgram\<close> stays below \<open>2^31\<close> because \<open>rows_to_insert\<close> is an
  \<open>i32\<close>; its row numbers then have at most ten digits, so every key parses as a
  \<open>u64\<close> within the 21 characters \<open>BIGINT\<close> allows.

  \<^bold>\<open>Not modelled.\<close> The timing and printing in \<open>main.rs\<close>, and its script
  as text (the model starts from the statements the parser returns for it); the
  test module of \<open>lib.rs\<close> (it calls an \<open>add\<close> that the crate does not
  define); other threads (\<open>execute\<close> takes \<open>&mut DataBase\<close> and
  \<open>get_table_ref\<close> lends a handle only for one statement, so no second thread can
  reach a table's mutex: the single-threaded lock model is the whole story); the SQL parser
  itself (the model starts from its AST); the exact bytes of \<open>bitcode\<close> (the
  model fixes the logical shape only); \<open>f64\<close> overflow to infinity in the JSON
  number grammar; \<open>table_exists\<close> and named-field selection are modelled but not
  reached by \<open>execute\<close>. \<open>execute_all\<close> goes on after a statement that
  panics, where \<open>main\<close> would abort: the databases it reaches include every one
  the program reaches, so the invariants over \<open>reachable\<close> hold a fortiori.
\<close>

section \<open>Properties across components\<close>

lemma expected_row_all_valid:
  assumes "list_all2 (\<lambda>c v. validate_value (the (map_of (column_properies t) c)) v) cols vs"
  shows "expected_row t (zip cols vs) = map (\<lambda>(c, v). (c, get_inner_raw_str v)) (zip cols vs)"
  using assms by (simp add: expected_row_def list_all2_iff case_prod_unfold)

lemma map_snd_zip_raw:
  "length vs = length cols \<Longrightarrow> map snd (map (\<lambda>(c, v). (c, f v)) (zip cols vs)) = map f vs"
proof (induction vs arbitrary: cols)
  case Nil
  then show ?case by simp
next
  case (Cons v vs)
  then show ?case by (cases cols) auto
qed

lemma insert_single_literal_row:
  assumes "keys_distinct (column_properies t)" and "cols \<noteq> []" and "distinct cols"
    and "set cols \<subseteq> fst ` set (column_properies t)" and "length vs = length cols"
  shows "insert_values cols [map Value vs] t =
           (Inr (), store_row (expected_key t (zip cols vs)) \<lparr>column_data = expected_row t (zip cols vs)\<rparr> t)"
  using insert_values_literals [OF assms(1-4), of "[vs]"] assms(5)
  by (simp add: upsert_literal_rows_def)

lemma map_of_filter_zip_None:
  assumes "distinct cols" and "length vs = length cols" and "i < length cols"
    and "\<not> P (cols ! i, vs ! i)"
  shows "map_of (map (\<lambda>(c, v). (c, f v)) (filter P (zip cols vs))) (cols ! i) = None"
proof -
  have "(cols ! i, w) \<notin> set (filter P (zip cols vs))" for w
  proof
    assume "(cols ! i, w) \<in> set (filter P (zip cols vs))"
    then obtain j where "j < length cols" "cols ! j = cols ! i" "vs ! j = w" "P (cols ! i, w)"
      using assms(2) by (auto simp: set_zip)
    with assms show False by (metis nth_eq_iff_index_eq)
  qed
  then show ?thesis by (force simp: map_of_eq_None_iff)
qed

text \<open>
  C1: end to end, an \<open>INSERT\<close> of one row of literals that all pass validation
  into an existing empty table, followed by \<open>SELECT *\<close> on that table, answers
  \<open>DataInserted\<close> and then \<open>DataFetched\<close> with a payload that decodes to exactly
  one row holding the raw text of the inserted values (as a multiset: the order of
  a row's values is the order of its column map).
\<close>

theorem insert_select_roundtrip:
  assumes "get_table_ref db n = Some t" and "keys_distinct (column_properies t)"
    and "row_data (data t) = []"
    and "cols \<noteq> []" and "distinct cols" and "set cols \<subseteq> fst ` set (column_properies t)"
    and "length vs = length cols"
    and "list_all2 (\<lambda>c v. validate_value (the (map_of (column_properies t) c)) v) cols vs"
    and "encodable [map get_inner_raw_str vs]"
  shows "\<exists>db'. execute (Insert [n] cols (Some (Values [map Value vs]))) db = (Inr DataInserted, db') \<and>
           (\<exists>bs. execute (Query (Select \<lparr>projection = [Wildcard], from_list = [Table [n]]\<rparr>)) db' =
                   (Inr (DataFetched bs), db') \<and>
                 (\<exists>r. decode_rows bs = Some [r] \<and> mset r = mset (map get_inner_raw_str vs)))"
proof -
  let ?t' = "store_row (expected_key t (zip cols vs)) \<lparr>column_data = expected_row t (zip cols vs)\<rparr> t"
  let ?db' = "put_table n ?t' db"
  have ins: "execute (Insert [n] cols (Some (Values [map Value vs]))) db = (Inr DataInserted, ?db')"
    using insert_existing_table [OF assms(1,2), of "[]" cols "[map Value vs]"]
          insert_single_literal_row [OF assms(2,4-7)] by simp
  have "get_table_ref ?db' n = Some ?t'"
    by (simp add: get_table_ref_def put_table_def)
  then have sel: "execute (Query (Select \<lparr>projection = [Wildcard], from_list = [Table [n]]\<rparr>)) ?db' =
                    (Inr (DataFetched (encode_rows [map get_inner_raw_str vs])), ?db')"
  proof -
    have "map snd (expected_row t (zip cols vs)) = map get_inner_raw_str vs"
      using assms(7,8) by (simp only: expected_row_all_valid map_snd_zip_raw)
    with select_wildcard_rows [of ?db' n ?t' "[]"] show ?thesis
      using \<open>get_table_ref ?db' n = Some ?t'\<close> assms(3) by (simp add: store_row_def)
  qed
  have "decode_rows (encode_rows [map get_inner_raw_str vs]) = Some [map get_inner_raw_str vs]"
    using assms(9) by (rule decode_rows_encode_rows)
  with ins sel show ?thesis by blast
qed

text \<open>
  C7: \<open>CREATE TABLE\<close> on a name that already exists (as \<open>IF NOT EXISTS\<close> does
  too, the flag being ignored) replaces the table: whatever rows it held, a
  following \<open>SELECT *\<close> returns none.
\<close>

theorem recreate_clears_rows:
  assumes "translate_columns columns [] [] [] = Inr (pks, idx, cps)"
  shows "\<exists>db'. execute (CreateTable (n # rest) columns) db = (Inr (TableCreated n), db') \<and>
           execute (Query (Select \<lparr>projection = [Wildcard], from_list = [Table [n]]\<rparr>)) db' =
             (Inr (DataFetched (encode_rows [])), db')"
proof -
  let ?db' = "create_table n pks idx cps db"
  have "get_table_ref ?db' n = Some (new_table_info n pks idx cps)"
    by (simp add: get_table_ref_def create_table_def)
  then have "execute (Query (Select \<lparr>projection = [Wildcard], from_list = [Table [n]]\<rparr>)) ?db' =
               (Inr (DataFetched (encode_rows [])), ?db')"
    using select_wildcard_rows [of ?db' n _ "[]"] by (simp add: new_table_info_def new_table_data_def)
  with assms show ?thesis by (simp add: first_ident_def)
qed

text \<open>
  C10: a value that fails its column's validation does not reject the row: the
  insertion reports success, the row is stored under its composite key, and the
  offending column is absent from it.
\<close>

theorem invalid_value_dropped:
  assumes "keys_distinct (column_properies t)" and "distinct cols"
    and "set cols \<subseteq> fst ` set (column_properies t)" and "length vs = length cols"
    and "i < length cols"
    and "\<not> validate_value (the (map_of (column_properies t) (cols ! i))) (vs ! i)"
  shows "\<exists>r. insert_values cols [map Value vs] t = (Inr (), store_row (expected_key t (zip cols vs)) r t) \<and>
             map_of (column_data r) (cols ! i) = None"
proof -
  let ?r = "\<lparr>column_data = expected_row t (zip cols vs)\<rparr>"
  have "cols \<noteq> []" using assms(5) by auto
  then have "insert_values cols [map Value vs] t = (Inr (), store_row (expected_key t (zip cols vs)) ?r t)"
    using assms(1-4) by (intro insert_single_literal_row)
  moreover have "map_of (column_data ?r) (cols ! i) = None"
    unfolding expected_row_def table_row_data.simps
    by (rule map_of_filter_zip_None) (use assms(2,4-6) in simp_all)
  ultimately show ?thesis by blast
qed

section \<open>Witnesses\<close>

lemmas row_check_defs = validate_value_def validate_value_for_col_def validate_value_for_integer_def
  validate_value_for_char_def parse_u64_def digits_nat_def is_digit_def digit_val_def len_u64_def
  makes_nullable_def ABSOLUTE_CHAR_MAX_def

theorem insert_select_roundtrip_witness:
  "\<exists>db'. execute (Insert [''users''] [''id'', ''name'']
            (Some (Values [map Value [Number ''1'' False, SingleQuotedString ''admin'']]))) users_db =
          (Inr DataInserted, db') \<and>
        (\<exists>bs. execute (Query (Select \<lparr>projection = [Wildcard], from_list = [Table [''users'']]\<rparr>)) db' =
                (Inr (DataFetched bs), db') \<and>
              (\<exists>r. decode_rows bs = Some [r] \<and>
                   mset r = mset (map get_inner_raw_str [Number ''1'' False, SingleQuotedString ''admin''])))"
  by (rule insert_select_roundtrip [OF users_db_table])
     (simp_all add: users_defs keys_distinct_def row_check_defs encodable_def get_inner_raw_str_def)

theorem recreate_clears_rows_witness:
  "\<exists>db'. execute (CreateTable [''users''] users_columns)
            (snd (execute (Insert [''users''] [''id'', ''name'']
               (Some (Values [map Value [Number ''1'' False, SingleQuotedString ''admin'']]))) users_db)) =
          (Inr (TableCreated ''users''), db') \<and>
        execute (Query (Select \<lparr>projection = [Wildcard], from_list = [Table [''users'']]\<rparr>)) db' =
          (Inr (DataFetched (encode_rows [])), db')"
  by (rule recreate_clears_rows) (simp add: users_columns_def first_ident_def unwrap_def)

theorem invalid_value_dropped_witness:
  "\<exists>r. insert_values [''id'', ''name''] [map Value [SingleQuotedString ''x'', SingleQuotedString ''admin'']] users_table =
         (Inr (), store_row (expected_key users_table (zip [''id'', ''name''] [SingleQuotedString ''x'', SingleQuotedString ''admin''])) r users_table) \<and>
       map_of (column_data r) ([''id'', ''name''] ! 0) = None"
  by (rule invalid_value_dropped) (simp_all add: users_defs keys_distinct_def row_check_defs)

end
